(* ===== verification/Prelude.thy ===== *)
theory Prelude
  imports Complex_Main "HOL-Library.AList" "HOL-Library.Sublist"
begin

text \<open>
  Shared vocabulary of the development: JavaScript strings (as lists of code units below 256,
  the Latin-1 range), the string operations the sources call, insertion-ordered maps (the
  JavaScript \<open>Map\<close>), stable sorting, and the two generic run lemmas (a step function and a
  step relation that keep an invariant keep it along every run).
\<close>


section \<open>Characters and strings\<close>

text \<open>White space as \<open>\s\<close> and \<open>trim\<close> see it, on code units below 256.\<close>

definition js_ws :: "char \<Rightarrow> bool" where
  "js_ws c \<longleftrightarrow> c \<in> set [CHR 0x09, CHR 0x0A, CHR 0x0B, CHR 0x0C, CHR 0x0D, CHR 0x20, CHR 0xA0]"

definition upper_code :: "nat \<Rightarrow> bool" where
  "upper_code n \<longleftrightarrow> 65 \<le> n \<and> n \<le> 90 \<or> 192 \<le> n \<and> n \<le> 222 \<and> n \<noteq> 215"

definition lower_char :: "char \<Rightarrow> char" where
  "lower_char c = (if upper_code (of_char c) then char_of ((of_char c :: nat) + 32) else c)"

definition js_lower :: "string \<Rightarrow> string" where
  "js_lower s = map lower_char s"

definition js_trim :: "string \<Rightarrow> string" where
  "js_trim s = rev (dropWhile js_ws (rev (dropWhile js_ws s)))"

text \<open>\<open>s.replace(/\s+/g, " ")\<close>: every maximal run of white space becomes one blank.\<close>

fun collapse_ws :: "bool \<Rightarrow> string \<Rightarrow> string" where
  "collapse_ws inside [] = []"
| "collapse_ws inside (c # cs) =
     (if js_ws c then (if inside then collapse_ws True cs else CHR 0x20 # collapse_ws True cs)
      else c # collapse_ws False cs)"

definition includes_str :: "string \<Rightarrow> string \<Rightarrow> bool" where
  "includes_str s w \<longleftrightarrow> sublist w s"

fun js_split :: "char \<Rightarrow> string \<Rightarrow> string list" where
  "js_split d [] = [[]]"
| "js_split d (c # cs) =
     (if c = d then [] # js_split d cs
      else (case js_split d cs of [] \<Rightarrow> [[c]] | w # ws \<Rightarrow> (c # w) # ws))"

fun join_str :: "string \<Rightarrow> string list \<Rightarrow> string" where
  "join_str sep [] = []"
| "join_str sep [w] = w"
| "join_str sep (w # ws) = w @ sep @ join_str sep ws"

text \<open>\<open>String(n)\<close> for a non-negative and for any integer.\<close>

definition digit_char :: "nat \<Rightarrow> char" where
  "digit_char n = char_of (48 + n)"

fun dec :: "nat \<Rightarrow> string" where
  "dec n = (if n < 10 then [digit_char n] else dec (n div 10) @ [digit_char (n mod 10)])"

declare dec.simps [simp del]

definition dec_int :: "int \<Rightarrow> string" where
  "dec_int i = (if i < 0 then CHR ''-'' # dec (nat (- i)) else dec (nat i))"

definition quoted :: "string \<Rightarrow> string" where
  "quoted s = CHR 0x22 # s @ [CHR 0x22]"


lemma js_ws_blank [simp]: "js_ws (CHR 0x20)"
  by (simp add: js_ws_def)

lemma of_char_lower: "of_char (lower_char c) =
    (if upper_code (of_char c) then of_char c + 32 else (of_char c :: nat))"
  by (auto simp: lower_char_def upper_code_def of_char_of)

lemma lower_char_idem [simp]: "lower_char (lower_char c) = lower_char c"
proof -
  have "\<not> upper_code (of_char (lower_char c))"
    by (auto simp: of_char_lower upper_code_def)
  then show ?thesis by (simp add: lower_char_def [of "lower_char c"])
qed

lemma js_lower_idem [simp]: "js_lower (js_lower s) = js_lower s"
  by (simp add: js_lower_def)

lemma lower_char_ws: "js_ws c \<Longrightarrow> lower_char c = c"
  by (auto simp: js_ws_def lower_char_def upper_code_def)

lemma js_trim_idem [simp]: "js_trim (js_trim s) = js_trim s"
proof -
  have dw: "dropWhile js_ws (rev (dropWhile js_ws (rev t))) = rev (dropWhile js_ws (rev t))"
    if "dropWhile js_ws t = t" for t
  proof (cases "rev (dropWhile js_ws (rev t))")
    case Nil
    then show ?thesis by (simp only: dropWhile.simps)
  next
    case (Cons x xs)
    have "t = rev (dropWhile js_ws (rev t)) @ rev (takeWhile js_ws (rev t))"
      by (metis rev_append rev_rev_ident takeWhile_dropWhile_id)
    with Cons have "hd t = x" and "t \<noteq> []" by (metis append_Cons list.sel(1), metis Nil_is_append_conv list.distinct(1))
    moreover have "\<not> js_ws (hd t)"
      using that \<open>t \<noteq> []\<close> by (metis dropWhile_eq_self_iff)
    ultimately show ?thesis using Cons by simp
  qed
  show ?thesis unfolding js_trim_def by (simp add: dw)
qed

text \<open>Decimal numerals determine the number they were made from.\<close>

definition digit_val :: "char \<Rightarrow> nat" where
  "digit_val c = of_char c - 48"

definition is_digit :: "char \<Rightarrow> bool" where
  "is_digit c \<longleftrightarrow> 48 \<le> (of_char c :: nat) \<and> (of_char c :: nat) \<le> 57"

definition num_of :: "string \<Rightarrow> nat" where
  "num_of s = foldl (\<lambda>n c. 10 * n + digit_val c) 0 s"

lemma digit_char_val: "n < 10 \<Longrightarrow> digit_val (digit_char n) = n"
  by (simp add: digit_val_def digit_char_def of_char_of)

lemma is_digit_char: "n < 10 \<Longrightarrow> is_digit (digit_char n)"
  by (simp add: is_digit_def digit_char_def of_char_of)

lemma num_of_dec [simp]: "num_of (dec n) = n"
proof (induction n rule: dec.induct)
  case (1 n)
  show ?case
  proof (cases "n < 10")
    case True
    then show ?thesis by (simp add: dec.simps [of n] num_of_def digit_char_val)
  next
    case False
    then have "num_of (dec n) = 10 * num_of (dec (n div 10)) + n mod 10"
      by (simp add: dec.simps [of n] num_of_def digit_char_val)
    with False 1 show ?thesis by simp
  qed
qed

lemma dec_inject [simp]: "dec m = dec n \<longleftrightarrow> m = n"
  by (metis num_of_dec)

lemma dec_digits: "list_all is_digit (dec n)"
proof (induction n rule: dec.induct)
  case (1 n)
  then show ?case
    by (cases "n < 10") (simp_all add: dec.simps [of n] is_digit_char)
qed

lemma dec_no_char: "\<not> is_digit c \<Longrightarrow> c \<notin> set (dec n)"
  using dec_digits [of n] by (auto simp: list_all_iff)

text \<open>A key made of fields separated by a character none of the fields holds is injective.\<close>

lemma sep_append_inject:
  assumes "d \<notin> set a" and "d \<notin> set a'"
  shows "a @ d # b = a' @ d # b' \<longleftrightarrow> a = a' \<and> b = b'"
  using assms
proof (induction a arbitrary: a')
  case Nil
  then show ?case by (cases a') auto
next
  case (Cons x xs)
  then show ?case by (cases a') auto
qed

lemma sep_append_inject_right:
  assumes "d \<notin> set b" and "d \<notin> set b'"
  shows "a @ d # b = a' @ d # b' \<longleftrightarrow> a = a' \<and> b = b'"
proof -
  have "a @ d # b = a' @ d # b' \<longleftrightarrow> rev b @ d # rev a = rev b' @ d # rev a'"
    by (metis (no_types, lifting) append.assoc append_Cons append_Nil rev_append rev_rev_ident rev_singleton_conv)
  also have "\<dots> \<longleftrightarrow> rev b = rev b' \<and> rev a = rev a'"
    using assms by (intro sep_append_inject) auto
  finally show ?thesis by auto
qed

section \<open>Options, lists and insertion-ordered maps\<close>

definition nth_opt :: "'a list \<Rightarrow> nat \<Rightarrow> 'a option" where
  "nth_opt xs n = (if n < length xs then Some (xs ! n) else None)"

lemma nth_opt_simps [simp]:
  "nth_opt [] n = None"
  "nth_opt (x # xs) 0 = Some x"
  "nth_opt (x # xs) (Suc n) = nth_opt xs n"
  by (auto simp: nth_opt_def)

text \<open>\<open>value ?? fallback\<close>.\<close>

definition or_else :: "'a option \<Rightarrow> 'a \<Rightarrow> 'a" where
  "or_else p d = (case p of None \<Rightarrow> d | Some x \<Rightarrow> x)"

lemma nth_opt_Some_mem: "nth_opt xs n = Some x \<Longrightarrow> x \<in> set xs"
  by (auto simp: nth_opt_def split: if_splits)

text \<open>
  A JavaScript \<open>Map\<close> (and an object used as a record): an association list in insertion order.
  Setting a present key keeps its position. The interface is stated once as a locale.
\<close>

type_synonym ('k, 'v) jmap = "('k \<times> 'v) list"

definition jget :: "('k, 'v) jmap \<Rightarrow> 'k \<Rightarrow> 'v option" where
  "jget m k = map_of m k"

definition jset :: "'k \<Rightarrow> 'v \<Rightarrow> ('k, 'v) jmap \<Rightarrow> ('k, 'v) jmap" where
  "jset k v m = AList.update k v m"

definition jdel :: "'k \<Rightarrow> ('k, 'v) jmap \<Rightarrow> ('k, 'v) jmap" where
  "jdel k m = AList.delete k m"

locale js_map =
  fixes lookup :: "'m \<Rightarrow> 'k \<Rightarrow> 'v option"
    and insert :: "'k \<Rightarrow> 'v \<Rightarrow> 'm \<Rightarrow> 'm"
    and remove :: "'k \<Rightarrow> 'm \<Rightarrow> 'm"
    and entries :: "'m \<Rightarrow> ('k \<times> 'v) list"
    and ok :: "'m \<Rightarrow> bool"
  assumes lookup_insert: "lookup (insert k v m) k' = (if k' = k then Some v else lookup m k')"
    and lookup_remove: "lookup (remove k m) k' = (if k' = k then None else lookup m k')"
    and ok_insert: "ok m \<Longrightarrow> ok (insert k v m)"
    and ok_remove: "ok m \<Longrightarrow> ok (remove k m)"
    and entries_lookup: "ok m \<Longrightarrow> (k, v) \<in> set (entries m) \<longleftrightarrow> lookup m k = Some v"
begin

lemma all_insert:
  assumes "ok m" and "\<forall>(k, v) \<in> set (entries m). P k v" and "P k0 v0"
  shows "\<forall>(k, v) \<in> set (entries (insert k0 v0 m)). P k v"
proof (clarify)
  fix k v
  assume "(k, v) \<in> set (entries (insert k0 v0 m))"
  then have "lookup (insert k0 v0 m) k = Some v"
    using entries_lookup [OF ok_insert [OF assms(1)]] by simp
  then show "P k v"
    using assms entries_lookup [OF assms(1)] by (fastforce simp: lookup_insert split: if_splits)
qed

lemma all_remove:
  assumes "ok m" and "\<forall>(k, v) \<in> set (entries m). P k v"
  shows "\<forall>(k, v) \<in> set (entries (remove k0 m)). P k v"
proof (clarify)
  fix k v
  assume "(k, v) \<in> set (entries (remove k0 m))"
  then have "lookup (remove k0 m) k = Some v"
    using entries_lookup [OF ok_remove [OF assms(1)]] by simp
  then show "P k v"
    using assms entries_lookup [OF assms(1)] by (fastforce simp: lookup_remove split: if_splits)
qed

end

definition jmap_ok :: "('k, 'v) jmap \<Rightarrow> bool" where
  "jmap_ok m \<longleftrightarrow> distinct (map fst m)"

interpretation jm: js_map jget jset jdel "\<lambda>m. m" jmap_ok
proof unfold_locales
  fix k k' :: 'a and v :: 'b and m :: "('a, 'b) jmap"
  show "jget (jset k v m) k' = (if k' = k then Some v else jget m k')"
    by (simp add: jget_def jset_def update_conv')
  show "jget (jdel k m) k' = (if k' = k then None else jget m k')"
    by (simp add: jget_def jdel_def delete_conv)
  show "jmap_ok (jset k v m)" if "jmap_ok m"
    using that by (simp add: jmap_ok_def jset_def distinct_update)
  show "jmap_ok (jdel k m)" if "jmap_ok m"
    using that by (simp add: jmap_ok_def jdel_def distinct_delete)
  show "((k, v) \<in> set m) = (jget m k = Some v)" if "jmap_ok m"
    using that by (simp add: jmap_ok_def jget_def)
qed

section \<open>Runs that keep an invariant\<close>

locale step_invariant =
  fixes step :: "'s \<Rightarrow> 'e \<Rightarrow> 's" and inv :: "'s \<Rightarrow> bool"
  assumes step_keeps: "inv s \<Longrightarrow> inv (step s e)"
begin

lemma run_keeps: "inv s \<Longrightarrow> inv (foldl step s es)"
  by (induction es arbitrary: s) (simp_all add: step_keeps)

end

inductive steps_to :: "('s \<Rightarrow> 'e \<Rightarrow> 's \<Rightarrow> bool) \<Rightarrow> 's \<Rightarrow> 'e list \<Rightarrow> 's \<Rightarrow> bool"
  for step where
  steps_refl: "steps_to step s [] s"
| steps_snoc: "steps_to step s es t \<Longrightarrow> step t e u \<Longrightarrow> steps_to step s (es @ [e]) u"

inductive_cases steps_to_NilE: "steps_to step s [] t"

locale rel_invariant =
  fixes step :: "'s \<Rightarrow> 'e \<Rightarrow> 's \<Rightarrow> bool" and inv :: "'e list \<Rightarrow> 's \<Rightarrow> bool"
  assumes rel_keeps: "inv es s \<Longrightarrow> step s e t \<Longrightarrow> inv (es @ [e]) t"
begin

lemma rel_run_keeps: "steps_to step s es t \<Longrightarrow> inv [] s \<Longrightarrow> inv es t"
  by (induction rule: steps_to.induct) (auto intro: rel_keeps)

end

end
