(* ===== verification/Js_Regex.thy ===== *)
theory Js_Regex
  imports Prelude
begin

text \<open>
  The part of JavaScript's regular expressions the sources use: character classes, bounded and
  unbounded repetition of a class, sequence, alternation, word boundaries and the two anchors.
  \<open>RegExp.test\<close> asks only whether some match exists, so a pattern denotes, for a position,
  the list of positions where a match starting there can end. A position is the character before
  it (if any) and the rest of the string.
\<close>

type_synonym pos = "char option \<times> string"

datatype rx =
    Eps
  | Cls "char \<Rightarrow> bool"
  | Rep "char \<Rightarrow> bool" nat "nat option"
  | Cat rx rx
  | Alt rx rx
  | WordB
  | Bol
  | Eol

definition is_upper :: "char \<Rightarrow> bool" where
  "is_upper c \<longleftrightarrow> 65 \<le> (of_char c :: nat) \<and> (of_char c :: nat) \<le> 90"

definition is_lower :: "char \<Rightarrow> bool" where
  "is_lower c \<longleftrightarrow> 97 \<le> (of_char c :: nat) \<and> (of_char c :: nat) \<le> 122"

definition is_alnum :: "char \<Rightarrow> bool" where
  "is_alnum c \<longleftrightarrow> is_upper c \<or> is_lower c \<or> is_digit c"

definition is_word :: "char \<Rightarrow> bool" where
  "is_word c \<longleftrightarrow> is_alnum c \<or> c = CHR ''_''"

definition word_opt :: "char option \<Rightarrow> bool" where
  "word_opt p = (case p of None \<Rightarrow> False | Some c \<Rightarrow> is_word c)"

definition next_char :: "string \<Rightarrow> char option" where
  "next_char s = (case s of [] \<Rightarrow> None | c # _ \<Rightarrow> Some c)"

text \<open>All positions reached by zero, one, two, ... characters of a class.\<close>

fun rep_ends :: "(char \<Rightarrow> bool) \<Rightarrow> char option \<Rightarrow> string \<Rightarrow> pos list" where
  "rep_ends p pv [] = [(pv, [])]"
| "rep_ends p pv (c # cs) = (pv, c # cs) # (if p c then rep_ends p (Some c) cs else [])"

fun ends :: "rx \<Rightarrow> pos \<Rightarrow> pos list" where
  "ends Eps q = [q]"
| "ends (Cls p) q = (case snd q of [] \<Rightarrow> [] | c # cs \<Rightarrow> if p c then [(Some c, cs)] else [])"
| "ends (Rep p lo hi) q =
     (let es = rep_ends p (fst q) (snd q)
      in drop lo (case hi of None \<Rightarrow> es | Some h \<Rightarrow> take (Suc h) es))"
| "ends (Cat a b) q = concat (map (ends b) (ends a q))"
| "ends (Alt a b) q = ends a q @ ends b q"
| "ends WordB q = (if word_opt (fst q) \<noteq> word_opt (next_char (snd q)) then [q] else [])"
| "ends Bol q = (if fst q = None then [q] else [])"
| "ends Eol q = (if snd q = [] then [q] else [])"

fun positions :: "char option \<Rightarrow> string \<Rightarrow> pos list" where
  "positions pv [] = [(pv, [])]"
| "positions pv (c # cs) = (pv, c # cs) # positions (Some c) cs"

definition rx_test :: "rx \<Rightarrow> string \<Rightarrow> bool" where
  "rx_test r s \<longleftrightarrow> list_ex (\<lambda>q. ends r q \<noteq> []) (positions None s)"

definition ch :: "char \<Rightarrow> rx" where
  "ch c = Cls (\<lambda>d. d = c)"

definition one_of :: "string \<Rightarrow> rx" where
  "one_of cs = Cls (\<lambda>d. d \<in> set cs)"

definition lit :: "string \<Rightarrow> rx" where
  "lit w = foldr (\<lambda>c r. Cat (ch c) r) w Eps"

text \<open>A literal under the flag \<open>i\<close>.\<close>

definition lit_i :: "string \<Rightarrow> rx" where
  "lit_i w = foldr (\<lambda>c r. Cat (Cls (\<lambda>d. lower_char d = lower_char c)) r) w Eps"

definition seq :: "rx list \<Rightarrow> rx" where
  "seq rs = foldr Cat rs Eps"

definition alts :: "rx list \<Rightarrow> rx" where
  "alts rs = (case rs of [] \<Rightarrow> Cls (\<lambda>_. False) | r # rs' \<Rightarrow> foldl Alt r rs')"

definition opt_of :: "string \<Rightarrow> rx" where
  "opt_of cs = Rep (\<lambda>d. d \<in> set cs) 0 (Some 1)"

lemma ends_lit: "ends (lit w) (pv, s) \<noteq> [] \<longleftrightarrow> prefix w s"
proof (induction w arbitrary: pv s)
  case Nil
  then show ?case by (simp add: lit_def)
next
  case (Cons c w)
  then show ?case by (cases s) (auto simp: lit_def ch_def)
qed

lemma set_positions_tl: "(\<exists>pv' t. (pv', t) \<in> set (positions pv s) \<and> P t) \<longleftrightarrow> (\<exists>a t. s = a @ t \<and> P t)"
proof (induction s arbitrary: pv)
  case Nil
  then show ?case by auto
next
  case (Cons c s)
  have "(\<exists>a t. c # s = a @ t \<and> P t) \<longleftrightarrow> P (c # s) \<or> (\<exists>a t. s = a @ t \<and> P t)"
    by (metis append_eq_Cons_conv append_Cons append_Nil)
  with Cons.IH [of "Some c"] show ?case by auto
qed

text \<open>A literal pattern is a substring test.\<close>

lemma rx_test_lit: "rx_test (lit w) s \<longleftrightarrow> includes_str s w"
proof -
  have "rx_test (lit w) s \<longleftrightarrow> (\<exists>pv t. (pv, t) \<in> set (positions None s) \<and> prefix w t)"
    by (auto simp: rx_test_def list_ex_iff ends_lit split: prod.splits) (metis ends_lit)+
  also have "\<dots> \<longleftrightarrow> includes_str s w"
    unfolding set_positions_tl includes_str_def sublist_def prefix_def by auto
  finally show ?thesis .
qed

lemma ends_Cat_Bol: "ends (Cat Bol r) q \<noteq> [] \<longleftrightarrow> fst q = None \<and> ends r q \<noteq> []"
  by simp

lemma positions_None: "(None, t) \<in> set (positions pv s) \<longleftrightarrow> pv = None \<and> t = s"
proof (induction s arbitrary: pv)
  case Nil
  then show ?case by auto
next
  case (Cons c s)
  then show ?case by auto
qed

text \<open>A pattern anchored at the start is tried at the start only.\<close>

lemma rx_test_Bol: "rx_test (Cat Bol r) s \<longleftrightarrow> ends r (None, s) \<noteq> []"
proof -
  have "rx_test (Cat Bol r) s \<longleftrightarrow> (\<exists>q \<in> set (positions None s). fst q = None \<and> ends r q \<noteq> [])"
    by (simp only: rx_test_def list_ex_iff ends_Cat_Bol)
  also have "\<dots> \<longleftrightarrow> ends r (None, s) \<noteq> []"
    using positions_None [of _ None s] by (metis fst_conv prod.collapse)
  finally show ?thesis .
qed

end
