(* ===== verification/Contracts.thy ===== *)
theory Contracts
  imports Js_Regex
begin

text \<open>
  The cross-process contracts of \<open>packages/contracts\<close>: the secret shapes no literal may hold
  (\<open>common.ts\<close>), the declarative agent specification and its schema (\<open>agent-spec.ts\<close>) and
  the run contract with the idempotency key (\<open>run.ts\<close>). The validation library the schemas
  are written in is not part of the repository: its string formats (uuid, url) and the text of
  its issues are the parameter \<open>zod\<close>; every constraint the sources state themselves is spelled
  out. Timestamps are their milliseconds, so the UTC format is met by the type. Records of JSON
  are association lists in their enumeration order.
\<close>

section \<open>common.ts\<close>

datatype app_category = Crm | Spreadsheet | Email | Calendar | Research | Messaging | BrowserApp | OtherApp

datatype risk_level = Low | Medium | High | Prohibited

definition alnum_dash :: "char \<Rightarrow> bool" where
  "alnum_dash c \<longleftrightarrow> is_alnum c \<or> c = CHR ''-''"

definition word_dash :: "char \<Rightarrow> bool" where
  "word_dash c \<longleftrightarrow> is_word c \<or> c = CHR ''-''"

definition SECRET_SHAPES :: "rx list" where
  "SECRET_SHAPES =
    [seq [lit ''-----BEGIN '', Rep (\<lambda>c. is_upper c \<or> c = CHR 0x20) 0 None, lit ''PRIVATE KEY-----''],
     seq [WordB, lit ''sk-ant-'', Rep word_dash 10 None],
     seq [WordB, lit ''sk_live_'', Rep is_alnum 10 None],
     seq [WordB, lit ''sk-'', Rep is_alnum 20 None],
     seq [WordB, lit ''AKIA'', Rep (\<lambda>c. is_digit c \<or> is_upper c) 16 (Some 16), WordB],
     seq [WordB, lit ''ghp_'', Rep is_alnum 36 (Some 36), WordB],
     seq [WordB, lit ''xox'', one_of ''baprs'', lit ''-'', Rep alnum_dash 10 None],
     seq [WordB, lit ''eyJ'', Rep word_dash 10 None, lit ''.'', Rep word_dash 10 None, lit ''.'',
          Rep word_dash 5 None, WordB],
     seq [WordB,
          alts [lit_i ''password'', lit_i ''passwd'', lit_i ''secret'',
                seq [lit_i ''api'', opt_of ''_-'', lit_i ''key''],
                seq [lit_i ''access'', opt_of ''_-'', lit_i ''token''],
                seq [lit_i ''refresh'', opt_of ''_-'', lit_i ''token'']],
          Rep js_ws 0 None, one_of ''=:'', Rep js_ws 0 None, Rep (\<lambda>c. \<not> js_ws c) 1 None]]"

definition looksLikeSecret :: "string \<Rightarrow> bool" where
  "looksLikeSecret value \<longleftrightarrow> list_ex (\<lambda>re. rx_test re value) SECRET_SHAPES"

definition nonSecretString :: "string \<Rightarrow> bool" where
  "nonSecretString v \<longleftrightarrow> \<not> looksLikeSecret v"

section \<open>agent-spec.ts: data\<close>

datatype agent_state =
    Draft | Shadow | Supervised | Active | Paused | Degraded | Revoked | Archived

datatype agent_trigger =
    TManual
  | TSchedule (tr_cron: string) (tr_timezone: string)
  | TEvent string string
  | TContext (tr_app_category: string) (tr_object_type: "string option")
      (tr_origin: "string option") (tr_cooldown_seconds: nat)

record workflow_context =
  wc_source :: string
  wc_app_category :: string
  wc_event_type :: string
  wc_target_role :: string
  wc_semantic_type :: string
  wc_object_type :: string
  wc_domain :: "string option"
  wc_occurred_at :: int

datatype input_type = InString | InNumber | InBoolean | InDate | InRecordRef | InFileRef
datatype input_sensitivity = SPublic | SInternal | SConfidential
datatype input_source = FromUser | FromTrigger | FromPreviousStep | DiscoveredOnSurface

record agent_input =
  in_key :: string
  in_label :: string
  in_type :: input_type
  in_required :: bool
  in_sensitivity :: input_sensitivity
  in_source :: input_source
  in_source_ref :: "string option"

datatype literal = LStr string | LNum rat | LBool bool

datatype step_binding =
    BLiteral literal
  | BAgentInput string
  | BStepOutput string

datatype step_mode = Read | ProposeWrite | Write

record step_approval =
  ap_required :: bool
  ap_reason :: "string option"

record step_retry =
  rt_allowed :: bool
  rt_max_attempts :: nat
  rt_backoff_seconds :: "nat list"

record agent_step =
  st_id :: string
  st_order :: nat
  st_name :: string
  st_capability_id :: string
  st_capability_version :: nat
  st_mode :: step_mode
  st_inputs :: "(string \<times> step_binding) list"
  st_output_key :: string
  st_risk_level :: risk_level
  st_approval :: step_approval
  st_retry :: step_retry

datatype severity = Warning | Blocking

datatype assertion_config =
    RecordCountBetween string nat nat
  | RequiredFieldsPresent string "string list"
  | NoDuplicateKeys string string
  | DiffWithinLimit string nat
  | OutputSchema string string
  | CustomCatalogAssertion string "(string \<times> literal) list"

record agent_assertion =
  aa_id :: string
  aa_config :: assertion_config
  aa_severity :: severity

record agent_budgets =
  bg_max_runtime_seconds :: nat
  bg_max_model_tokens :: nat
  bg_max_cost_usd :: rat
  bg_max_records_read :: nat
  bg_max_records_written :: nat

datatype tool_failure = StopOnFailure | RetrySafe

record agent_failure_policy =
  fp_on_tool_failure :: tool_failure
  fp_max_safe_retries :: nat
  fp_approval_timeout_minutes :: nat

datatype created_by = ByUser | ByCompiler

record agent_spec =
  sp_agent_id :: string
  sp_version_id :: string
  sp_organization_id :: string
  sp_owner_user_id :: string
  sp_name :: string
  sp_description :: string
  sp_generalized_intent :: string
  sp_source_pattern_id :: string
  sp_source_trace_id :: "string option"
  sp_compiler :: "string option"
  sp_compiler_version :: "nat option"
  sp_state :: agent_state
  sp_trigger :: agent_trigger
  sp_inputs :: "agent_input list"
  sp_steps :: "agent_step list"
  sp_assertions :: "agent_assertion list"
  sp_budgets :: agent_budgets
  sp_failure_policy :: agent_failure_policy
  sp_created_at :: int
  sp_created_by :: created_by

section \<open>agent-spec.ts: the schema\<close>

record zod =
  z_uuid :: "string \<Rightarrow> bool"
  z_url :: "string \<Rightarrow> bool"
  z_issues :: "agent_spec \<Rightarrow> (string list \<times> string) list"

definition nonempty :: "string \<Rightarrow> bool" where
  "nonempty s \<longleftrightarrow> s \<noteq> []"

definition trigger_schema :: "zod \<Rightarrow> agent_trigger \<Rightarrow> bool" where
  "trigger_schema z t = (case t of
       TManual \<Rightarrow> True
     | TSchedule cron timezone \<Rightarrow> nonempty cron \<and> nonempty timezone
     | TEvent connector event_name \<Rightarrow> nonempty connector \<and> nonempty event_name
     | TContext app_category object_type origin cooldown \<Rightarrow>
         nonempty app_category \<and> pred_option nonempty object_type
         \<and> pred_option (\<lambda>u. z_url z u \<and> prefix ''https://'' u) origin
         \<and> 30 \<le> cooldown \<and> cooldown \<le> 86400)"

definition input_schema :: "agent_input \<Rightarrow> bool" where
  "input_schema i \<longleftrightarrow> nonempty (in_key i) \<and> nonempty (in_label i)"

definition binding_schema :: "step_binding \<Rightarrow> bool" where
  "binding_schema b = (case b of
       BLiteral (LStr v) \<Rightarrow> nonSecretString v
     | BLiteral _ \<Rightarrow> True
     | BAgentInput ref \<Rightarrow> nonempty ref
     | BStepOutput ref \<Rightarrow> nonempty ref)"

definition step_schema :: "agent_step \<Rightarrow> bool" where
  "step_schema s \<longleftrightarrow>
     nonempty (st_id s) \<and> 0 < st_order s \<and> nonempty (st_name s) \<and> nonempty (st_capability_id s)
     \<and> 0 < st_capability_version s \<and> list_all (\<lambda>(_, b). binding_schema b) (st_inputs s)
     \<and> nonempty (st_output_key s) \<and> rt_max_attempts (st_retry s) \<le> 5
     \<and> list_all (\<lambda>n. 0 < n) (rt_backoff_seconds (st_retry s))"

definition assertion_schema :: "agent_assertion \<Rightarrow> bool" where
  "assertion_schema a \<longleftrightarrow> nonempty (aa_id a) \<and> (case aa_config a of
       RecordCountBetween output_key _ _ \<Rightarrow> nonempty output_key
     | RequiredFieldsPresent output_key field_names \<Rightarrow>
         nonempty output_key \<and> list_all nonempty field_names \<and> field_names \<noteq> []
     | NoDuplicateKeys output_key key_field \<Rightarrow> nonempty output_key \<and> nonempty key_field
     | DiffWithinLimit step_id _ \<Rightarrow> nonempty step_id
     | OutputSchema output_key catalog_schema_id \<Rightarrow> nonempty output_key \<and> nonempty catalog_schema_id
     | CustomCatalogAssertion catalog_assertion_id _ \<Rightarrow> nonempty catalog_assertion_id)"

definition budgets_schema :: "agent_budgets \<Rightarrow> bool" where
  "budgets_schema b \<longleftrightarrow> 0 < bg_max_runtime_seconds b \<and> 0 \<le> bg_max_cost_usd b"

definition failure_policy_schema :: "agent_failure_policy \<Rightarrow> bool" where
  "failure_policy_schema f \<longleftrightarrow> fp_max_safe_retries f \<le> 5 \<and> 0 < fp_approval_timeout_minutes f"

definition spec_schema :: "zod \<Rightarrow> agent_spec \<Rightarrow> bool" where
  "spec_schema z sp \<longleftrightarrow>
     z_uuid z (sp_agent_id sp) \<and> z_uuid z (sp_version_id sp) \<and> z_uuid z (sp_organization_id sp)
     \<and> z_uuid z (sp_owner_user_id sp)
     \<and> 1 \<le> length (sp_name sp) \<and> length (sp_name sp) \<le> 200
     \<and> z_uuid z (sp_source_pattern_id sp)
     \<and> pred_option (z_uuid z) (sp_source_trace_id sp)
     \<and> pred_option nonempty (sp_compiler sp)
     \<and> pred_option (\<lambda>n. 0 < n) (sp_compiler_version sp)
     \<and> trigger_schema z (sp_trigger sp)
     \<and> list_all input_schema (sp_inputs sp)
     \<and> list_all step_schema (sp_steps sp)
     \<and> list_all assertion_schema (sp_assertions sp)
     \<and> budgets_schema (sp_budgets sp)
     \<and> failure_policy_schema (sp_failure_policy sp)"

lemmas schema_defs = spec_schema_def trigger_schema_def input_schema_def binding_schema_def
  step_schema_def assertion_schema_def budgets_schema_def failure_policy_schema_def nonempty_def

section \<open>run.ts\<close>

datatype run_mode = RunShadow | RunSupervised | RunActive

datatype run_status =
    Queued | Validating | RunningRead | PreparingDiff | WaitingApproval | ApplyingWrite | Verifying
  | Completed | CompletedWithWarnings | Failed | Cancelled | Expired | BudgetExceeded | PolicyBlocked

datatype step_status = SPending | SRunning | SWaitingApproval | SCompleted | SFailed | SSkipped

definition stepIdempotencyKey :: "string \<Rightarrow> string \<Rightarrow> string \<Rightarrow> nat \<Rightarrow> string \<Rightarrow> string" where
  "stepIdempotencyKey run_id agent_version_id step_id capability_version diff_hash =
     run_id @ '':'' @ agent_version_id @ '':'' @ step_id @ '':'' @ dec capability_version
       @ '':'' @ diff_hash"

text \<open>
  The key determines every part, as long as the parts that come from
  identifiers and digests hold no colon. The step id may hold one.
\<close>

lemma stepIdempotencyKey_inject:
  assumes "CHR '':'' \<notin> set r" "CHR '':'' \<notin> set r'" "CHR '':'' \<notin> set v" "CHR '':'' \<notin> set v'"
    and "CHR '':'' \<notin> set h" "CHR '':'' \<notin> set h'"
  shows "stepIdempotencyKey r v s c h = stepIdempotencyKey r' v' s' c' h'
    \<longleftrightarrow> r = r' \<and> v = v' \<and> s = s' \<and> c = c' \<and> h = h'"
proof -
  have no_colon: "CHR '':'' \<notin> set (dec n)" for n
    by (rule dec_no_char) (simp add: is_digit_def)
  have tail: "s @ CHR '':'' # dec c @ CHR '':'' # h = s' @ CHR '':'' # dec c' @ CHR '':'' # h'
      \<longleftrightarrow> s = s' \<and> c = c' \<and> h = h'"
    using assms no_colon
      sep_append_inject_right [of "CHR '':''" h h' "s @ CHR '':'' # dec c" "s' @ CHR '':'' # dec c'"]
      sep_append_inject_right [of "CHR '':''" "dec c" "dec c'" s s']
    by simp
  show ?thesis
    using assms tail by (simp add: stepIdempotencyKey_def sep_append_inject)
qed

end
