(* ===== verification/Capability_Catalog.thy ===== *)
theory Capability_Catalog
  imports Contracts
begin

text \<open>
  The capability catalog of \<open>packages/capability-catalog/src/metadata.ts\<close>: the metadata of every
  capability, the lookup by id, the role sets and the map from a canonical pattern token to
  candidate capabilities. The lemmas at the end are the facts the other components rely on.
\<close>

datatype connector = Salesforce | GoogleSheets | Gmail | GoogleCalendar | BrowserConn | LocalConn

datatype retry_class = RetrySafeClass | RetryUnsafe | RetryConditional

record capability =
  cap_id :: string
  cap_version :: nat
  cap_display_name :: string
  cap_connector :: connector
  cap_supported_modes :: "step_mode list"
  cap_risk_level :: risk_level
  cap_required_scopes :: "string list"
  cap_is_idempotent :: bool
  cap_retry_class :: retry_class
  cap_reversible :: bool

record cap_opts =
  co_scopes :: "string list option"
  co_idempotent :: "bool option"
  co_retry :: "retry_class option"
  co_reversible :: "bool option"

definition no_opts :: cap_opts where
  "no_opts = \<lparr>co_scopes = None, co_idempotent = None, co_retry = None, co_reversible = None\<rparr>"

definition cap :: "string \<Rightarrow> connector \<Rightarrow> string \<Rightarrow> step_mode list \<Rightarrow> risk_level \<Rightarrow> cap_opts \<Rightarrow> capability" where
  "cap cid conn display_name modes risk opts =
     \<lparr>cap_id = cid, cap_version = 1, cap_display_name = display_name, cap_connector = conn,
      cap_supported_modes = modes, cap_risk_level = risk,
      cap_required_scopes = or_else (co_scopes opts) [],
      cap_is_idempotent = or_else (co_idempotent opts) True,
      cap_retry_class = or_else (co_retry opts) RetrySafeClass,
      cap_reversible = or_else (co_reversible opts) True\<rparr>"

definition CAPABILITIES :: "capability list" where
  "CAPABILITIES = [
     cap ''salesforce.query_records'' Salesforce ''Query Salesforce records'' [Read] Low (no_opts\<lparr>co_scopes := Some [''api'']\<rparr>),
     cap ''salesforce.get_record'' Salesforce ''Get a Salesforce record'' [Read] Low (no_opts\<lparr>co_scopes := Some [''api'']\<rparr>),
     cap ''salesforce.compare_records'' Salesforce ''Compare Salesforce records'' [Read] Low no_opts,
     cap ''salesforce.propose_upsert'' Salesforce ''Propose Salesforce upserts'' [ProposeWrite] Low no_opts,
     cap ''salesforce.upsert_records'' Salesforce ''Upsert Salesforce records'' [ProposeWrite,Write] Medium (no_opts\<lparr>co_scopes := Some [''api''], co_idempotent := Some True, co_retry := Some RetryConditional\<rparr>),
     cap ''salesforce.propose_field_updates'' Salesforce ''Propose Salesforce field updates'' [ProposeWrite] Low no_opts,
     cap ''salesforce.update_fields'' Salesforce ''Update Salesforce fields'' [ProposeWrite,Write] Medium (no_opts\<lparr>co_scopes := Some [''api''], co_retry := Some RetryConditional\<rparr>),
     cap ''google_sheets.read_range'' GoogleSheets ''Read a Sheets range'' [Read] Low (no_opts\<lparr>co_scopes := Some [''spreadsheets.readonly'']\<rparr>),
     cap ''google_sheets.compare_rows'' GoogleSheets ''Compare Sheets rows'' [Read] Low no_opts,
     cap ''google_sheets.propose_write_range'' GoogleSheets ''Propose a Sheets range write'' [ProposeWrite] Low no_opts,
     cap ''google_sheets.write_range'' GoogleSheets ''Write a Sheets range'' [ProposeWrite,Write] Medium (no_opts\<lparr>co_scopes := Some [''spreadsheets''], co_retry := Some RetryConditional\<rparr>),
     cap ''google_sheets.append_rows'' GoogleSheets ''Append rows to a Sheet'' [ProposeWrite,Write] Medium (no_opts\<lparr>co_scopes := Some [''spreadsheets''], co_retry := Some RetryConditional, co_idempotent := Some False\<rparr>),
     cap ''gmail.search_metadata'' Gmail ''Search Gmail metadata'' [Read] Low (no_opts\<lparr>co_scopes := Some [''gmail.metadata'']\<rparr>),
     cap ''gmail.get_thread_metadata'' Gmail ''Get Gmail thread metadata'' [Read] Low (no_opts\<lparr>co_scopes := Some [''gmail.metadata'']\<rparr>),
     cap ''gmail.create_draft'' Gmail ''Create a Gmail draft'' [ProposeWrite,Write] Medium (no_opts\<lparr>co_scopes := Some [''gmail.compose''], co_idempotent := Some False, co_retry := Some RetryConditional\<rparr>),
     cap ''gmail.update_draft'' Gmail ''Update a Gmail draft'' [ProposeWrite,Write] Medium (no_opts\<lparr>co_scopes := Some [''gmail.compose''], co_retry := Some RetryConditional\<rparr>),
     cap ''google_calendar.list_events'' GoogleCalendar ''List calendar events'' [Read] Low (no_opts\<lparr>co_scopes := Some [''calendar.readonly'']\<rparr>),
     cap ''google_calendar.find_open_slots'' GoogleCalendar ''Find open calendar slots'' [Read] Low no_opts,
     cap ''google_calendar.create_event_draft'' GoogleCalendar ''Draft a calendar event'' [ProposeWrite,Write] Medium (no_opts\<lparr>co_idempotent := Some False, co_retry := Some RetryConditional\<rparr>),
     cap ''browser.extract_table'' BrowserConn ''Extract a table from the page'' [Read] Low no_opts,
     cap ''browser.extract_structured_fields'' BrowserConn ''Extract structured fields'' [Read] Low no_opts,
     cap ''browser.propose_form_fill'' BrowserConn ''Propose a form fill'' [ProposeWrite] Low no_opts,
     cap ''browser.press_control'' BrowserConn ''Press a control'' [ProposeWrite,Write] High (no_opts\<lparr>co_idempotent := Some False, co_retry := Some RetryUnsafe, co_reversible := Some False\<rparr>),
     cap ''browser.supervised_form_fill'' BrowserConn ''Supervised form fill'' [ProposeWrite,Write] High (no_opts\<lparr>co_idempotent := Some False, co_retry := Some RetryUnsafe, co_reversible := Some False\<rparr>),
     cap ''local.parse_csv'' LocalConn ''Parse a CSV'' [Read] Low no_opts,
     cap ''local.match_records'' LocalConn ''Match records'' [Read] Low no_opts,
     cap ''local.deduplicate_records'' LocalConn ''Deduplicate records'' [Read] Low no_opts,
     cap ''local.transform_columns'' LocalConn ''Transform columns'' [Read] Low no_opts,
     cap ''local.generate_csv'' LocalConn ''Generate a CSV'' [Read] Low no_opts,
     cap ''local.generate_summary'' LocalConn ''Generate a summary'' [Read] Low no_opts]"

definition byId :: "(string, capability) jmap" where
  "byId = foldl (\<lambda>m c. jset (cap_id c) c m) [] CAPABILITIES"

definition getCapability :: "string \<Rightarrow> capability option" where
  "getCapability cid = jget byId cid"

definition capabilityExists :: "string \<Rightarrow> bool" where
  "capabilityExists cid \<longleftrightarrow> getCapability cid \<noteq> None"

definition NON_VALUE_HOLDING_ROLES :: "string list" where
  "NON_VALUE_HOLDING_ROLES =
     [''AXStaticText'', ''AXImage'', ''AXGroup'', ''AXLink'', ''AXButton'', ''AXMenuItem'',
      ''AXList'', ''AXTable'', ''AXRow'', ''AXColumn'', ''AXWebArea'', ''AXWindow'', ''AXHeading'',
      ''row'', ''grid'', ''table'', ''button'', ''link'']"

definition EDITABLE_VALUE_ROLES :: "string list" where
  "EDITABLE_VALUE_ROLES =
     [''AXTextField'', ''AXTextArea'', ''AXComboBox'', ''AXCheckBox'', ''AXRadioButton'',
      ''AXPopUpButton'', ''AXCell'', ''textbox'', ''textarea'', ''input'', ''field'',
      ''searchbox'', ''combobox'', ''checkbox'', ''cell'']"

definition token_table :: "(string \<times> string list) list" where
  "token_table = [
     (''crm/record_opened'', [''salesforce.get_record'']),
     (''crm/record_updated'', [''salesforce.propose_field_updates'', ''salesforce.update_fields'']),
     (''crm/value_committed'', [''salesforce.propose_field_updates'', ''salesforce.update_fields'']),
     (''crm/table_read'', [''salesforce.query_records'']),
     (''crm/element_activated'', [''salesforce.query_records'']),
     (''crm/element_focused'', [''salesforce.get_record'']),
     (''crm/copy_semantic'', [''salesforce.get_record'']),
     (''crm/navigation'', [''salesforce.query_records'']),
     (''spreadsheet/table_read'', [''google_sheets.read_range'', ''local.parse_csv'']),
     (''spreadsheet/value_committed'', [''local.transform_columns'']),
     (''spreadsheet/paste_semantic'', [''google_sheets.propose_write_range'']),
     (''spreadsheet/table_exported'', [''local.generate_csv'']),
     (''spreadsheet/navigation'', [''google_sheets.read_range'']),
     (''spreadsheet/element_focused'', [''google_sheets.read_range'']),
     (''email/navigation'', [''gmail.search_metadata'']),
     (''email/record_opened'', [''gmail.get_thread_metadata'']),
     (''calendar/navigation'', [''google_calendar.list_events'']),
     (''browser/table_read'', [''browser.extract_table'']),
     (''browser/record_opened'', [''browser.extract_structured_fields'']),
     (''browser/element_focused'', [''browser.extract_structured_fields'']),
     (''browser/value_committed'', [''browser.propose_form_fill'', ''browser.supervised_form_fill''])]"

text \<open>A missing part of the token is \<open>undefined\<close>, which interpolates as its name.\<close>

definition show_part :: "string option \<Rightarrow> string" where
  "show_part p = or_else p ''undefined''"

definition capabilitiesForToken :: "string \<Rightarrow> string list" where
  "capabilitiesForToken token =
     (let parts = js_split (CHR '':'') token;
          appCategory = nth_opt parts 1; eventType = nth_opt parts 2; targetRole = nth_opt parts 3
      in if appCategory = Some ''browser'' \<and> eventType = Some ''value_committed''
            \<and> (case targetRole of None \<Rightarrow> False | Some r \<Rightarrow> r \<in> set NON_VALUE_HOLDING_ROLES)
         then [''browser.extract_structured_fields'']
         else or_else (map_of token_table (show_part appCategory @ ''/'' @ show_part eventType)) [])"

definition CONTEXT_EVENT_TYPES :: "string list" where
  "CONTEXT_EVENT_TYPES =
     [''app_activated'', ''window_focused'', ''idle_started'', ''idle_ended'', ''boundary_redacted'']"

section \<open>What the catalog promises\<close>

lemma foldl_jset_get:
  "jget (foldl (\<lambda>m c. jset (f c) c m) m0 cs) i = Some c \<Longrightarrow> c \<in> set cs \<and> f c = i \<or> jget m0 i = Some c"
proof (induction cs arbitrary: m0)
  case Nil
  then show ?case by simp
next
  case (Cons d cs)
  from Cons.IH [of "jset (f d) d m0"] Cons.prems show ?case
    by (auto simp: jm.lookup_insert split: if_splits)
qed

lemma getCapability_mem: "getCapability i = Some c \<Longrightarrow> c \<in> set CAPABILITIES \<and> cap_id c = i"
  unfolding getCapability_def byId_def
  by (drule foldl_jset_get) (simp add: jget_def)

definition catalog_entry_ok :: "capability \<Rightarrow> bool" where
  "catalog_entry_ok c \<longleftrightarrow>
     cap_version c = 1 \<and> cap_supported_modes c \<noteq> [] \<and> cap_risk_level c \<noteq> Prohibited
     \<and> (Write \<in> set (cap_supported_modes c) \<longrightarrow>
          ProposeWrite \<in> set (cap_supported_modes c)
          \<and> (cap_risk_level c = Medium \<or> cap_risk_level c = High))
     \<and> (\<not> cap_reversible c \<longrightarrow> cap_risk_level c = High)"

lemma catalog_entries_ok_all: "list_all catalog_entry_ok CAPABILITIES"
  by (simp add: CAPABILITIES_def cap_def catalog_entry_ok_def no_opts_def or_else_def)

lemma catalog_entries_ok: "c \<in> set CAPABILITIES \<Longrightarrow> catalog_entry_ok c"
  using catalog_entries_ok_all by (simp add: list_all_iff)

lemma getCapability_ok: "getCapability i = Some c \<Longrightarrow> catalog_entry_ok c"
  using getCapability_mem catalog_entries_ok by blast

lemma catalog_writes_not_low:
  "getCapability i = Some c \<Longrightarrow> Write \<in> set (cap_supported_modes c) \<Longrightarrow>
     cap_risk_level c = Medium \<or> cap_risk_level c = High"
  by (drule getCapability_ok) (auto simp: catalog_entry_ok_def)

lemma catalog_not_prohibited: "getCapability i = Some c \<Longrightarrow> cap_risk_level c \<noteq> Prohibited"
  by (drule getCapability_ok) (auto simp: catalog_entry_ok_def)

definition read_or_propose :: "string \<Rightarrow> bool" where
  "read_or_propose i = (case getCapability i of None \<Rightarrow> False
     | Some c \<Rightarrow> cap_risk_level c = Low \<and> Write \<notin> set (cap_supported_modes c))"

definition token_row_ok :: "string list \<Rightarrow> bool" where
  "token_row_ok cs = (case cs of [] \<Rightarrow> False
     | c # _ \<Rightarrow> read_or_propose c \<and> list_all capabilityExists cs)"

definition catalog_ids :: "string list" where
  "catalog_ids = map cap_id CAPABILITIES"

definition low_ids :: "string list" where
  "low_ids = map cap_id (filter (\<lambda>c. cap_risk_level c = Low \<and> Write \<notin> set (cap_supported_modes c)) CAPABILITIES)"

lemma catalog_ids_eq [simp]: "catalog_ids =
     [''salesforce.query_records'', ''salesforce.get_record'', ''salesforce.compare_records'',
      ''salesforce.propose_upsert'', ''salesforce.upsert_records'',
      ''salesforce.propose_field_updates'', ''salesforce.update_fields'',
      ''google_sheets.read_range'', ''google_sheets.compare_rows'',
      ''google_sheets.propose_write_range'', ''google_sheets.write_range'',
      ''google_sheets.append_rows'', ''gmail.search_metadata'', ''gmail.get_thread_metadata'',
      ''gmail.create_draft'', ''gmail.update_draft'', ''google_calendar.list_events'',
      ''google_calendar.find_open_slots'', ''google_calendar.create_event_draft'',
      ''browser.extract_table'', ''browser.extract_structured_fields'',
      ''browser.propose_form_fill'', ''browser.press_control'', ''browser.supervised_form_fill'',
      ''local.parse_csv'', ''local.match_records'', ''local.deduplicate_records'',
      ''local.transform_columns'', ''local.generate_csv'', ''local.generate_summary'']"
  by (simp add: catalog_ids_def CAPABILITIES_def cap_def)

lemma low_ids_eq [simp]: "low_ids =
     [''salesforce.query_records'', ''salesforce.get_record'', ''salesforce.compare_records'',
      ''salesforce.propose_upsert'', ''salesforce.propose_field_updates'',
      ''google_sheets.read_range'', ''google_sheets.compare_rows'',
      ''google_sheets.propose_write_range'', ''gmail.search_metadata'',
      ''gmail.get_thread_metadata'', ''google_calendar.list_events'',
      ''google_calendar.find_open_slots'', ''browser.extract_table'',
      ''browser.extract_structured_fields'', ''browser.propose_form_fill'', ''local.parse_csv'',
      ''local.match_records'', ''local.deduplicate_records'', ''local.transform_columns'',
      ''local.generate_csv'', ''local.generate_summary'']"
  by (simp add: low_ids_def CAPABILITIES_def cap_def)

lemma distinct_catalog_ids: "distinct catalog_ids"
  by simp

lemma byId_eq: "byId = map (\<lambda>c. (cap_id c, c)) CAPABILITIES"
  by (simp add: byId_def CAPABILITIES_def cap_def jset_def)

lemma getCapability_find: "getCapability i = find (\<lambda>c. cap_id c = i) CAPABILITIES"
proof -
  have "map_of (map (\<lambda>c. (cap_id c, c)) cs) i = find (\<lambda>c. cap_id c = i) cs" for cs
    by (induction cs) auto
  then show ?thesis by (simp add: getCapability_def byId_eq jget_def)
qed

lemma getCapability_of_mem: "c \<in> set CAPABILITIES \<Longrightarrow> getCapability (cap_id c) = Some c"
  using distinct_catalog_ids
  by (simp add: getCapability_def byId_eq jget_def catalog_ids_def comp_def del: catalog_ids_eq)

lemma capabilityExists_iff: "capabilityExists i \<longleftrightarrow> i \<in> set catalog_ids"
  using getCapability_mem getCapability_of_mem
  by (fastforce simp: capabilityExists_def catalog_ids_def simp del: catalog_ids_eq)

lemma low_ids_read: "i \<in> set low_ids \<Longrightarrow> read_or_propose i"
  using getCapability_of_mem by (auto simp: low_ids_def read_or_propose_def simp del: low_ids_eq)

lemma token_table_ok: "list_all (\<lambda>(k, cs). token_row_ok cs) token_table"
  unfolding token_table_def
  by (simp add: token_row_ok_def capabilityExists_iff low_ids_read)

lemma extract_ok: "token_row_ok [''browser.extract_structured_fields'']"
  by (simp add: token_row_ok_def capabilityExists_iff low_ids_read)

lemma capabilitiesForToken_row: "capabilitiesForToken token \<noteq> [] \<Longrightarrow> token_row_ok (capabilitiesForToken token)"
  using token_table_ok
  by (auto simp: capabilitiesForToken_def Let_def or_else_def extract_ok list_all_iff
      dest!: map_of_SomeD split: option.splits if_splits)

end
