(* ===== verification/Policy_Engine.thy ===== *)
theory Policy_Engine
  imports Capability_Catalog
begin

text \<open>
  The deterministic policy engine, \<open>packages/policy-engine/src\<close>: risk classification
  (\<open>risk.ts\<close>), the organization policy (\<open>org-policy.ts\<close>) and the evaluation of a step and of
  a whole specification (\<open>evaluate.ts\<close>). A decision carries machine-readable reasons; the text
  of a reason is a message constructor holding the values the template interpolates.
  Risk levels are ordered as the source's \<open>ORDER\<close> array orders them, which makes them a
  \<open>linorder\<close>.
\<close>

section \<open>Orders of the engine\<close>

definition ORDER :: "risk_level list" where
  "ORDER = [Low, Medium, High, Prohibited]"

fun js_indexOf :: "'a list \<Rightarrow> 'a \<Rightarrow> int" where
  "js_indexOf [] x = -1"
| "js_indexOf (y # ys) x = (if y = x then 0 else (let i = js_indexOf ys x in if i < 0 then -1 else i + 1))"

definition escalate :: "risk_level \<Rightarrow> risk_level \<Rightarrow> risk_level" where
  "escalate current target = (if js_indexOf ORDER target > js_indexOf ORDER current then target else current)"

instantiation risk_level :: linorder
begin

definition less_eq_risk_level :: "risk_level \<Rightarrow> risk_level \<Rightarrow> bool" where
  "less_eq_risk_level a b \<longleftrightarrow> js_indexOf ORDER a \<le> js_indexOf ORDER b"

definition less_risk_level :: "risk_level \<Rightarrow> risk_level \<Rightarrow> bool" where
  "less_risk_level a b \<longleftrightarrow> js_indexOf ORDER a < js_indexOf ORDER b"

instance
proof
  fix x y z :: risk_level
  show "(x < y) = (x \<le> y \<and> \<not> y \<le> x)"
    by (auto simp: less_eq_risk_level_def less_risk_level_def)
  show "x \<le> x" by (simp add: less_eq_risk_level_def)
  show "x \<le> z" if "x \<le> y" "y \<le> z" using that by (simp add: less_eq_risk_level_def)
  show "x = y" if "x \<le> y" "y \<le> x"
    using that by (cases x; cases y) (simp_all add: less_eq_risk_level_def ORDER_def)
  show "x \<le> y \<or> y \<le> x" by (auto simp: less_eq_risk_level_def)
qed

end

text \<open>
  Choosing the stricter of two levels, as \<open>escalate\<close> does for risks and \<open>lowerCeiling\<close> for
  autonomy: the choice is one of the two, and never ranks below either.
\<close>

locale strictest =
  fixes pick :: "'a \<Rightarrow> 'a \<Rightarrow> 'a" and rank :: "'a \<Rightarrow> int"
  assumes pick_either: "pick a b = a \<or> pick a b = b"
    and rank_pick: "rank (pick a b) = max (rank a) (rank b)"
    and rank_inj: "rank a = rank b \<Longrightarrow> a = b"
begin

lemma pick_comm: "pick a b = pick b a"
  by (rule rank_inj) (simp add: rank_pick max.commute)

lemma pick_assoc: "pick (pick a b) c = pick a (pick b c)"
  by (rule rank_inj) (simp add: rank_pick max.assoc)

lemma pick_idem: "pick a a = a"
  using pick_either [of a a] by blast

lemma pick_absorb: "pick a (pick a b) = pick a b"
  by (rule rank_inj) (simp add: rank_pick)

lemma pick_ge: "rank a \<le> rank (pick a b)" "rank b \<le> rank (pick a b)"
  by (simp_all add: rank_pick)

lemma foldl_pick_ge: "rank a \<le> rank (foldl pick a bs)"
  using pick_ge(1) order_trans by (induction bs arbitrary: a) (simp, fastforce)

end

interpretation risk_pick: strictest escalate "js_indexOf ORDER"
proof unfold_locales
  fix a b :: risk_level
  show "escalate a b = a \<or> escalate a b = b" by (simp add: escalate_def)
  show "js_indexOf ORDER (escalate a b) = max (js_indexOf ORDER a) (js_indexOf ORDER b)"
    by (simp add: escalate_def)
  show "a = b" if "js_indexOf ORDER a = js_indexOf ORDER b"
    using that by (cases a; cases b) (simp_all add: ORDER_def)
qed

lemma escalate_max: "escalate a b = max a b"
  using risk_pick.pick_comm [of a b]
  by (auto simp: escalate_def max_def less_eq_risk_level_def)

section \<open>risk.ts\<close>

definition HIGH_RISK_CRM_FIELDS :: "string list" where
  "HIGH_RISK_CRM_FIELDS = [''stagename'', ''stage'', ''ownerid'', ''owner'', ''amount'',
     ''forecastcategory'', ''forecast_category'', ''hasoptedoutofemail'', ''consent'', ''donotcall'']"

definition PROHIBITED_OPERATIONS :: "string list" where
  "PROHIBITED_OPERATIONS = [''delete'', ''payment'', ''purchase'', ''transfer'', ''credential'',
     ''permission_change'', ''provision'', ''deprovision'', ''send'', ''social_post'',
     ''legal_accept'', ''code_execution'', ''shell'', ''disable_security'']"

definition MAX_WRITE_RECORDS :: nat where "MAX_WRITE_RECORDS = 500"
definition MEDIUM_CRM_WRITE_LIMIT :: nat where "MEDIUM_CRM_WRITE_LIMIT = 20"

record step_risk_input =
  ri_capability_id :: string
  ri_mode :: step_mode
  ri_max_records_written :: "nat option"
  ri_updated_fields :: "string list option"
  ri_ui_only_write :: bool
  ri_customer_facing :: bool

definition classifyStepRisk :: "step_risk_input \<Rightarrow> risk_level" where
  "classifyStepRisk i =
     (if list_ex (\<lambda>verb. includes_str (js_lower (ri_capability_id i)) verb) PROHIBITED_OPERATIONS
      then Prohibited
      else (case getCapability (ri_capability_id i) of
        None \<Rightarrow> Prohibited
      | Some capability \<Rightarrow>
          (let risk = cap_risk_level capability in
           if ri_mode i = Read then risk
           else (let records = or_else (ri_max_records_written i) 0 in
             if records > MAX_WRITE_RECORDS then Prohibited
             else (let isCrmWrite = (cap_connector capability = Salesforce \<and> ri_mode i = Write);
                       r1 = (if isCrmWrite \<and> records > MEDIUM_CRM_WRITE_LIMIT then escalate risk High else risk);
                       r2 = (if (case ri_updated_fields i of None \<Rightarrow> False
                                 | Some fs \<Rightarrow> list_ex (\<lambda>f. f \<in> set HIGH_RISK_CRM_FIELDS) fs)
                             then escalate r1 High else r1);
                       r3 = (if ri_ui_only_write i then escalate r2 High else r2)
                   in if ri_customer_facing i then escalate r3 High else r3)))))"

datatype approval_need = NoApproval | PerRun | Always | DeniedApproval

definition approvalRequirement :: "risk_level \<Rightarrow> step_mode \<Rightarrow> string \<Rightarrow> string list \<Rightarrow> approval_need" where
  "approvalRequirement risk mode capability_id unattended_medium_capabilities =
     (if risk = Prohibited then DeniedApproval
      else if mode = Read \<or> mode = ProposeWrite then NoApproval
      else if risk = High then Always
      else if risk = Medium then
        (if capability_id \<in> set unattended_medium_capabilities then NoApproval else PerRun)
      else NoApproval)"

section \<open>org-policy.ts\<close>

datatype capability_allowlist = CatalogAll | Explicit "(string \<times> nat) list"

record org_policy =
  op_enabled_connectors :: "connector list"
  op_allowed_capabilities :: capability_allowlist
  op_disabled_capabilities :: "string list"
  op_max_records_read :: nat
  op_max_records_written :: nat
  op_unattended_medium_capabilities :: "string list"
  op_max_run_cost_usd :: rat
  op_max_monthly_model_cost_usd :: rat
  op_allow_scheduled_supervised :: bool
  op_min_cohort_size :: nat
  op_allow_pattern_sharing :: bool
  op_local_retention_days :: nat
  op_allow_remote_model :: bool

definition org_policy_schema :: "org_policy \<Rightarrow> bool" where
  "org_policy_schema p \<longleftrightarrow>
     0 < op_max_records_read p \<and> op_max_records_read p \<le> 100000
     \<and> 0 < op_max_records_written p \<and> op_max_records_written p \<le> 500
     \<and> 0 < op_max_run_cost_usd p \<and> 0 < op_max_monthly_model_cost_usd p
     \<and> 5 \<le> op_min_cohort_size p
     \<and> 1 \<le> op_local_retention_days p \<and> op_local_retention_days p \<le> 90"

definition DEFAULT_ORG_POLICY :: org_policy where
  "DEFAULT_ORG_POLICY =
     \<lparr>op_enabled_connectors = [Salesforce, GoogleSheets, Gmail, GoogleCalendar, BrowserConn, LocalConn],
      op_allowed_capabilities = CatalogAll, op_disabled_capabilities = [],
      op_max_records_read = 10000, op_max_records_written = 500,
      op_unattended_medium_capabilities = [], op_max_run_cost_usd = 5,
      op_max_monthly_model_cost_usd = 250, op_allow_scheduled_supervised = False,
      op_min_cohort_size = 5, op_allow_pattern_sharing = True, op_local_retention_days = 30,
      op_allow_remote_model = True\<rparr>"

section \<open>evaluate.ts\<close>

datatype decision = Deny | RequireApproval | Allow

datatype policy_message =
    MUnknownCapability string
  | MNotAllowed string nat
  | MProhibited
  | MPermitted risk_level step_mode
  | MHighNeedsApproval
  | MMediumNeedsApproval
  | MAtStep string policy_message
  | MMustDeclareApproval string
  | MWriteBudget nat nat
  | MReadBudget nat nat
  | MCostBudget rat rat
  | MNoSchedule
  | MPausesForApproval
  | MReadOnlySpec

record policy_reason =
  pr_code :: string
  pr_message :: policy_message
  pr_rule_id :: string

record policy_limits =
  pl_max_records :: "nat option"
  pl_max_cost_usd :: "rat option"

record policy_decision =
  pd_decision :: decision
  pd_policy_version_id :: string
  pd_evaluated_at :: string
  pd_reasons :: "policy_reason list"
  pd_limits :: policy_limits

record evaluation_context =
  ec_policy_version_id :: string
  ec_evaluated_at :: string

definition reason :: "string \<Rightarrow> policy_message \<Rightarrow> string \<Rightarrow> policy_reason" where
  "reason code message rule_id = \<lparr>pr_code = code, pr_message = message, pr_rule_id = rule_id\<rparr>"

definition decide :: "evaluation_context \<Rightarrow> decision \<Rightarrow> policy_reason list \<Rightarrow> policy_limits \<Rightarrow> policy_decision" where
  "decide ctx d reasons limits =
     \<lparr>pd_decision = d, pd_policy_version_id = ec_policy_version_id ctx,
      pd_evaluated_at = ec_evaluated_at ctx, pd_reasons = reasons, pd_limits = limits\<rparr>"

definition no_limits :: policy_limits where
  "no_limits = \<lparr>pl_max_records = None, pl_max_cost_usd = None\<rparr>"

definition org_limits :: "org_policy \<Rightarrow> policy_limits" where
  "org_limits p = \<lparr>pl_max_records = Some (op_max_records_written p),
     pl_max_cost_usd = Some (op_max_run_cost_usd p)\<rparr>"

definition capabilityAllowed :: "org_policy \<Rightarrow> string \<Rightarrow> nat \<Rightarrow> bool" where
  "capabilityAllowed policy capabilityId version =
     (if capabilityId \<in> set (op_disabled_capabilities policy) then False
      else (case getCapability capabilityId of
        None \<Rightarrow> False
      | Some capability \<Rightarrow>
          if cap_connector capability \<notin> set (op_enabled_connectors policy) then False
          else (case op_allowed_capabilities policy of
            CatalogAll \<Rightarrow> cap_version capability = version
          | Explicit cs \<Rightarrow> list_ex (\<lambda>(cid, v). cid = capabilityId \<and> v = version) cs)))"

definition effectiveStepRisk :: "agent_step \<Rightarrow> agent_spec \<Rightarrow> risk_level" where
  "effectiveStepRisk step spec = classifyStepRisk
     \<lparr>ri_capability_id = st_capability_id step, ri_mode = st_mode step,
      ri_max_records_written = Some (bg_max_records_written (sp_budgets spec)),
      ri_updated_fields = Some (map (\<lambda>(k, _). js_lower k) (st_inputs step)),
      ri_ui_only_write = (st_capability_id step = ''browser.supervised_form_fill'' \<and> st_mode step = Write),
      ri_customer_facing = False\<rparr>"

definition step_denials :: "agent_spec \<Rightarrow> agent_step \<Rightarrow> org_policy \<Rightarrow> policy_reason list" where
  "step_denials spec step policy =
     (if \<not> capabilityExists (st_capability_id step)
      then [reason ''unknown_capability'' (MUnknownCapability (st_capability_id step)) ''P-CAP-1'']
      else if \<not> capabilityAllowed policy (st_capability_id step) (st_capability_version step)
      then [reason ''capability_disabled''
              (MNotAllowed (st_capability_id step) (st_capability_version step)) ''P-CAP-2'']
      else [])
     @ (if effectiveStepRisk step spec = Prohibited
        then [reason ''prohibited_risk'' MProhibited ''P-RISK-1''] else [])"

definition evaluateStep :: "agent_spec \<Rightarrow> agent_step \<Rightarrow> org_policy \<Rightarrow> evaluation_context \<Rightarrow> policy_decision" where
  "evaluateStep spec step policy ctx =
     (let reasons = step_denials spec step policy; risk = effectiveStepRisk step spec in
      if reasons \<noteq> [] then decide ctx Deny reasons no_limits
      else (let requirement = approvalRequirement risk (st_mode step) (st_capability_id step)
                  (op_unattended_medium_capabilities policy)
            in if requirement = NoApproval
               then decide ctx Allow [reason ''allowed'' (MPermitted risk (st_mode step)) ''P-ALLOW-1'']
                      (org_limits policy)
               else decide ctx RequireApproval
                      [if requirement = Always
                       then reason ''high_risk_approval'' MHighNeedsApproval ''P-APPR-2''
                       else reason ''medium_write_approval'' MMediumNeedsApproval ''P-APPR-1'']
                      (org_limits policy)))"

definition spec_step_reasons :: "agent_spec \<Rightarrow> org_policy \<Rightarrow> evaluation_context \<Rightarrow> agent_step \<Rightarrow> policy_reason list" where
  "spec_step_reasons spec policy ctx step =
     (let stepDecision = evaluateStep spec step policy ctx in
        if pd_decision stepDecision = Deny
        then map (\<lambda>r. r\<lparr>pr_message := MAtStep (st_id step) (pr_message r)\<rparr>) (pd_reasons stepDecision)
        else [])
     @ (if effectiveStepRisk step spec = High \<and> \<not> ap_required (st_approval step)
        then [reason ''high_risk_missing_approval'' (MMustDeclareApproval (st_id step)) ''P-APPR-3'']
        else [])"

definition is_schedule :: "agent_trigger \<Rightarrow> bool" where
  "is_schedule t = (case t of TSchedule _ _ \<Rightarrow> True | _ \<Rightarrow> False)"

definition spec_budget_reasons :: "agent_spec \<Rightarrow> org_policy \<Rightarrow> policy_reason list" where
  "spec_budget_reasons spec policy =
     (let b = sp_budgets spec in
     (if bg_max_records_written b > op_max_records_written policy
      then [reason ''write_budget_exceeded''
              (MWriteBudget (bg_max_records_written b) (op_max_records_written policy)) ''P-BUDGET-1'']
      else [])
     @ (if bg_max_records_read b > op_max_records_read policy
        then [reason ''read_budget_exceeded''
                (MReadBudget (bg_max_records_read b) (op_max_records_read policy)) ''P-BUDGET-2'']
        else [])
     @ (if bg_max_cost_usd b > op_max_run_cost_usd policy
        then [reason ''cost_budget_exceeded''
                (MCostBudget (bg_max_cost_usd b) (op_max_run_cost_usd policy)) ''P-BUDGET-3'']
        else [])
     @ (if is_schedule (sp_trigger spec) \<and> \<not> op_allow_scheduled_supervised policy
        then [reason ''schedule_not_allowed'' MNoSchedule ''P-SCHED-1''] else []))"

definition evaluateSpec :: "agent_spec \<Rightarrow> org_policy \<Rightarrow> evaluation_context \<Rightarrow> policy_decision" where
  "evaluateSpec spec policy ctx =
     (let reasons = concat (map (spec_step_reasons spec policy ctx) (sp_steps spec))
            @ spec_budget_reasons spec policy
      in if reasons \<noteq> [] then decide ctx Deny reasons no_limits
         else (let needsApproval = list_ex (\<lambda>step.
                     pd_decision (evaluateStep spec step policy ctx) = RequireApproval) (sp_steps spec)
               in decide ctx (if needsApproval then RequireApproval else Allow)
                    [if needsApproval
                     then reason ''spec_requires_approvals'' MPausesForApproval ''P-SPEC-1''
                     else reason ''spec_allowed'' MReadOnlySpec ''P-SPEC-1'']
                    \<lparr>pl_max_records = Some (op_max_records_written policy),
                     pl_max_cost_usd = Some (min (bg_max_cost_usd (sp_budgets spec))
                                                 (op_max_run_cost_usd policy))\<rparr>))"

section \<open>Component lemmas\<close>

lemmas decision_defs = decide_def reason_def org_limits_def no_limits_def

lemma pd_decide [simp]: "pd_decision (decide ctx d rs l) = d" "pd_reasons (decide ctx d rs l) = rs"
    "pd_limits (decide ctx d rs l) = l"
  by (simp_all add: decide_def)

lemma classify_catalog:
  "classifyStepRisk i \<noteq> Prohibited \<Longrightarrow>
     \<exists>c. getCapability (ri_capability_id i) = Some c \<and> cap_risk_level c \<le> classifyStepRisk i"
  by (auto simp: classifyStepRisk_def Let_def escalate_max split: if_splits option.splits)

lemma risk_le_simps [simp]: "Low \<le> r" "r \<le> Prohibited" "Medium \<le> High"
    "(High \<le> r) = (r = High \<or> r = Prohibited)"
  by (cases r; simp add: less_eq_risk_level_def ORDER_def)+

lemma step_denials_Nil_iff:
  "step_denials spec step policy = [] \<longleftrightarrow>
     capabilityExists (st_capability_id step)
     \<and> capabilityAllowed policy (st_capability_id step) (st_capability_version step)
     \<and> effectiveStepRisk step spec \<noteq> Prohibited"
  by (auto simp: step_denials_def)

lemma evaluateStep_decision:
  "pd_decision (evaluateStep spec step policy ctx) =
     (if step_denials spec step policy \<noteq> [] then Deny
      else if approvalRequirement (effectiveStepRisk step spec) (st_mode step) (st_capability_id step)
                (op_unattended_medium_capabilities policy) = NoApproval then Allow
      else RequireApproval)"
  by (simp add: evaluateStep_def Let_def)

lemma spec_step_reasons_Nil_iff:
  "spec_step_reasons spec policy ctx step = [] \<longleftrightarrow>
     step_denials spec step policy = []
     \<and> (effectiveStepRisk step spec = High \<longrightarrow> ap_required (st_approval step))"
  by (auto simp: spec_step_reasons_def Let_def evaluateStep_def)

lemma evaluateSpec_decision:
  "pd_decision (evaluateSpec spec policy ctx) =
     (if (\<exists>step \<in> set (sp_steps spec). spec_step_reasons spec policy ctx step \<noteq> [])
         \<or> spec_budget_reasons spec policy \<noteq> [] then Deny
      else if \<exists>step \<in> set (sp_steps spec).
           pd_decision (evaluateStep spec step policy ctx) = RequireApproval then RequireApproval
      else Allow)"
  by (auto simp: evaluateSpec_def Let_def list_ex_iff)

end
