(* ===== verification/Fixtures.thy ===== *)
theory Fixtures
  imports Policy_Engine
begin

text \<open>
  Concrete specifications the witnesses run on: the three-step reconciliation (read a range,
  propose field updates, write them) and the evaluated facts about its steps.
\<close>

definition no_retry :: step_retry where
  "no_retry = \<lparr>rt_allowed = False, rt_max_attempts = 0, rt_backoff_seconds = []\<rparr>"

definition mk_step :: "string \<Rightarrow> nat \<Rightarrow> string \<Rightarrow> step_mode \<Rightarrow> (string \<times> step_binding) list \<Rightarrow> string
    \<Rightarrow> risk_level \<Rightarrow> bool \<Rightarrow> agent_step" where
  "mk_step sid ord c m ins out risk needs =
     \<lparr>st_id = sid, st_order = ord, st_name = sid, st_capability_id = c, st_capability_version = 1,
      st_mode = m, st_inputs = ins, st_output_key = out, st_risk_level = risk,
      st_approval = \<lparr>ap_required = needs, ap_reason = None\<rparr>, st_retry = no_retry\<rparr>"

definition fx_read :: agent_step where
  "fx_read = mk_step ''s1'' 1 ''google_sheets.read_range'' Read [] ''rows'' Low False"

definition fx_propose :: agent_step where
  "fx_propose = mk_step ''s2'' 2 ''salesforce.propose_field_updates'' ProposeWrite
     [(''matches'', BStepOutput ''rows'')] ''diff'' Low False"

definition fx_write :: "bool \<Rightarrow> agent_step" where
  "fx_write needs = mk_step ''s3'' 3 ''salesforce.update_fields'' Write
     [(''proposal'', BStepOutput ''diff'')] ''applied'' Medium needs"

definition fx_spec :: "agent_step list \<Rightarrow> agent_spec" where
  "fx_spec steps =
     \<lparr>sp_agent_id = ''agent-1'', sp_version_id = ''version-1'', sp_organization_id = ''org-1'',
      sp_owner_user_id = ''user-1'', sp_name = ''Reconcile'', sp_description = [],
      sp_generalized_intent = [], sp_source_pattern_id = ''pattern-1'', sp_source_trace_id = None,
      sp_compiler = None, sp_compiler_version = None, sp_state = Draft, sp_trigger = TManual,
      sp_inputs = [], sp_steps = steps, sp_assertions = [],
      sp_budgets = \<lparr>bg_max_runtime_seconds = 600, bg_max_model_tokens = 0, bg_max_cost_usd = 1,
        bg_max_records_read = 100, bg_max_records_written = 10\<rparr>,
      sp_failure_policy = \<lparr>fp_on_tool_failure = StopOnFailure, fp_max_safe_retries = 0,
        fp_approval_timeout_minutes = 60\<rparr>,
      sp_created_at = 0, sp_created_by = ByCompiler\<rparr>"

definition fx_ctx :: evaluation_context where
  "fx_ctx = \<lparr>ec_policy_version_id = ''pv-1'', ec_evaluated_at = ''t0''\<rparr>"

lemmas fx_step_defs = fx_read_def fx_propose_def fx_write_def mk_step_def no_retry_def
lemmas fx_defs = fx_step_defs fx_spec_def fx_ctx_def

lemma cap_id_cap: "cap_id (cap i con n ms r opts) = i"
  by (simp add: cap_def)

lemma fx_caps_mem:
  "cap ''google_sheets.read_range'' GoogleSheets ''Read a Sheets range'' [Read] Low
     (no_opts\<lparr>co_scopes := Some [''spreadsheets.readonly'']\<rparr>) \<in> set CAPABILITIES"
  "cap ''salesforce.propose_field_updates'' Salesforce ''Propose Salesforce field updates''
     [ProposeWrite] Low no_opts \<in> set CAPABILITIES"
  "cap ''salesforce.update_fields'' Salesforce ''Update Salesforce fields''
     [ProposeWrite, Write] Medium
     (no_opts\<lparr>co_scopes := Some [''api''], co_retry := Some RetryConditional\<rparr>) \<in> set CAPABILITIES"
  unfolding CAPABILITIES_def list.set insert_iff by (simp_all only: simp_thms)

lemma fx_caps:
  "getCapability ''google_sheets.read_range'' =
     Some (cap ''google_sheets.read_range'' GoogleSheets ''Read a Sheets range'' [Read] Low
            (no_opts\<lparr>co_scopes := Some [''spreadsheets.readonly'']\<rparr>))"
  "getCapability ''salesforce.propose_field_updates'' =
     Some (cap ''salesforce.propose_field_updates'' Salesforce ''Propose Salesforce field updates''
            [ProposeWrite] Low no_opts)"
  "getCapability ''salesforce.update_fields'' =
     Some (cap ''salesforce.update_fields'' Salesforce ''Update Salesforce fields''
            [ProposeWrite, Write] Medium
            (no_opts\<lparr>co_scopes := Some [''api''], co_retry := Some RetryConditional\<rparr>))"
  using fx_caps_mem [THEN getCapability_of_mem] by (simp_all only: cap_id_cap)

lemma fx_no_verbs:
  "\<not> list_ex (\<lambda>verb. includes_str (js_lower ''google_sheets.read_range'') verb) PROHIBITED_OPERATIONS"
  "\<not> list_ex (\<lambda>verb. includes_str (js_lower ''salesforce.propose_field_updates'') verb) PROHIBITED_OPERATIONS"
  "\<not> list_ex (\<lambda>verb. includes_str (js_lower ''salesforce.update_fields'') verb) PROHIBITED_OPERATIONS"
  by code_simp+

lemma fx_fields:
  "js_lower ''matches'' = ''matches''" "js_lower ''proposal'' = ''proposal''"
  "js_lower ''amount'' = ''amount''"
  by code_simp+

lemma fx_risks [simp]:
  "effectiveStepRisk fx_read (fx_spec ss) = Low"
  "effectiveStepRisk fx_propose (fx_spec ss) = Low"
  "effectiveStepRisk (fx_write b) (fx_spec ss) = Medium"
  unfolding effectiveStepRisk_def classifyStepRisk_def fx_step_defs fx_spec_def
  by (simp_all add: fx_caps fx_no_verbs fx_fields, simp_all add: fx_fields cap_def or_else_def Let_def
      MAX_WRITE_RECORDS_def MEDIUM_CRM_WRITE_LIMIT_def HIGH_RISK_CRM_FIELDS_def)

lemma fx_allowed [simp]:
  "step_denials (fx_spec ss) fx_read DEFAULT_ORG_POLICY = []"
  "step_denials (fx_spec ss) fx_propose DEFAULT_ORG_POLICY = []"
  "step_denials (fx_spec ss) (fx_write b) DEFAULT_ORG_POLICY = []"
  by (simp_all add: step_denials_Nil_iff)
    (simp_all add: fx_step_defs capabilityExists_def capabilityAllowed_def fx_caps
      DEFAULT_ORG_POLICY_def cap_def)

lemma fx_decisions [simp]:
  "pd_decision (evaluateStep (fx_spec ss) fx_read DEFAULT_ORG_POLICY ctx) = Allow"
  "pd_decision (evaluateStep (fx_spec ss) fx_propose DEFAULT_ORG_POLICY ctx) = Allow"
  "pd_decision (evaluateStep (fx_spec ss) (fx_write b) DEFAULT_ORG_POLICY ctx) = RequireApproval"
  by (simp_all add: evaluateStep_decision)
    (simp_all add: approvalRequirement_def fx_step_defs DEFAULT_ORG_POLICY_def)

lemma fx_budget [simp]: "spec_budget_reasons (fx_spec ss) DEFAULT_ORG_POLICY = []"
  by (simp add: spec_budget_reasons_def fx_spec_def DEFAULT_ORG_POLICY_def is_schedule_def)

lemma fx_spec_steps [simp]: "sp_steps (fx_spec ss) = ss"
  by (simp add: fx_spec_def)

end
