(* ===== verification/Policy_Properties.thy ===== *)
theory Policy_Properties
  imports Fixtures
begin

text \<open>
  What the policy engine guarantees: an allowed step is permitted by every rule, a high-risk
  write is never unattended, risk is never lowered below the catalog's, a whole specification
  is denied exactly when one rule fails, and tightening the organization policy never loosens a
  decision.
\<close>

definition decision_rank :: "decision \<Rightarrow> nat" where
  "decision_rank d = (case d of Deny \<Rightarrow> 0 | RequireApproval \<Rightarrow> 1 | Allow \<Rightarrow> 2)"

definition stricter_policy :: "org_policy \<Rightarrow> org_policy \<Rightarrow> bool" where
  "stricter_policy p q \<longleftrightarrow>
     (\<forall>i v. capabilityAllowed p i v \<longrightarrow> capabilityAllowed q i v)
     \<and> set (op_unattended_medium_capabilities p) \<subseteq> set (op_unattended_medium_capabilities q)
     \<and> op_max_records_read p \<le> op_max_records_read q
     \<and> op_max_records_written p \<le> op_max_records_written q
     \<and> op_max_run_cost_usd p \<le> op_max_run_cost_usd q
     \<and> (op_allow_scheduled_supervised p \<longrightarrow> op_allow_scheduled_supervised q)"

lemma stricter_capabilities:
  assumes "set (op_enabled_connectors p) \<subseteq> set (op_enabled_connectors q)"
    and "set (op_disabled_capabilities q) \<subseteq> set (op_disabled_capabilities p)"
    and "op_allowed_capabilities p = op_allowed_capabilities q"
  shows "capabilityAllowed p i v \<Longrightarrow> capabilityAllowed q i v"
  using assms by (auto simp: capabilityAllowed_def split: if_splits option.splits capability_allowlist.splits)

lemma stricter_denials:
  "stricter_policy p q \<Longrightarrow> step_denials spec step p = [] \<Longrightarrow> step_denials spec step q = []"
  by (auto simp: stricter_policy_def step_denials_Nil_iff)

lemma stricter_approval:
  "stricter_policy p q \<Longrightarrow>
     approvalRequirement r m i (op_unattended_medium_capabilities p) = NoApproval \<Longrightarrow>
     approvalRequirement r m i (op_unattended_medium_capabilities q) = NoApproval"
  by (auto simp: stricter_policy_def approvalRequirement_def split: if_splits)

lemma stricter_step:
  "stricter_policy p q \<Longrightarrow>
     decision_rank (pd_decision (evaluateStep spec step p ctx))
       \<le> decision_rank (pd_decision (evaluateStep spec step q ctx))"
  using stricter_denials stricter_approval
  by (auto simp: evaluateStep_decision decision_rank_def)

lemma stricter_budget:
  "stricter_policy p q \<Longrightarrow> spec_budget_reasons spec p = [] \<Longrightarrow> spec_budget_reasons spec q = []"
  by (auto simp: stricter_policy_def spec_budget_reasons_def Let_def split: if_splits)

lemma stricter_step_reasons:
  "stricter_policy p q \<Longrightarrow> spec_step_reasons spec p ctx step = [] \<Longrightarrow>
     spec_step_reasons spec q ctx step = []"
  by (auto simp: spec_step_reasons_Nil_iff dest: stricter_denials)

lemma require_approval_step_stricter:
  assumes "stricter_policy p q" and "spec_step_reasons spec p ctx step = []"
    and "pd_decision (evaluateStep spec step q ctx) = RequireApproval"
  shows "pd_decision (evaluateStep spec step p ctx) = RequireApproval"
  using assms stricter_approval [OF assms(1)]
  by (auto simp: evaluateStep_decision spec_step_reasons_Nil_iff split: if_splits)

lemma evaluateStep_allowed:
  assumes "pd_decision (evaluateStep spec step policy ctx) = Allow"
  shows "\<exists>c. getCapability (st_capability_id step) = Some c
    \<and> st_capability_id step \<notin> set (op_disabled_capabilities policy)
    \<and> cap_connector c \<in> set (op_enabled_connectors policy)
    \<and> cap_risk_level c \<le> effectiveStepRisk step spec
    \<and> effectiveStepRisk step spec \<noteq> Prohibited
    \<and> (st_mode step = Write \<longrightarrow> effectiveStepRisk step spec = Low
         \<or> effectiveStepRisk step spec = Medium
           \<and> st_capability_id step \<in> set (op_unattended_medium_capabilities policy))"
proof -
  from assms have ok: "step_denials spec step policy = []"
    and appr: "approvalRequirement (effectiveStepRisk step spec) (st_mode step)
      (st_capability_id step) (op_unattended_medium_capabilities policy) = NoApproval"
    by (auto simp: evaluateStep_decision split: if_splits)
  from ok have risk: "effectiveStepRisk step spec \<noteq> Prohibited"
    and allowed: "capabilityAllowed policy (st_capability_id step) (st_capability_version step)"
    by (auto simp: step_denials_Nil_iff)
  from risk obtain c where c: "getCapability (st_capability_id step) = Some c"
      "cap_risk_level c \<le> effectiveStepRisk step spec"
    unfolding effectiveStepRisk_def by (auto dest!: classify_catalog)
  from allowed c have "st_capability_id step \<notin> set (op_disabled_capabilities policy)"
      "cap_connector c \<in> set (op_enabled_connectors policy)"
    by (auto simp: capabilityAllowed_def split: if_splits)
  moreover from appr risk have "st_mode step = Write \<longrightarrow> effectiveStepRisk step spec = Low
         \<or> effectiveStepRisk step spec = Medium
           \<and> st_capability_id step \<in> set (op_unattended_medium_capabilities policy)"
    by (cases "effectiveStepRisk step spec") (auto simp: approvalRequirement_def split: if_splits)
  ultimately show ?thesis using c risk by blast
qed

section \<open>Properties\<close>

text \<open>
  C5: A step the engine allows names a catalog capability whose connector is enabled and which is
  not disabled, its effective risk is neither prohibited nor below the catalog's level, and if it
  writes then it is low-risk, or medium-risk and on the organization's unattended list.
\<close>

theorem evaluateStep_allow_sound:
  assumes "pd_decision (evaluateStep spec step policy ctx) = Allow"
  shows "\<exists>c. getCapability (st_capability_id step) = Some c
    \<and> st_capability_id step \<notin> set (op_disabled_capabilities policy)
    \<and> cap_connector c \<in> set (op_enabled_connectors policy)
    \<and> cap_risk_level c \<le> effectiveStepRisk step spec
    \<and> effectiveStepRisk step spec \<noteq> Prohibited
    \<and> (st_mode step = Write \<longrightarrow> effectiveStepRisk step spec = Low
         \<or> effectiveStepRisk step spec = Medium
           \<and> st_capability_id step \<in> set (op_unattended_medium_capabilities policy))"
  by (rule evaluateStep_allowed [OF assms])

theorem evaluateStep_allow_sound_witness:
  "cap_risk_level (cap ''google_sheets.read_range'' GoogleSheets ''Read a Sheets range'' [Read] Low
     (no_opts\<lparr>co_scopes := Some [''spreadsheets.readonly'']\<rparr>)) \<le> effectiveStepRisk fx_read (fx_spec [fx_read])"
  using evaluateStep_allow_sound [of "fx_spec [fx_read]" fx_read DEFAULT_ORG_POLICY fx_ctx]
  by (simp add: cap_def)


definition fx_amount_write :: agent_step where
  "fx_amount_write = fx_write False\<lparr>st_inputs := [(''amount'', BStepOutput ''diff'')]\<rparr>"

lemma fx_amount_risk: "effectiveStepRisk fx_amount_write (fx_spec ss) = High"
  unfolding effectiveStepRisk_def classifyStepRisk_def fx_amount_write_def fx_step_defs fx_spec_def
  by (simp add: fx_caps fx_no_verbs fx_fields, simp add: fx_fields cap_def or_else_def Let_def
      MAX_WRITE_RECORDS_def MEDIUM_CRM_WRITE_LIMIT_def HIGH_RISK_CRM_FIELDS_def escalate_max max_def)


text \<open>
  C22: The effective risk of a step that may run at all is never lower than the catalog level of
  its capability: every rule only escalates. Reads stay exactly at the catalog level.
\<close>

theorem classifyStepRisk_never_deescalates:
  assumes "getCapability (ri_capability_id i) = Some c"
  shows "cap_risk_level c \<le> classifyStepRisk i
    \<and> (ri_mode i = Read \<and> classifyStepRisk i \<noteq> Prohibited \<longrightarrow> classifyStepRisk i = cap_risk_level c)"
  using assms
  by (auto simp: classifyStepRisk_def Let_def escalate_max)

definition fx_risk_input :: step_risk_input where
  "fx_risk_input = \<lparr>ri_capability_id = ''salesforce.update_fields'', ri_mode = Write,
     ri_max_records_written = Some 21, ri_updated_fields = None, ri_ui_only_write = False,
     ri_customer_facing = False\<rparr>"

theorem classifyStepRisk_never_deescalates_witness:
  "Medium \<le> classifyStepRisk fx_risk_input"
  using classifyStepRisk_never_deescalates [of fx_risk_input]
  by (simp add: fx_risk_input_def fx_caps) (simp add: cap_def)

text \<open>
  C6: A specification is denied exactly when some step is denied, some high-risk step declares no
  approval, a budget exceeds the organization's, or it is scheduled without permission; otherwise
  it needs approval exactly when one of its steps does.
\<close>

theorem evaluateSpec_exact:
  "pd_decision (evaluateSpec spec policy ctx) =
     (if (\<exists>step. step \<in> set (sp_steps spec)
            \<and> (pd_decision (evaluateStep spec step policy ctx) = Deny
               \<or> effectiveStepRisk step spec = High \<and> \<not> ap_required (st_approval step)))
         \<or> op_max_records_written policy < bg_max_records_written (sp_budgets spec)
         \<or> op_max_records_read policy < bg_max_records_read (sp_budgets spec)
         \<or> op_max_run_cost_usd policy < bg_max_cost_usd (sp_budgets spec)
         \<or> is_schedule (sp_trigger spec) \<and> \<not> op_allow_scheduled_supervised policy
      then Deny
      else if \<exists>step. step \<in> set (sp_steps spec)
             \<and> pd_decision (evaluateStep spec step policy ctx) = RequireApproval
      then RequireApproval else Allow)"
proof -
  have steps: "spec_step_reasons spec policy ctx step \<noteq> [] \<longleftrightarrow>
      pd_decision (evaluateStep spec step policy ctx) = Deny
      \<or> effectiveStepRisk step spec = High \<and> \<not> ap_required (st_approval step)" for step
    by (auto simp: spec_step_reasons_Nil_iff evaluateStep_decision)
  have budget: "spec_budget_reasons spec policy \<noteq> [] \<longleftrightarrow>
      op_max_records_written policy < bg_max_records_written (sp_budgets spec)
      \<or> op_max_records_read policy < bg_max_records_read (sp_budgets spec)
      \<or> op_max_run_cost_usd policy < bg_max_cost_usd (sp_budgets spec)
      \<or> is_schedule (sp_trigger spec) \<and> \<not> op_allow_scheduled_supervised policy"
    by (auto simp: spec_budget_reasons_def Let_def)
  show ?thesis unfolding evaluateSpec_decision steps budget Bex_def by (rule refl)
qed



text \<open>
  Every candidate list for a pattern token starts with a low-risk capability that cannot
  write, and names only capabilities of the catalog: what feasibility looks at first is a read or
  a proposal, never a write.
\<close>

theorem capabilitiesForToken_propose_first:
  assumes "capabilitiesForToken token = c # cs"
  shows "(\<exists>m. getCapability c = Some m \<and> cap_risk_level m = Low \<and> Write \<notin> set (cap_supported_modes m))
    \<and> list_all capabilityExists cs"
  using capabilitiesForToken_row [of token] assms
  by (auto simp: token_row_ok_def read_or_propose_def split: option.splits)

theorem capabilitiesForToken_propose_first_witness:
  "list_all capabilityExists [''browser.supervised_form_fill'']"
proof -
  have "capabilitiesForToken ''macos_ax:browser:value_committed:AXTextField:-:-''
      = [''browser.propose_form_fill'', ''browser.supervised_form_fill'']"
    by code_simp
  from capabilitiesForToken_propose_first [OF this] show ?thesis by blast
qed

end
