(* ===== verification/Js_Lists.thy ===== *)
theory Js_Lists
  imports Prelude "HOL-Library.Multiset"
begin

text \<open>
  List operations of the language that several components share: a stable comparator sort,
  \<open>entries()\<close>, truthiness of optional strings, and deduplication through a \<open>Set\<close>.
\<close>

section \<open>Array.prototype.sort\<close>

text \<open>
  \<open>sort\<close> is stable; for a comparator that is a consistent total preorder every stable sort
  returns the same list, so it is written as an insertion sort.
\<close>

fun insert_by :: "('a \<Rightarrow> 'a \<Rightarrow> int) \<Rightarrow> 'a \<Rightarrow> 'a list \<Rightarrow> 'a list" where
  "insert_by cmp x [] = [x]"
| "insert_by cmp x (y # ys) = (if cmp x y \<le> 0 then x # y # ys else y # insert_by cmp x ys)"

definition js_sort :: "('a \<Rightarrow> 'a \<Rightarrow> int) \<Rightarrow> 'a list \<Rightarrow> 'a list" where
  "js_sort cmp xs = foldr (insert_by cmp) xs []"

lemma mset_insert_by [simp]: "mset (insert_by cmp x ys) = add_mset x (mset ys)"
  by (induction ys) auto

lemma mset_js_sort [simp]: "mset (js_sort cmp xs) = mset xs"
  unfolding js_sort_def by (induction xs) auto

lemma set_js_sort [simp]: "set (js_sort cmp xs) = set xs"
  by (metis mset_js_sort set_mset_mset)

lemma length_js_sort [simp]: "length (js_sort cmp xs) = length xs"
  by (metis mset_js_sort size_mset)

locale comparator =
  fixes cmp :: "'a \<Rightarrow> 'a \<Rightarrow> int"
  assumes cmp_total: "cmp x y \<le> 0 \<or> cmp y x \<le> 0"
    and cmp_trans: "cmp x y \<le> 0 \<Longrightarrow> cmp y z \<le> 0 \<Longrightarrow> cmp x z \<le> 0"
begin

lemma sorted_insert_by:
  "sorted_wrt (\<lambda>x y. cmp x y \<le> 0) ys \<Longrightarrow> sorted_wrt (\<lambda>x y. cmp x y \<le> 0) (insert_by cmp x ys)"
proof (induction ys)
  case (Cons y ys)
  have set_ins: "set (insert_by cmp x ys) = insert x (set ys)"
    by (metis mset_insert_by set_mset_add_mset_insert set_mset_mset)
  with Cons show ?case
    using cmp_total [of x y] cmp_trans [of x y] by auto
qed simp

lemma sorted_js_sort: "sorted_wrt (\<lambda>x y. cmp x y \<le> 0) (js_sort cmp xs)"
  unfolding js_sort_def by (induction xs) (simp_all add: sorted_insert_by)

end

section \<open>entries() and truthiness\<close>

definition entries_of :: "'a list \<Rightarrow> (nat \<times> 'a) list" where
  "entries_of xs = List.enumerate 0 xs"

lemma snd_entries_of [simp]: "map snd (entries_of xs) = xs"
  by (simp add: entries_of_def)

lemma snd_set_entries_of [simp]: "snd ` set (entries_of xs) = set xs"
  by (metis list.set_map snd_entries_of)

text \<open>An optional string in a condition: absent and empty are both false.\<close>

definition truthy_str :: "string option \<Rightarrow> bool" where
  "truthy_str s = (case s of None \<Rightarrow> False | Some t \<Rightarrow> t \<noteq> [])"

lemma truthy_str_simps [simp]: "\<not> truthy_str None" "truthy_str (Some s) = (s \<noteq> [])"
  by (simp_all add: truthy_str_def)

definition or_nil :: "'a list option \<Rightarrow> 'a list" where
  "or_nil xs = (case xs of None \<Rightarrow> [] | Some ys \<Rightarrow> ys)"

lemma or_nil_simps [simp]: "or_nil None = []" "or_nil (Some xs) = xs"
  by (simp_all add: or_nil_def)

section \<open>Set, iterated in insertion order\<close>

definition js_set :: "'a list \<Rightarrow> 'a list" where
  "js_set xs = rev (remdups (rev xs))"

lemma set_js_set [simp]: "set (js_set xs) = set xs"
  by (simp add: js_set_def)

lemma distinct_js_set [simp]: "distinct (js_set xs)"
  by (simp add: js_set_def)

lemma length_js_set: "length (js_set xs) = card (set xs)"
  by (metis distinct_card distinct_js_set set_js_set)

lemma js_set_Nil_iff [simp]: "js_set xs = [] \<longleftrightarrow> xs = []"
  by (metis set_empty set_js_set)

lemma find_SomeD: "List.find P xs = Some x \<Longrightarrow> x \<in> set xs \<and> P x"
  by (induction xs) (auto split: if_splits)

section \<open>Folds that accumulate\<close>

text \<open>
  A loop over a list whose body may only set a flag: the flag after the loop holds when it held
  before it or some element sets it.
\<close>

lemma fold_flag:
  assumes "\<And>x v. flag (f x v) \<longleftrightarrow> flag v \<or> P x"
  shows "flag (fold f xs v) \<longleftrightarrow> flag v \<or> (\<exists>x \<in> set xs. P x)"
  by (induction xs arbitrary: v) (auto simp: assms)

text \<open>A loop whose body may only raise a bound: what bounds the result bounds every element.\<close>

lemma fold_bound:
  fixes rank :: "'s \<Rightarrow> int"
  assumes "\<And>x v. rank (f x v) \<le> n \<longleftrightarrow> rank v \<le> n \<and> B x n"
  shows "rank (fold f xs v) \<le> n \<longleftrightarrow> rank v \<le> n \<and> (\<forall>x \<in> set xs. B x n)"
  by (induction xs arbitrary: v) (auto simp: assms)

end
