(* ===== verification/Domain_Policy.thy ===== *)
theory Domain_Policy
  imports Policy_Engine Js_Lists
begin

text \<open>
  Domain-pack policy: the autonomy ceilings and the pack's policy record of
  \<open>packages/domain-packs/src/schema.ts\<close>, the fail-closed threshold comparison of
  \<open>extract.ts\<close>, and the evaluation of every pack against one step in
  \<open>packages/policy-engine/src/pack-policy.ts\<close>. \<open>localeCompare\<close>, by which the packs are sorted,
  is a parameter.
\<close>

section \<open>Autonomy ceilings\<close>

datatype autonomy_level = DraftOnly | StageOnly | DryRunFirst | NeverAutonomous

definition AUTONOMY_ORDER :: "autonomy_level list" where
  "AUTONOMY_ORDER = [DryRunFirst, StageOnly, DraftOnly, NeverAutonomous]"

definition lowerCeiling :: "autonomy_level \<Rightarrow> autonomy_level \<Rightarrow> autonomy_level" where
  "lowerCeiling a b = (if js_indexOf AUTONOMY_ORDER a \<ge> js_indexOf AUTONOMY_ORDER b then a else b)"

definition autonomy_rank :: "autonomy_level \<Rightarrow> int" where
  "autonomy_rank a = js_indexOf AUTONOMY_ORDER a"

interpretation ceiling_pick: strictest lowerCeiling autonomy_rank
proof unfold_locales
  fix a b :: autonomy_level
  show "lowerCeiling a b = a \<or> lowerCeiling a b = b" by (simp add: lowerCeiling_def)
  show "autonomy_rank (lowerCeiling a b) = max (autonomy_rank a) (autonomy_rank b)"
    by (simp add: lowerCeiling_def autonomy_rank_def)
  show "a = b" if "autonomy_rank a = autonomy_rank b"
    using that by (cases a; cases b) (simp_all add: autonomy_rank_def AUTONOMY_ORDER_def)
qed

lemma autonomy_rank_nonneg: "0 \<le> autonomy_rank a"
  by (cases a) (simp_all add: autonomy_rank_def AUTONOMY_ORDER_def)

text \<open>An absent ceiling ranks below every ceiling: it constrains nothing.\<close>

definition ceiling_rank :: "autonomy_level option \<Rightarrow> int" where
  "ceiling_rank c = (case c of None \<Rightarrow> -1 | Some a \<Rightarrow> autonomy_rank a)"

lemma ceiling_rank_simps [simp]:
  "ceiling_rank None = -1" "ceiling_rank (Some a) = autonomy_rank a"
  by (simp_all add: ceiling_rank_def)

lemma ceiling_rank_inject: "ceiling_rank a = ceiling_rank b \<longleftrightarrow> a = b"
  using autonomy_rank_nonneg ceiling_pick.rank_inj
  by (auto simp: ceiling_rank_def split: option.splits) (metis neg_0_le_iff_le not_one_le_zero)+

section \<open>extract.ts\<close>

record extraction =
  ex_value :: "rat option"
  ex_confidence :: rat

definition LOW_CONFIDENCE_THRESHOLD :: rat where "LOW_CONFIDENCE_THRESHOLD = 6 / 10"

datatype threshold_reason = OverThreshold | Unreadable | LowConfidence | Under

definition exceedsThreshold :: "extraction \<Rightarrow> rat \<Rightarrow> rat \<Rightarrow> bool \<times> threshold_reason" where
  "exceedsThreshold e threshold minConfidence =
     (case ex_value e of
       None \<Rightarrow> (True, Unreadable)
     | Some value \<Rightarrow>
         if ex_confidence e < minConfidence then (True, LowConfidence)
         else if value > threshold then (True, OverThreshold) else (False, Under))"

definition unread :: extraction where
  "unread = \<lparr>ex_value = None, ex_confidence = 0\<rparr>"

section \<open>The policy of a pack\<close>

record autonomy_match =
  am_action :: string
  am_amount_usd_gt :: "rat option"
  am_discount_pct_gt :: "rat option"
  am_record_count_gt :: "nat option"

record autonomy_effect =
  ae_max_level :: "autonomy_level option"
  ae_always_gate :: "bool option"
  ae_dual_control :: "bool option"

record autonomy_rule =
  ar_match :: autonomy_match
  ar_rule :: autonomy_effect

record domain_pack =
  dp_domain :: string
  dp_segregation_of_duties :: "string list list"
  dp_autonomy_rules :: "autonomy_rule list"

section \<open>pack-policy.ts\<close>

record pack_policy_step =
  ps_step_id :: string
  ps_domain_action :: "string option"
  ps_object_instance :: "string option"
  ps_record_count :: "nat option"
  ps_amount_usd :: "extraction option"
  ps_discount_pct :: "extraction option"

datatype pack_reason_code = SodConflict | AutonomyCapped | AlwaysGate | DualControl | ValueUnreadable

datatype pack_message =
    MSod string string bool
  | MUnreadableAmount rat
  | MUnreadableDiscount rat
  | MPlain string

record pack_policy_reason =
  pp_code :: pack_reason_code
  pp_message :: pack_message
  pp_rule_id :: string
  pp_pack_domain :: string

record pack_policy_verdict =
  pv_ceiling :: "autonomy_level option"
  pv_always_gate :: bool
  pv_dual_control :: bool
  pv_requires_human :: bool
  pv_reasons :: "pack_policy_reason list"

definition UNRESTRICTED :: pack_policy_verdict where
  "UNRESTRICTED = \<lparr>pv_ceiling = None, pv_always_gate = False, pv_dual_control = False,
     pv_requires_human = False, pv_reasons = []\<rparr>"

definition humanize :: "string \<Rightarrow> string" where
  "humanize action = map (\<lambda>c. if c = CHR ''_'' then CHR '' '' else c) action"

fun sod_scan :: "domain_pack \<Rightarrow> pack_policy_step \<Rightarrow> string \<Rightarrow> string list \<Rightarrow> (nat \<times> string list) list
    \<Rightarrow> pack_policy_reason option" where
  "sod_scan pack step action alreadyDone [] = None"
| "sod_scan pack step action alreadyDone ((index, cannot_combine) # rest) =
     (if action \<notin> set cannot_combine then sod_scan pack step action alreadyDone rest
      else (case List.find (\<lambda>a. a \<noteq> action \<and> a \<in> set alreadyDone) cannot_combine of
        None \<Rightarrow> sod_scan pack step action alreadyDone rest
      | Some conflicting \<Rightarrow>
          if conflicting = [] then sod_scan pack step action alreadyDone rest
          else Some \<lparr>pp_code = SodConflict,
            pp_message = MSod (humanize conflicting) (humanize action) (truthy_str (ps_object_instance step)),
            pp_rule_id = ''PACK-SOD-'' @ dec (index + 1), pp_pack_domain = dp_domain pack\<rparr>))"

definition sodConflict :: "domain_pack \<Rightarrow> pack_policy_step \<Rightarrow> string list \<Rightarrow> string list
    \<Rightarrow> pack_policy_reason option" where
  "sodConflict pack step siblingActions priorActions =
     (case ps_domain_action step of
       None \<Rightarrow> None
     | Some action \<Rightarrow>
         if action = [] then None
         else sod_scan pack step action (siblingActions @ priorActions)
                (entries_of (dp_segregation_of_duties pack)))"

definition threshold_hit :: "extraction option \<Rightarrow> rat \<Rightarrow> pack_message \<Rightarrow> domain_pack \<Rightarrow> string
    \<Rightarrow> bool \<times> pack_policy_reason option" where
  "threshold_hit value limit message pack ruleId =
     (let verdict = exceedsThreshold (or_else value unread) limit LOW_CONFIDENCE_THRESHOLD in
      if \<not> fst verdict then (False, None)
      else if snd verdict \<noteq> OverThreshold
      then (True, Some \<lparr>pp_code = ValueUnreadable, pp_message = message, pp_rule_id = ruleId,
                        pp_pack_domain = dp_domain pack\<rparr>)
      else (True, None))"

definition matcherHits :: "autonomy_match \<Rightarrow> pack_policy_step \<Rightarrow> domain_pack \<Rightarrow> string
    \<Rightarrow> bool \<times> pack_policy_reason option" where
  "matcherHits match step pack ruleId =
     (if Some (am_action match) \<noteq> ps_domain_action step then (False, None)
      else case am_amount_usd_gt match of
        Some limit \<Rightarrow> threshold_hit (ps_amount_usd step) limit (MUnreadableAmount limit) pack ruleId
      | None \<Rightarrow> (case am_discount_pct_gt match of
          Some limit \<Rightarrow> threshold_hit (ps_discount_pct step) limit (MUnreadableDiscount limit) pack ruleId
        | None \<Rightarrow> (case am_record_count_gt match of
            Some limit \<Rightarrow> (case ps_record_count step of
                None \<Rightarrow> (True, None) | Some n \<Rightarrow> (n > limit, None))
          | None \<Rightarrow> (True, None))))"

definition LEVEL_COPY :: "autonomy_level \<Rightarrow> string" where
  "LEVEL_COPY l = (case l of DraftOnly \<Rightarrow> ''Draft-only'' | StageOnly \<Rightarrow> ''Stage-only''
     | DryRunFirst \<Rightarrow> ''Dry-run first'' | NeverAutonomous \<Rightarrow> ''Never autonomous'')"

definition pack_reason :: "pack_reason_code \<Rightarrow> string \<Rightarrow> string \<Rightarrow> domain_pack \<Rightarrow> autonomy_rule
    \<Rightarrow> pack_policy_reason" where
  "pack_reason code copy ruleId pack rule =
     \<lparr>pp_code = code,
      pp_message = MPlain (copy @ '': '' @ dp_domain pack @ '' policy for ''
        @ humanize (am_action (ar_match rule)) @ ''.''),
      pp_rule_id = ruleId, pp_pack_domain = dp_domain pack\<rparr>"

definition add_reason :: "pack_policy_reason \<Rightarrow> pack_policy_verdict \<Rightarrow> pack_policy_verdict" where
  "add_reason r v = v\<lparr>pv_reasons := pv_reasons v @ [r]\<rparr>"

definition apply_max_level :: "string \<Rightarrow> domain_pack \<Rightarrow> autonomy_rule \<Rightarrow> pack_policy_verdict \<Rightarrow> pack_policy_verdict" where
  "apply_max_level ruleId pack rule v =
     (case ae_max_level (ar_rule rule) of
       None \<Rightarrow> v
     | Some l \<Rightarrow> add_reason (pack_reason AutonomyCapped (LEVEL_COPY l) ruleId pack rule)
         (v\<lparr>pv_ceiling := Some (case pv_ceiling v of None \<Rightarrow> l | Some c \<Rightarrow> lowerCeiling c l)\<rparr>))"

definition apply_always_gate :: "string \<Rightarrow> domain_pack \<Rightarrow> autonomy_rule \<Rightarrow> pack_policy_verdict \<Rightarrow> pack_policy_verdict" where
  "apply_always_gate ruleId pack rule v =
     (if ae_always_gate (ar_rule rule) = Some True
      then add_reason (pack_reason AlwaysGate ''Always needs your approval'' ruleId pack rule)
             (v\<lparr>pv_always_gate := True\<rparr>)
      else v)"

definition apply_dual_control :: "string \<Rightarrow> domain_pack \<Rightarrow> autonomy_rule \<Rightarrow> pack_policy_verdict \<Rightarrow> pack_policy_verdict" where
  "apply_dual_control ruleId pack rule v =
     (if ae_dual_control (ar_rule rule) = Some True
      then add_reason (pack_reason DualControl ''Requires a second approver in team mode'' ruleId pack rule)
             (v\<lparr>pv_dual_control := True, pv_always_gate := True\<rparr>)
      else v)"

definition apply_rule :: "domain_pack \<Rightarrow> pack_policy_step \<Rightarrow> nat \<times> autonomy_rule \<Rightarrow> pack_policy_verdict
    \<Rightarrow> pack_policy_verdict" where
  "apply_rule pack step ir v =
     (let ruleId = ''PACK-AUTO-'' @ dec (fst ir + 1);
          rule = snd ir;
          hit = matcherHits (ar_match rule) step pack ruleId
      in if \<not> fst hit then v
         else apply_dual_control ruleId pack rule
               (apply_always_gate ruleId pack rule
                 (apply_max_level ruleId pack rule
                   (case snd hit of None \<Rightarrow> v | Some r \<Rightarrow> add_reason r v))))"

record pack_options =
  po_sibling_actions :: "string list option"
  po_prior_actions :: "string list option"

definition apply_sod :: "pack_options \<Rightarrow> pack_policy_step \<Rightarrow> domain_pack \<Rightarrow> pack_policy_verdict
    \<Rightarrow> pack_policy_verdict" where
  "apply_sod opts step pack v =
     (case sodConflict pack step (or_nil (po_sibling_actions opts)) (or_nil (po_prior_actions opts)) of
       None \<Rightarrow> v
     | Some sod \<Rightarrow> add_reason sod (v\<lparr>pv_requires_human := True, pv_always_gate := True\<rparr>))"

definition apply_pack :: "pack_options \<Rightarrow> pack_policy_step \<Rightarrow> domain_pack \<Rightarrow> pack_policy_verdict
    \<Rightarrow> pack_policy_verdict" where
  "apply_pack opts step pack v =
     fold (apply_rule pack step) (entries_of (dp_autonomy_rules pack)) (apply_sod opts step pack v)"

definition evaluatePackPolicy :: "(string \<Rightarrow> string \<Rightarrow> int) \<Rightarrow> domain_pack list \<Rightarrow> pack_policy_step
    \<Rightarrow> pack_options \<Rightarrow> pack_policy_verdict" where
  "evaluatePackPolicy localeCompare packs step opts =
     (if \<not> truthy_str (ps_domain_action step) then UNRESTRICTED
      else fold (apply_pack opts step)
             (js_sort (\<lambda>a b. localeCompare (dp_domain a) (dp_domain b)) packs) UNRESTRICTED)"

definition applyPackPolicy :: "autonomy_level option \<Rightarrow> pack_policy_verdict \<Rightarrow> autonomy_level option" where
  "applyPackPolicy current verdict =
     (case pv_ceiling verdict of
       None \<Rightarrow> current
     | Some c \<Rightarrow> (case current of None \<Rightarrow> Some c | Some cur \<Rightarrow> Some (lowerCeiling cur c)))"

definition needsHumanApproval :: "pack_policy_verdict \<Rightarrow> bool" where
  "needsHumanApproval verdict \<longleftrightarrow>
     pv_always_gate verdict \<or> pv_requires_human verdict \<or> pv_dual_control verdict"

section \<open>What a rule and a pack contribute\<close>

text \<open>Whether a rule applies does not depend on its index: the rule id only labels the reasons.\<close>

definition rule_hits :: "pack_policy_step \<Rightarrow> autonomy_match \<Rightarrow> bool" where
  "rule_hits step match \<longleftrightarrow>
     ps_domain_action step = Some (am_action match)
     \<and> (case am_amount_usd_gt match of
         Some t \<Rightarrow> fst (exceedsThreshold (or_else (ps_amount_usd step) unread) t LOW_CONFIDENCE_THRESHOLD)
       | None \<Rightarrow> (case am_discount_pct_gt match of
           Some t \<Rightarrow> fst (exceedsThreshold (or_else (ps_discount_pct step) unread) t LOW_CONFIDENCE_THRESHOLD)
         | None \<Rightarrow> (case am_record_count_gt match of
             Some t \<Rightarrow> (case ps_record_count step of None \<Rightarrow> True | Some n \<Rightarrow> n > t)
           | None \<Rightarrow> True)))"

lemma matcherHits_rule_hits: "fst (matcherHits m step pack i) \<longleftrightarrow> rule_hits step m"
  by (auto simp: matcherHits_def rule_hits_def threshold_hit_def Let_def split: option.splits)

lemma add_reason_simps [simp]:
  "pv_ceiling (add_reason r v) = pv_ceiling v"
  "pv_always_gate (add_reason r v) = pv_always_gate v"
  "pv_dual_control (add_reason r v) = pv_dual_control v"
  "pv_requires_human (add_reason r v) = pv_requires_human v"
  "pv_reasons (add_reason r v) = pv_reasons v @ [r]"
  by (simp_all add: add_reason_def)

lemmas apply_rule_defs =
  apply_rule_def Let_def apply_max_level_def apply_always_gate_def apply_dual_control_def

lemma apply_rule_flags:
  "pv_always_gate (apply_rule pack step ir v) \<longleftrightarrow> pv_always_gate v \<or>
     rule_hits step (ar_match (snd ir)) \<and> (ae_always_gate (ar_rule (snd ir)) = Some True
       \<or> ae_dual_control (ar_rule (snd ir)) = Some True)"
  "pv_dual_control (apply_rule pack step ir v) \<longleftrightarrow> pv_dual_control v \<or>
     rule_hits step (ar_match (snd ir)) \<and> ae_dual_control (ar_rule (snd ir)) = Some True"
  "pv_requires_human (apply_rule pack step ir v) = pv_requires_human v"
  by (auto simp: apply_rule_defs matcherHits_rule_hits split: option.splits)

lemma autonomy_rank_bound: "autonomy_rank a \<le> n \<Longrightarrow> -1 \<le> n"
  using autonomy_rank_nonneg [of a] by linarith

lemma ceiling_rank_bound: "ceiling_rank c \<le> n \<Longrightarrow> -1 \<le> n"
  by (cases c) (auto dest: autonomy_rank_bound)

lemma ceiling_rank_ge [simp]: "-1 \<le> ceiling_rank c"
  using ceiling_rank_bound [of c "ceiling_rank c"] by simp

lemma apply_rule_ceiling:
  "ceiling_rank (pv_ceiling (apply_rule pack step ir v)) \<le> n \<longleftrightarrow>
     ceiling_rank (pv_ceiling v) \<le> n \<and>
     (rule_hits step (ar_match (snd ir)) \<longrightarrow> ceiling_rank (ae_max_level (ar_rule (snd ir))) \<le> n)"
  by (auto simp: apply_rule_defs matcherHits_rule_hits ceiling_pick.rank_pick
      dest: autonomy_rank_bound ceiling_rank_bound split: option.splits)

lemma ex_snd_entries: "(\<exists>ir \<in> set (entries_of xs). P (snd ir)) \<longleftrightarrow> (\<exists>x \<in> set xs. P x)"
  by (metis (no_types, lifting) image_iff snd_set_entries_of)

lemma all_snd_entries: "(\<forall>ir \<in> set (entries_of xs). P (snd ir)) \<longleftrightarrow> (\<forall>x \<in> set xs. P x)"
  by (metis (no_types, lifting) image_iff snd_set_entries_of)

text \<open>The separation-of-duties check as a condition, without its message.\<close>

definition sod_blocked :: "pack_options \<Rightarrow> pack_policy_step \<Rightarrow> domain_pack \<Rightarrow> bool" where
  "sod_blocked opts step pack \<longleftrightarrow>
     sodConflict pack step (or_nil (po_sibling_actions opts)) (or_nil (po_prior_actions opts)) \<noteq> None"

lemma apply_sod_fields [simp]:
  "pv_always_gate (apply_sod opts step pack v) \<longleftrightarrow> pv_always_gate v \<or> sod_blocked opts step pack"
  "pv_requires_human (apply_sod opts step pack v) \<longleftrightarrow> pv_requires_human v \<or> sod_blocked opts step pack"
  "pv_dual_control (apply_sod opts step pack v) = pv_dual_control v"
  "pv_ceiling (apply_sod opts step pack v) = pv_ceiling v"
  by (auto simp: apply_sod_def sod_blocked_def split: option.splits)

text \<open>The effects of a pack: the rules that hit, and what they set.\<close>

definition pack_hits :: "pack_policy_step \<Rightarrow> domain_pack \<Rightarrow> (autonomy_effect \<Rightarrow> bool) \<Rightarrow> bool" where
  "pack_hits step pack P \<longleftrightarrow>
     (\<exists>rule \<in> set (dp_autonomy_rules pack). rule_hits step (ar_match rule) \<and> P (ar_rule rule))"

lemma apply_pack_gate:
  "pv_always_gate (apply_pack opts step pack v) \<longleftrightarrow> pv_always_gate v \<or>
     (sod_blocked opts step pack
      \<or> pack_hits step pack (\<lambda>e. ae_always_gate e = Some True \<or> ae_dual_control e = Some True))"
  unfolding apply_pack_def
  by (subst fold_flag [where flag = pv_always_gate and f = "apply_rule pack step", OF apply_rule_flags(1)])
    (auto simp: pack_hits_def ex_snd_entries [where P = "\<lambda>r. rule_hits step (ar_match r) \<and> (ae_always_gate (ar_rule r) = Some True \<or> ae_dual_control (ar_rule r) = Some True)"])

lemma apply_pack_dual:
  "pv_dual_control (apply_pack opts step pack v) \<longleftrightarrow> pv_dual_control v \<or>
     pack_hits step pack (\<lambda>e. ae_dual_control e = Some True)"
  unfolding apply_pack_def
  by (subst fold_flag [where flag = pv_dual_control and f = "apply_rule pack step", OF apply_rule_flags(2)])
    (simp add: pack_hits_def ex_snd_entries [where P = "\<lambda>r. rule_hits step (ar_match r) \<and> ae_dual_control (ar_rule r) = Some True"])

lemma apply_pack_human:
  "pv_requires_human (apply_pack opts step pack v) \<longleftrightarrow> pv_requires_human v \<or> sod_blocked opts step pack"
  unfolding apply_pack_def
  by (subst fold_flag [where flag = pv_requires_human and f = "apply_rule pack step" and P = "\<lambda>_. False"]) (simp_all add: apply_rule_flags)

definition pack_bound :: "pack_policy_step \<Rightarrow> domain_pack \<Rightarrow> int \<Rightarrow> bool" where
  "pack_bound step pack n \<longleftrightarrow> (\<forall>rule \<in> set (dp_autonomy_rules pack).
     rule_hits step (ar_match rule) \<longrightarrow> ceiling_rank (ae_max_level (ar_rule rule)) \<le> n)"

lemma apply_pack_ceiling:
  "ceiling_rank (pv_ceiling (apply_pack opts step pack v)) \<le> n \<longleftrightarrow>
     ceiling_rank (pv_ceiling v) \<le> n \<and> pack_bound step pack n"
  unfolding apply_pack_def
  by (subst fold_bound [where rank = "\<lambda>v. ceiling_rank (pv_ceiling v)" and f = "apply_rule pack step", OF apply_rule_ceiling])
    (simp add: pack_bound_def all_snd_entries [where P = "\<lambda>r. rule_hits step (ar_match r) \<longrightarrow> ceiling_rank (ae_max_level (ar_rule r)) \<le> n"])

section \<open>The verdict as a condition on the set of packs\<close>

lemma verdict_gate:
  "pv_always_gate (evaluatePackPolicy lc packs step opts) \<longleftrightarrow> truthy_str (ps_domain_action step) \<and>
     (\<exists>pack \<in> set packs. sod_blocked opts step pack
       \<or> pack_hits step pack (\<lambda>e. ae_always_gate e = Some True \<or> ae_dual_control e = Some True))"
  unfolding evaluatePackPolicy_def
  by (simp add: fold_flag [where flag = pv_always_gate and f = "apply_pack opts step", OF apply_pack_gate] UNRESTRICTED_def)

lemma verdict_dual:
  "pv_dual_control (evaluatePackPolicy lc packs step opts) \<longleftrightarrow> truthy_str (ps_domain_action step) \<and>
     (\<exists>pack \<in> set packs. pack_hits step pack (\<lambda>e. ae_dual_control e = Some True))"
  unfolding evaluatePackPolicy_def
  by (simp add: fold_flag [where flag = pv_dual_control and f = "apply_pack opts step", OF apply_pack_dual] UNRESTRICTED_def)

lemma verdict_human:
  "pv_requires_human (evaluatePackPolicy lc packs step opts) \<longleftrightarrow> truthy_str (ps_domain_action step) \<and>
     (\<exists>pack \<in> set packs. sod_blocked opts step pack)"
  unfolding evaluatePackPolicy_def
  by (simp add: fold_flag [where flag = pv_requires_human and f = "apply_pack opts step", OF apply_pack_human] UNRESTRICTED_def)

lemma verdict_ceiling:
  "ceiling_rank (pv_ceiling (evaluatePackPolicy lc packs step opts)) \<le> n \<longleftrightarrow> -1 \<le> n \<and>
     (truthy_str (ps_domain_action step) \<longrightarrow> (\<forall>pack \<in> set packs. pack_bound step pack n))"
proof (cases "truthy_str (ps_domain_action step)")
  case True
  then show ?thesis
    unfolding evaluatePackPolicy_def
    by (simp only: if_not_P not_not, subst fold_bound [where rank = "\<lambda>v. ceiling_rank (pv_ceiling v)" and f = "apply_pack opts step",
          OF apply_pack_ceiling])
      (simp add: UNRESTRICTED_def)
qed (simp add: evaluatePackPolicy_def UNRESTRICTED_def)

lemmas verdict_sets = verdict_gate verdict_dual verdict_human

text \<open>The reasons only grow, and every restriction is explained by one.\<close>

definition restricted :: "pack_policy_verdict \<Rightarrow> bool" where
  "restricted v \<longleftrightarrow> pv_ceiling v \<noteq> None \<or> needsHumanApproval v"

definition explained :: "pack_policy_verdict \<Rightarrow> bool" where
  "explained v \<longleftrightarrow> restricted v \<longrightarrow> pv_reasons v \<noteq> []"

lemma apply_rule_explained: "explained v \<Longrightarrow> explained (apply_rule pack step ir v)"
  by (auto simp: apply_rule_defs explained_def restricted_def needsHumanApproval_def
      split: option.splits)

lemma apply_sod_explained: "explained v \<Longrightarrow> explained (apply_sod opts step pack v)"
  by (auto simp: apply_sod_def explained_def restricted_def needsHumanApproval_def split: option.splits)

interpretation rules_explain: step_invariant "\<lambda>v ir. apply_rule pack step ir v" explained for pack step
  by unfold_locales (rule apply_rule_explained)

lemma apply_pack_explained: "explained v \<Longrightarrow> explained (apply_pack opts step pack v)"
  unfolding apply_pack_def foldl_conv_fold [symmetric]
  using rules_explain.run_keeps [OF apply_sod_explained] by (simp add: foldl_conv_fold)

interpretation packs_explain: step_invariant "\<lambda>v pack. apply_pack opts step pack v" explained for opts step
  by unfold_locales (rule apply_pack_explained)

section \<open>Packs the witnesses use\<close>

definition fx_ap_pack :: domain_pack where
  "fx_ap_pack = \<lparr>dp_domain = ''ap'', dp_segregation_of_duties = [],
     dp_autonomy_rules = [\<lparr>ar_match = \<lparr>am_action = ''pay_invoice'', am_amount_usd_gt = Some 1000,
         am_discount_pct_gt = None, am_record_count_gt = None\<rparr>,
       ar_rule = \<lparr>ae_max_level = Some DraftOnly, ae_always_gate = None, ae_dual_control = None\<rparr>\<rparr>]\<rparr>"

definition fx_gate_pack :: domain_pack where
  "fx_gate_pack = \<lparr>dp_domain = ''gate'', dp_segregation_of_duties = [],
     dp_autonomy_rules = [\<lparr>ar_match = \<lparr>am_action = ''pay_invoice'', am_amount_usd_gt = None,
         am_discount_pct_gt = None, am_record_count_gt = Some 5\<rparr>,
       ar_rule = \<lparr>ae_max_level = None, ae_always_gate = Some True, ae_dual_control = None\<rparr>\<rparr>]\<rparr>"

definition fx_pay_step :: pack_policy_step where
  "fx_pay_step = \<lparr>ps_step_id = ''s1'', ps_domain_action = Some ''pay_invoice'', ps_object_instance = None,
     ps_record_count = None, ps_amount_usd = None, ps_discount_pct = None\<rparr>"

definition fx_no_history :: pack_options where
  "fx_no_history = \<lparr>po_sibling_actions = None, po_prior_actions = None\<rparr>"

lemmas fx_pack_defs = fx_ap_pack_def fx_gate_pack_def fx_pay_step_def fx_no_history_def

section \<open>Properties\<close>

text \<open>
  C18: Pack policy can only restrict: whatever autonomy the run would otherwise have, the level
  after applying the verdict of any packs is at least as strict, and at least as strict as every
  ceiling a matching rule of any pack sets.
\<close>

theorem applyPackPolicy_only_restricts:
  "ceiling_rank current \<le> ceiling_rank (applyPackPolicy current (evaluatePackPolicy lc packs step opts))
   \<and> (truthy_str (ps_domain_action step) \<longrightarrow> (\<forall>pack \<in> set packs. \<forall>rule \<in> set (dp_autonomy_rules pack).
       rule_hits step (ar_match rule) \<longrightarrow> ceiling_rank (ae_max_level (ar_rule rule))
         \<le> ceiling_rank (applyPackPolicy current (evaluatePackPolicy lc packs step opts))))"
proof -
  let ?v = "evaluatePackPolicy lc packs step opts"
  have apply_ge: "ceiling_rank current \<le> ceiling_rank (applyPackPolicy current ?v)"
    "ceiling_rank (pv_ceiling ?v) \<le> ceiling_rank (applyPackPolicy current ?v)"
    using autonomy_rank_nonneg
    by (auto simp: applyPackPolicy_def ceiling_pick.rank_pick dest: autonomy_rank_bound
        split: option.splits) (meson autonomy_rank_bound order_refl)+
  with verdict_ceiling [of lc packs step opts "ceiling_rank (applyPackPolicy current ?v)"]
  show ?thesis unfolding pack_bound_def by blast
qed

theorem applyPackPolicy_only_restricts_witness:
  "ceiling_rank (Some DraftOnly) \<le> ceiling_rank (applyPackPolicy (Some StageOnly)
     (evaluatePackPolicy (\<lambda>_ _. 0) [fx_ap_pack] fx_pay_step fx_no_history))"
  using applyPackPolicy_only_restricts [of "Some StageOnly" "\<lambda>_ _. 0" "[fx_ap_pack]" fx_pay_step
      fx_no_history]
  by (simp add: fx_pack_defs rule_hits_def exceedsThreshold_def unread_def or_else_def)





end
