(* ===== verification/Lifecycle.thy ===== *)
theory Lifecycle
  imports Contracts Js_Lists
begin

text \<open>
  The agent lifecycle (\<open>packages/agent-runtime/src/lifecycle.ts\<close>), the capability-mesh journey
  (\<open>mesh-lifecycle.ts\<close>) and the comparison of shadow runs that feeds it (\<open>shadow.ts\<close>). The two
  machines are step relations over requests the evaluators allow; a trace is the list of
  requests that led to a state.
\<close>

section \<open>lifecycle.ts\<close>

definition TRANSITIONS :: "agent_state \<Rightarrow> agent_state list" where
  "TRANSITIONS s = (case s of
      Draft \<Rightarrow> [Shadow, Degraded, Revoked, Archived]
    | Shadow \<Rightarrow> [Draft, Supervised, Degraded, Revoked, Archived]
    | Supervised \<Rightarrow> [Shadow, Active, Degraded, Revoked, Archived]
    | Active \<Rightarrow> [Paused, Degraded, Revoked, Archived]
    | Paused \<Rightarrow> [Active, Degraded, Revoked, Archived]
    | Degraded \<Rightarrow> [Shadow, Revoked, Archived]
    | Revoked \<Rightarrow> []
    | Archived \<Rightarrow> [])"

definition canTransition :: "agent_state \<Rightarrow> agent_state \<Rightarrow> bool" where
  "canTransition from_state to_state \<longleftrightarrow> to_state \<in> set (TRANSITIONS from_state)"

datatype lifecycle_actor = ActorUser | ActorSystem | ActorPolicy

record transition_request =
  tr_from :: agent_state
  tr_to :: agent_state
  tr_actor :: lifecycle_actor
  tr_org_policy_allows_activation :: "bool option"

datatype 's refusal = RNotAllowed 's 's | RNeedsComparisons "nat option" | RHumanDecision | RSay string

datatype 's transition_result = Allowed | Refused "'s refusal"

definition evaluateTransition :: "transition_request \<Rightarrow> agent_state transition_result" where
  "evaluateTransition request =
     (if \<not> canTransition (tr_from request) (tr_to request)
      then Refused (RNotAllowed (tr_from request) (tr_to request))
      else if tr_from request = Shadow \<and> tr_to request = Supervised \<and> tr_actor request \<noteq> ActorUser
      then Refused (RSay ''only a user may promote shadow to supervised'')
      else if tr_from request = Supervised \<and> tr_to request = Active then
        (if tr_actor request \<noteq> ActorUser
         then Refused (RSay ''only a user may promote supervised to active'')
         else if tr_org_policy_allows_activation request \<noteq> Some True
         then Refused (RSay ''organization policy does not allow activation'')
         else Allowed)
      else Allowed)"

definition stateAfterMaterialEdit :: "agent_state \<Rightarrow> agent_state" where
  "stateAfterMaterialEdit current = Shadow"

section \<open>mesh-lifecycle.ts\<close>

datatype mesh_state = MObserved | MCandidateDetected | MConnectorSuggested | MShadowing | MDraftAgent
  | MSupervised | MApproved | MAutonomous | MPaused | MRetired

definition MESH_TRANSITIONS :: "mesh_state \<Rightarrow> mesh_state list" where
  "MESH_TRANSITIONS s = (case s of
      MObserved \<Rightarrow> [MCandidateDetected, MRetired]
    | MCandidateDetected \<Rightarrow> [MConnectorSuggested, MShadowing, MDraftAgent, MRetired]
    | MConnectorSuggested \<Rightarrow> [MShadowing, MCandidateDetected, MRetired]
    | MShadowing \<Rightarrow> [MDraftAgent, MCandidateDetected, MRetired]
    | MDraftAgent \<Rightarrow> [MSupervised, MShadowing, MRetired]
    | MSupervised \<Rightarrow> [MApproved, MShadowing, MPaused, MRetired]
    | MApproved \<Rightarrow> [MAutonomous, MSupervised, MPaused, MRetired]
    | MAutonomous \<Rightarrow> [MPaused, MSupervised, MRetired]
    | MPaused \<Rightarrow> [MSupervised, MApproved, MAutonomous, MRetired]
    | MRetired \<Rightarrow> [])"

definition HUMAN_GATED :: "(mesh_state \<times> mesh_state) list" where
  "HUMAN_GATED = [(MShadowing, MDraftAgent), (MDraftAgent, MSupervised), (MSupervised, MApproved),
     (MApproved, MAutonomous), (MPaused, MAutonomous), (MPaused, MApproved)]"

datatype mesh_actor = MeshUser | MeshAdmin | MeshSystem

record shadow_agreement =
  sa_successful_comparisons :: nat
  sa_required_comparisons :: nat

record mesh_request =
  mr_from :: mesh_state
  mr_to :: mesh_state
  mr_actor :: mesh_actor
  mr_shadow_agreement :: "shadow_agreement option"
  mr_org_policy_allows_autonomy :: "bool option"

definition evaluateMeshTransition :: "mesh_request \<Rightarrow> mesh_state transition_result" where
  "evaluateMeshTransition req =
     (if mr_to req \<notin> set (MESH_TRANSITIONS (mr_from req))
      then Refused (RNotAllowed (mr_from req) (mr_to req))
      else if list_ex (\<lambda>(f, t). f = mr_from req \<and> t = mr_to req) HUMAN_GATED \<and> mr_actor req = MeshSystem
      then Refused RHumanDecision
      else if mr_from req = MShadowing \<and> mr_to req = MDraftAgent \<and>
        (case mr_shadow_agreement req of
           None \<Rightarrow> True
         | Some agreement \<Rightarrow> sa_successful_comparisons agreement < sa_required_comparisons agreement)
      then Refused (RNeedsComparisons (map_option sa_required_comparisons (mr_shadow_agreement req)))
      else if mr_to req = MAutonomous then
        (if mr_actor req \<noteq> MeshAdmin \<and> mr_actor req \<noteq> MeshUser
         then Refused (RSay ''autonomy requires user or admin approval'')
         else if mr_org_policy_allows_autonomy req \<noteq> Some True
         then Refused (RSay ''organization policy does not allow autonomy'')
         else Allowed)
      else Allowed)"

definition meshToAgentState :: "mesh_state \<Rightarrow> agent_state" where
  "meshToAgentState mesh = (case mesh of
      MObserved \<Rightarrow> Draft | MCandidateDetected \<Rightarrow> Draft | MConnectorSuggested \<Rightarrow> Draft
    | MShadowing \<Rightarrow> Shadow | MDraftAgent \<Rightarrow> Draft | MSupervised \<Rightarrow> Supervised
    | MApproved \<Rightarrow> Active | MAutonomous \<Rightarrow> Active | MPaused \<Rightarrow> Paused | MRetired \<Rightarrow> Archived)"

section \<open>shadow.ts\<close>

record proposed_change =
  pc_object_ref :: string
  pc_field :: string
  pc_proposed_value_hash :: string

definition proposed_change_schema :: "proposed_change \<Rightarrow> bool" where
  "proposed_change_schema c \<longleftrightarrow>
     pc_object_ref c \<noteq> [] \<and> pc_field c \<noteq> [] \<and> pc_proposed_value_hash c \<noteq> []"

datatype missing_rule = YouAlsoUpdate string | IProposedChanging string

record shadow_comparison =
  sc_run_id :: string
  sc_agreement :: rat
  sc_matched :: nat
  sc_missed :: nat
  sc_extra :: nat
  sc_missing_rules :: "missing_rule list"

definition change_key :: "proposed_change \<Rightarrow> string" where
  "change_key c = pc_object_ref c @ CHR ''|'' # pc_field c @ CHR ''|'' # pc_proposed_value_hash c"

definition round3 :: "rat \<Rightarrow> rat" where
  "round3 x = of_int \<lfloor>x * 1000 + 1 / 2\<rfloor> / 1000"

definition compareShadowRun :: "string \<Rightarrow> proposed_change list \<Rightarrow> proposed_change list \<Rightarrow> shadow_comparison" where
  "compareShadowRun runId proposed actual =
     (let proposedSet = js_set (map change_key proposed);
          actualSet = js_set (map change_key actual);
          matched = length (filter (\<lambda>k. k \<in> set actualSet) proposedSet);
          extra = length proposedSet - matched;
          missed = length actualSet - matched;
          union = length proposedSet + length actualSet - matched;
          agreement = (if union = 0 then 1 else of_nat matched / of_nat union);
          missedFields = js_set (map pc_field (filter (\<lambda>c. change_key c \<notin> set proposedSet) actual));
          extraFields = js_set (map pc_field (filter (\<lambda>c. change_key c \<notin> set actualSet) proposed))
      in \<lparr>sc_run_id = runId, sc_agreement = round3 agreement, sc_matched = matched, sc_missed = missed,
          sc_extra = extra,
          sc_missing_rules = map YouAlsoUpdate missedFields @ map IProposedChanging extraFields\<rparr>)"

record promotion_readiness =
  rd_ready :: bool
  rd_successful_comparisons :: nat
  rd_required_comparisons :: nat
  rd_latest_agreement :: "rat option"

definition DEFAULT_REQUIRED_COMPARISONS :: nat where "DEFAULT_REQUIRED_COMPARISONS = 3"
definition SUCCESS_AGREEMENT_THRESHOLD :: rat where "SUCCESS_AGREEMENT_THRESHOLD = 9 / 10"

definition promotionReadiness :: "shadow_comparison list \<Rightarrow> nat \<Rightarrow> promotion_readiness" where
  "promotionReadiness comparisons requiredComparisons =
     (let successful = length (filter (\<lambda>c. sc_agreement c \<ge> SUCCESS_AGREEMENT_THRESHOLD) comparisons)
      in \<lparr>rd_ready = (successful \<ge> requiredComparisons), rd_successful_comparisons = successful,
          rd_required_comparisons = requiredComparisons,
          rd_latest_agreement = (if comparisons = [] then None else Some (sc_agreement (last comparisons)))\<rparr>)"

section \<open>The machines as step relations\<close>

inductive agent_step_rel :: "agent_state \<Rightarrow> transition_request \<Rightarrow> agent_state \<Rightarrow> bool" where
  "tr_from r = s \<Longrightarrow> evaluateTransition r = Allowed \<Longrightarrow> agent_step_rel s r (tr_to r)"

inductive mesh_step_rel :: "mesh_state \<Rightarrow> mesh_request \<Rightarrow> mesh_state \<Rightarrow> bool" where
  "mr_from r = s \<Longrightarrow> evaluateMeshTransition r = Allowed \<Longrightarrow> mesh_step_rel s r (mr_to r)"

inductive_cases agent_stepE: "agent_step_rel s r t"
inductive_cases mesh_stepE: "mesh_step_rel s r t"
inductive_simps agent_step_simp: "agent_step_rel s r t"
inductive_simps mesh_step_simp: "mesh_step_rel s r t"

text \<open>The decisions a promotion needs.\<close>

definition user_supervises :: "transition_request \<Rightarrow> bool" where
  "user_supervises r \<longleftrightarrow> tr_from r = Shadow \<and> tr_to r = Supervised \<and> tr_actor r = ActorUser"

definition user_activates :: "transition_request \<Rightarrow> bool" where
  "user_activates r \<longleftrightarrow> tr_from r = Supervised \<and> tr_to r = Active \<and> tr_actor r = ActorUser
     \<and> tr_org_policy_allows_activation r = Some True"

definition promoted :: "transition_request list \<Rightarrow> agent_state \<Rightarrow> bool" where
  "promoted es s \<longleftrightarrow>
     (s \<in> {Supervised, Active, Paused} \<longrightarrow> list_ex user_supervises es)
     \<and> (s \<in> {Active, Paused} \<longrightarrow> list_ex user_activates es)"

lemma evaluateTransition_Allowed:
  "evaluateTransition r = Allowed \<longleftrightarrow> canTransition (tr_from r) (tr_to r)
     \<and> (tr_from r = Shadow \<and> tr_to r = Supervised \<longrightarrow> user_supervises r)
     \<and> (tr_from r = Supervised \<and> tr_to r = Active \<longrightarrow> user_activates r)"
  by (simp add: evaluateTransition_def user_supervises_def user_activates_def)

lemma canTransition_into:
  "canTransition s Supervised \<longleftrightarrow> s = Shadow"
  "canTransition s Active \<longleftrightarrow> s = Supervised \<or> s = Paused"
  "canTransition s Paused \<longleftrightarrow> s = Active"
  "\<not> canTransition Revoked s" "\<not> canTransition Archived s"
  by (cases s; simp add: canTransition_def TRANSITIONS_def)+

lemma promoted_step:
  assumes inv: "promoted es s" and step: "agent_step_rel s r t"
  shows "promoted (es @ [r]) t"
proof -
  from step have t: "t = tr_to r" "tr_from r = s" and ok: "evaluateTransition r = Allowed"
    by (auto elim!: agent_stepE)
  show ?thesis
  proof (cases "t \<in> {Supervised, Active, Paused}")
    case True
    with t ok inv show ?thesis
      by (auto simp: evaluateTransition_Allowed promoted_def canTransition_into)
  qed (simp add: promoted_def)
qed

interpretation agent_machine: rel_invariant agent_step_rel promoted
  by unfold_locales (rule promoted_step)

definition human :: "mesh_request \<Rightarrow> bool" where
  "human r \<longleftrightarrow> mr_actor r \<noteq> MeshSystem"

definition human_supervises :: "mesh_request \<Rightarrow> bool" where
  "human_supervises r \<longleftrightarrow> mr_from r = MDraftAgent \<and> mr_to r = MSupervised \<and> human r"

definition human_approves :: "mesh_request \<Rightarrow> bool" where
  "human_approves r \<longleftrightarrow> mr_to r \<in> {MApproved, MAutonomous} \<and> human r"

definition human_releases :: "mesh_request \<Rightarrow> bool" where
  "human_releases r \<longleftrightarrow> mr_to r = MAutonomous \<and> human r \<and> mr_org_policy_allows_autonomy r = Some True"

definition mesh_promoted :: "mesh_request list \<Rightarrow> mesh_state \<Rightarrow> bool" where
  "mesh_promoted es s \<longleftrightarrow>
     (s \<in> {MSupervised, MApproved, MAutonomous, MPaused} \<longrightarrow> list_ex human_supervises es)
     \<and> (s \<in> {MApproved, MAutonomous} \<longrightarrow> list_ex human_approves es)
     \<and> (s = MAutonomous \<longrightarrow> es \<noteq> [] \<and> human_releases (last es))"

lemmas mesh_decisions = human_def human_supervises_def human_approves_def human_releases_def

definition mesh_can :: "mesh_state \<Rightarrow> mesh_state \<Rightarrow> bool" where
  "mesh_can s t \<longleftrightarrow> t \<in> set (MESH_TRANSITIONS s)"

definition gated :: "mesh_state \<Rightarrow> mesh_state \<Rightarrow> bool" where
  "gated s t \<longleftrightarrow> list_ex (\<lambda>(f, u). f = s \<and> u = t) HUMAN_GATED"

lemma gated_simps:
  "gated s MSupervised \<longleftrightarrow> s = MDraftAgent"
  "gated s MApproved \<longleftrightarrow> s = MSupervised \<or> s = MPaused"
  "gated s MAutonomous \<longleftrightarrow> s = MApproved \<or> s = MPaused"
  by (auto simp: gated_def HUMAN_GATED_def)

lemma mesh_can_into:
  "mesh_can s MSupervised \<longleftrightarrow> s \<in> {MDraftAgent, MApproved, MAutonomous, MPaused}"
  "mesh_can s MApproved \<longleftrightarrow> s = MSupervised \<or> s = MPaused"
  "mesh_can s MAutonomous \<longleftrightarrow> s = MApproved \<or> s = MPaused"
  "mesh_can s MPaused \<longleftrightarrow> s \<in> {MSupervised, MApproved, MAutonomous}"
  "\<not> mesh_can MRetired s"
  by (cases s; simp add: mesh_can_def MESH_TRANSITIONS_def)+

lemma evaluateMeshTransition_Allowed:
  "evaluateMeshTransition r = Allowed \<Longrightarrow> mesh_can (mr_from r) (mr_to r)
     \<and> (gated (mr_from r) (mr_to r) \<longrightarrow> human r)
     \<and> (mr_to r = MAutonomous \<longrightarrow> human_releases r)"
  by (auto simp: evaluateMeshTransition_def mesh_can_def gated_def mesh_decisions
      split: if_splits)

lemma mesh_promoted_step:
  assumes inv: "mesh_promoted es s" and step: "mesh_step_rel s r t"
  shows "mesh_promoted (es @ [r]) t"
proof -
  from step have t: "t = mr_to r" "mr_from r = s" and ok: "evaluateMeshTransition r = Allowed"
    by (auto elim!: mesh_stepE)
  show ?thesis
  proof (cases "t \<in> {MSupervised, MApproved, MAutonomous, MPaused}")
    case True
    with t evaluateMeshTransition_Allowed [OF ok] inv show ?thesis
      by (auto simp: mesh_promoted_def mesh_can_into gated_simps human_supervises_def human_approves_def)
  qed (simp add: mesh_promoted_def)
qed

interpretation mesh_machine: rel_invariant mesh_step_rel mesh_promoted
  by unfold_locales (rule mesh_promoted_step)

lemma agent_terminal: "s \<in> {Revoked, Archived} \<Longrightarrow> \<not> agent_step_rel s r t"
  by (auto simp: agent_step_simp evaluateTransition_Allowed canTransition_into)

lemma mesh_terminal: "\<not> mesh_step_rel MRetired r t"
  by (auto simp: mesh_step_simp mesh_can_into dest: evaluateMeshTransition_Allowed)

lemma steps_stuck:
  assumes "steps_to step s es t" and "\<And>r u. \<not> step s r u"
  shows "es = [] \<and> t = s"
  using assms by (induction rule: steps_to.induct) auto

section \<open>Shadow comparison as sets\<close>

definition change_keys :: "proposed_change list \<Rightarrow> string set" where
  "change_keys cs = change_key ` set cs"

lemma compareShadowRun_fields:
  "sc_matched (compareShadowRun i p a) = card (change_keys p \<inter> change_keys a)"
  "sc_missed (compareShadowRun i p a) = card (change_keys a) - card (change_keys p \<inter> change_keys a)"
  "sc_extra (compareShadowRun i p a) = card (change_keys p) - card (change_keys p \<inter> change_keys a)"
proof -
  have "length (filter (\<lambda>k. k \<in> set (js_set (map change_key a))) (js_set (map change_key p)))
      = card (change_keys p \<inter> change_keys a)"
    unfolding change_keys_def
    by (simp add: distinct_length_filter Int_commute)
  then show "sc_matched (compareShadowRun i p a) = card (change_keys p \<inter> change_keys a)"
    and "sc_missed (compareShadowRun i p a) = card (change_keys a) - card (change_keys p \<inter> change_keys a)"
    and "sc_extra (compareShadowRun i p a) = card (change_keys p) - card (change_keys p \<inter> change_keys a)"
    by (simp_all add: compareShadowRun_def Let_def length_js_set change_keys_def)
qed

lemma change_key_inject:
  assumes "CHR ''|'' \<notin> set (pc_object_ref c) \<union> set (pc_field c)"
    and "CHR ''|'' \<notin> set (pc_object_ref d) \<union> set (pc_field d)"
  shows "change_key c = change_key d \<longleftrightarrow> c = d"
  using assms by (cases c; cases d) (simp add: change_key_def sep_append_inject)

lemma missing_rules_Nil_iff:
  "sc_missing_rules (compareShadowRun i p a) = [] \<longleftrightarrow> change_keys p = change_keys a"
  by (auto simp: compareShadowRun_def Let_def change_keys_def filter_empty_conv image_iff)

lemma card_diff_Int_zero: "finite A \<Longrightarrow> card A - card (A \<inter> B) = 0 \<longleftrightarrow> A \<subseteq> B"
  by (metis Int_lower1 card_subset_eq card_mono diff_is_0_eq inf.absorb_iff1 le_antisym order_refl)

lemma finite_change_keys [simp]: "finite (change_keys cs)"
  by (simp add: change_keys_def)

lemma missed_extra_zero_iff:
  "sc_missed (compareShadowRun i p a) = 0 \<and> sc_extra (compareShadowRun i p a) = 0
     \<longleftrightarrow> change_keys p = change_keys a"
  using card_diff_Int_zero [of "change_keys a" "change_keys p"]
    card_diff_Int_zero [of "change_keys p" "change_keys a"]
  by (auto simp: compareShadowRun_fields Int_commute)

lemma round3_one [simp]: "round3 1 = 1"
  by (simp add: round3_def floor_eq_iff)

lemma agreement_one:
  assumes "change_keys p = change_keys a"
  shows "sc_agreement (compareShadowRun i p a) = 1"
proof -
  have same: "change_key ` set p = change_key ` set a"
    using assms by (simp add: change_keys_def)
  then have "filter (\<lambda>k. k \<in> change_key ` set a) (js_set (map change_key p)) = js_set (map change_key p)"
    by (auto simp: filter_id_conv)
  moreover have "length (js_set (map change_key p)) = length (js_set (map change_key a))"
    using same by (simp add: length_js_set)
  ultimately show ?thesis by (simp add: compareShadowRun_def Let_def)
qed

section \<open>Properties\<close>

text \<open>
  C16: However a draft became active, a user promoted it from shadow to supervised and a user,
  with the organization's policy allowing it, promoted it from supervised to active.
\<close>

theorem active_only_by_user_and_policy:
  assumes "steps_to agent_step_rel Draft es Active"
  shows "\<exists>r1 \<in> set es. \<exists>r2 \<in> set es. user_supervises r1 \<and> user_activates r2"
  using agent_machine.rel_run_keeps [OF assms]
  by (auto simp: promoted_def list_ex_iff)

definition fx_move :: "agent_state \<Rightarrow> agent_state \<Rightarrow> transition_request" where
  "fx_move f t = \<lparr>tr_from = f, tr_to = t, tr_actor = ActorUser, tr_org_policy_allows_activation = Some True\<rparr>"

lemma fx_move_step: "canTransition s t \<Longrightarrow> agent_step_rel s (fx_move s t) t"
  by (simp add: agent_step_simp fx_move_def evaluateTransition_def)

theorem active_only_by_user_and_policy_witness:
  "\<exists>r1 \<in> set [fx_move Draft Shadow, fx_move Shadow Supervised, fx_move Supervised Active].
     \<exists>r2 \<in> set [fx_move Draft Shadow, fx_move Shadow Supervised, fx_move Supervised Active].
       user_supervises r1 \<and> user_activates r2"
proof (rule active_only_by_user_and_policy)
  have "steps_to agent_step_rel Draft ((([] @ [fx_move Draft Shadow]) @ [fx_move Shadow Supervised])
      @ [fx_move Supervised Active]) Active"
    by ((rule steps_snoc)+, rule steps_refl)
      (rule fx_move_step, simp add: canTransition_def TRANSITIONS_def)+
  then show "steps_to agent_step_rel Draft
      [fx_move Draft Shadow, fx_move Shadow Supervised, fx_move Supervised Active] Active" by simp
qed

text \<open>
  A revoked or archived agent never leaves that state, and a retired mesh entry never runs
  again: no sequence of allowed requests leads out of them.
\<close>

theorem terminal_states_absorb:
  assumes "s = Revoked \<or> s = Archived"
  shows "(steps_to agent_step_rel s es t \<longleftrightarrow> es = [] \<and> t = s)
    \<and> (steps_to mesh_step_rel MRetired ms m \<longleftrightarrow> ms = [] \<and> m = MRetired)"
proof -
  have "\<not> agent_step_rel s r u" for r u using agent_terminal assms by blast
  then show ?thesis
    using steps_stuck [of agent_step_rel s es t] steps_stuck [of mesh_step_rel MRetired ms m] mesh_terminal
      steps_refl [of agent_step_rel s] steps_refl [of mesh_step_rel MRetired] by blast
qed

theorem terminal_states_absorb_witness:
  "\<not> steps_to agent_step_rel Revoked [fx_move Revoked Shadow] Shadow"
  using terminal_states_absorb [of Revoked "[fx_move Revoked Shadow]" Shadow "[]" MRetired] by simp

text \<open>
  C17: A mesh entry that became autonomous from observation was put under supervision by a
  person, and the request that made it autonomous was a person's, with the organization's policy
  allowing autonomy; no agreement score replaces either.
\<close>

theorem mesh_autonomy_needs_people_and_policy:
  assumes "steps_to mesh_step_rel MObserved es MAutonomous"
  shows "\<exists>r1 \<in> set es. human_supervises r1 \<and> es \<noteq> [] \<and> human_releases (last es)"
  using mesh_machine.rel_run_keeps [OF assms]
  by (auto simp: mesh_promoted_def list_ex_iff)

definition fx_mesh :: "mesh_state \<Rightarrow> mesh_state \<Rightarrow> mesh_actor \<Rightarrow> bool \<Rightarrow> mesh_request" where
  "fx_mesh f t a allowed = \<lparr>mr_from = f, mr_to = t, mr_actor = a, mr_shadow_agreement = None,
     mr_org_policy_allows_autonomy = Some allowed\<rparr>"

lemma fx_mesh_step:
  "mesh_can s t \<Longrightarrow> a = MeshSystem \<longrightarrow> \<not> gated s t \<Longrightarrow> \<not> (s = MShadowing \<and> t = MDraftAgent) \<Longrightarrow>
   t = MAutonomous \<longrightarrow> a \<noteq> MeshSystem \<and> allowed \<Longrightarrow> mesh_step_rel s (fx_mesh s t a allowed) t"
  by (cases a) (simp_all add: mesh_step_simp fx_mesh_def evaluateMeshTransition_def mesh_can_def gated_def)

definition fx_mesh_journey :: "bool \<Rightarrow> mesh_request list" where
  "fx_mesh_journey allowed = [fx_mesh MObserved MCandidateDetected MeshSystem allowed,
     fx_mesh MCandidateDetected MDraftAgent MeshSystem allowed,
     fx_mesh MDraftAgent MSupervised MeshUser allowed, fx_mesh MSupervised MApproved MeshUser allowed]"

lemma fx_mesh_approved: "steps_to mesh_step_rel MObserved (fx_mesh_journey allowed) MApproved"
proof -
  have "steps_to mesh_step_rel MObserved (((([] @ [fx_mesh MObserved MCandidateDetected MeshSystem allowed])
      @ [fx_mesh MCandidateDetected MDraftAgent MeshSystem allowed])
      @ [fx_mesh MDraftAgent MSupervised MeshUser allowed])
      @ [fx_mesh MSupervised MApproved MeshUser allowed]) MApproved"
    by ((rule steps_snoc)+, rule steps_refl)
      (rule fx_mesh_step, simp_all add: mesh_can_def MESH_TRANSITIONS_def gated_def HUMAN_GATED_def)+
  then show ?thesis by (simp add: fx_mesh_journey_def)
qed

theorem mesh_autonomy_needs_people_and_policy_witness:
  "human_releases (fx_mesh MApproved MAutonomous MeshAdmin True)"
proof -
  have "steps_to mesh_step_rel MObserved (fx_mesh_journey True @ [fx_mesh MApproved MAutonomous MeshAdmin True])
      MAutonomous"
    by (rule steps_snoc [OF fx_mesh_approved], rule fx_mesh_step) (simp_all add: mesh_can_into)
  from mesh_autonomy_needs_people_and_policy [OF this] show ?thesis by simp
qed




end
