(* ===== verification/Spec_Validator.thy ===== *)
theory Spec_Validator
  imports Fixtures Js_Lists
begin

text \<open>
  Static validation of an agent specification, \<open>packages/agent-runtime/src/validator.ts\<close>: every
  rejection rule in the order the code checks it, and the minimum-interval estimate for a cron
  expression. The schema layer is \<open>spec_schema\<close>; the issues the schema library reports are a
  parameter. The specification of the validator is \<open>well_formed_spec\<close>.
\<close>

definition MAX_STEPS :: nat where "MAX_STEPS = 20"
definition MAX_RUNTIME_SECONDS :: nat where "MAX_RUNTIME_SECONDS = 30 * 60"
definition MAX_RECORD_WRITES :: nat where "MAX_RECORD_WRITES = 500"
definition MIN_SCHEDULE_INTERVAL_MINUTES :: int where "MIN_SCHEDULE_INTERVAL_MINUTES = 15"

datatype validation_message = VText string | VExec string

record validation_issue =
  vi_rule :: string
  vi_message :: validation_message

datatype validation_result = Valid agent_spec | Invalid "validation_issue list"

definition issue :: "string \<Rightarrow> string \<Rightarrow> validation_issue" where
  "issue rule message = \<lparr>vi_rule = rule, vi_message = VText message\<rparr>"

section \<open>minCronIntervalMinutes\<close>

function split_ws :: "string \<Rightarrow> string \<Rightarrow> string list" where
  "split_ws cur [] = [rev cur]"
| "split_ws cur (c # cs) =
     (if js_ws c then rev cur # split_ws [] (dropWhile js_ws cs) else split_ws (c # cur) cs)"
by pat_completeness auto
termination
  by (relation "measure (\<lambda>(_, s). length s)") (auto intro: le_imp_less_Suc length_dropWhile_le)

definition all_digits :: "string \<Rightarrow> bool" where
  "all_digits s \<longleftrightarrow> s \<noteq> [] \<and> list_all is_digit s"

fun min_gap :: "int \<Rightarrow> int list \<Rightarrow> int" where
  "min_gap m (a # b # vs) = min_gap (min m (b - a)) (b # vs)"
| "min_gap m vs = m"

definition minute_interval :: "string \<Rightarrow> int option" where
  "minute_interval minute =
     (if minute = ''*'' then Some 1
      else if prefix ''*/'' minute \<and> all_digits (drop 2 minute) then Some (int (num_of (drop 2 minute)))
      else if all_digits minute then Some 60
      else (let parts = js_split CHR '','' minute in
        if length parts \<ge> 2 \<and> list_all all_digits parts then
          (let values = sort (map (\<lambda>p. int (num_of p)) parts) in
           Some (min_gap (60 - last values + hd values) values))
        else None))"

definition minCronIntervalMinutes :: "string \<Rightarrow> int option" where
  "minCronIntervalMinutes cron =
     (let parts = split_ws [] (js_trim cron) in
      if length parts \<noteq> 5 then None else minute_interval (hd parts))"

section \<open>validateAgentSpec\<close>

definition URL_LITERAL :: rx where
  "URL_LITERAL = Cat Bol (seq [lit_i ''http'', Rep (\<lambda>c. lower_char c = CHR ''s'') 0 (Some 1), lit ''://''])"

definition EXEC_LITERAL :: rx where
  "EXEC_LITERAL = alts [one_of '';&|`$'', lit_i ''<script'',
     seq [lit_i ''SELECT'', Rep js_ws 1 None, Rep (\<lambda>c. c \<noteq> CHR 10 \<and> c \<noteq> CHR 13) 0 None,
          Rep js_ws 1 None, lit_i ''FROM''],
     seq [lit_i ''DROP'', Rep js_ws 1 None, lit_i ''TABLE'']]"

definition outputs_by_step :: "agent_step list \<Rightarrow> (string, nat) jmap" where
  "outputs_by_step steps = foldl (\<lambda>m s. jset (st_output_key s) (st_order s) m) [] steps"

definition ref_text :: "agent_step \<Rightarrow> string \<Rightarrow> string \<Rightarrow> string" where
  "ref_text step inputName what = ''step '' @ st_id step @ '' input '' @ inputName @ what"

definition binding_issues :: "string list \<Rightarrow> (string, nat) jmap \<Rightarrow> agent_step \<Rightarrow> string \<times> step_binding
    \<Rightarrow> validation_issue list" where
  "binding_issues inputKeys outputsByStep step entry =
     (case snd entry of
       BAgentInput ref \<Rightarrow>
         (if ref \<notin> set inputKeys
          then [issue ''V-REF-1'' (ref_text step (fst entry) ('' references missing agent input '' @ ref))]
          else [])
     | BStepOutput ref \<Rightarrow>
         (case jget outputsByStep ref of
           None \<Rightarrow> [issue ''V-REF-2''
             (ref_text step (fst entry) ('' references missing step output '' @ ref))]
         | Some producerOrder \<Rightarrow>
             (if producerOrder \<ge> st_order step
              then [issue ''V-REF-3'' (''step '' @ st_id step @ '' references output '' @ ref
                      @ '' produced at or after it'')]
              else []))
     | BLiteral (LStr v) \<Rightarrow>
         (if looksLikeSecret v
          then [issue ''V-SECRET-1'' (''step '' @ st_id step @ '' contains a secret-shaped literal'')] else [])
         @ (if rx_test URL_LITERAL v
            then [issue ''V-URL-1'' (''step '' @ st_id step @ '' contains a URL literal'')] else [])
         @ (if rx_test EXEC_LITERAL v
            then [\<lparr>vi_rule = ''V-EXEC-1'', vi_message = VExec (st_id step)\<rparr>] else [])
     | BLiteral _ \<Rightarrow> [])"

definition mode_name :: "step_mode \<Rightarrow> string" where
  "mode_name m = (case m of Read \<Rightarrow> ''read'' | ProposeWrite \<Rightarrow> ''propose_write'' | Write \<Rightarrow> ''write'')"

definition capability_issues :: "agent_step \<Rightarrow> validation_issue list" where
  "capability_issues step =
     (let sid = ''step '' @ st_id step @ '': '' in
      case getCapability (st_capability_id step) of
        None \<Rightarrow> [issue ''V-CAP-1'' (sid @ ''capability '' @ st_capability_id step @ '' does not exist'')]
      | Some capability \<Rightarrow>
          (if cap_version capability \<noteq> st_capability_version step
           then [issue ''V-CAP-2'' (sid @ ''capability version '' @ dec (st_capability_version step)
                   @ '' unavailable (current '' @ dec (cap_version capability) @ '')'')] else [])
          @ (if st_mode step \<notin> set (cap_supported_modes capability)
             then [issue ''V-CAP-3'' (sid @ ''mode '' @ mode_name (st_mode step)
                     @ '' exceeds capability's supported modes'')] else [])
          @ (if st_mode step = Write \<and> ProposeWrite \<notin> set (cap_supported_modes capability)
             then [issue ''V-CAP-4'' (sid @ ''write capability lacks propose_write/dry-run'')] else [])
          @ (if st_risk_level step = Prohibited
             then [issue ''V-RISK-1'' (sid @ ''prohibited risk'')] else [])
          @ (if st_risk_level step = High \<and> \<not> ap_required (st_approval step)
             then [issue ''V-RISK-2'' (sid @ ''high-risk step lacks approval'')] else []))"

definition step_issues :: "string list \<Rightarrow> (string, nat) jmap \<Rightarrow> agent_step \<Rightarrow> validation_issue list" where
  "step_issues inputKeys outputsByStep step =
     concat (map (binding_issues inputKeys outputsByStep step) (st_inputs step)) @ capability_issues step"

definition contiguous :: "nat list \<Rightarrow> bool" where
  "contiguous orders \<longleftrightarrow> list_all (\<lambda>(i, k). k = i + 1) (entries_of (sort orders))"

definition shape_issues :: "agent_spec \<Rightarrow> validation_issue list" where
  "shape_issues spec =
     (if length (sp_steps spec) > MAX_STEPS
      then [issue ''V-STEPS-1'' (''spec has '' @ dec (length (sp_steps spec)) @ '' steps; maximum is ''
              @ dec MAX_STEPS)] else [])
     @ (if \<not> contiguous (map st_order (sp_steps spec))
        then [issue ''V-STEPS-2'' ''step order must be contiguous starting at 1 with no duplicates''] else [])
     @ (if length (js_set (map st_id (sp_steps spec))) \<noteq> length (sp_steps spec)
        then [issue ''V-STEPS-3'' ''duplicate step_id''] else [])"

definition budget_issues :: "agent_spec \<Rightarrow> validation_issue list" where
  "budget_issues spec =
     (if bg_max_runtime_seconds (sp_budgets spec) > MAX_RUNTIME_SECONDS
      then [issue ''V-BUDGET-1'' (''max runtime '' @ dec (bg_max_runtime_seconds (sp_budgets spec))
              @ ''s exceeds thirty minutes'')] else [])
     @ (if bg_max_records_written (sp_budgets spec) > MAX_RECORD_WRITES
        then [issue ''V-BUDGET-2'' (''max record writes '' @ dec (bg_max_records_written (sp_budgets spec))
                @ '' exceeds '' @ dec MAX_RECORD_WRITES)] else [])"

definition schedule_issues :: "agent_spec \<Rightarrow> validation_issue list" where
  "schedule_issues spec = (case sp_trigger spec of
       TSchedule cron timezone \<Rightarrow>
         (case minCronIntervalMinutes cron of
           None \<Rightarrow> [issue ''V-SCHED-2'' ''unparseable cron expression'']
         | Some interval \<Rightarrow>
             (if interval < MIN_SCHEDULE_INTERVAL_MINUTES
              then [issue ''V-SCHED-1'' (''schedule repeats every '' @ dec_int interval
                      @ '' minutes; minimum is '' @ dec_int MIN_SCHEDULE_INTERVAL_MINUTES)]
              else []))
     | _ \<Rightarrow> [])"

definition schema_issues :: "zod \<Rightarrow> agent_spec \<Rightarrow> validation_issue list" where
  "schema_issues z raw = map (\<lambda>(path, message).
     issue ''V-SCHEMA'' (join_str ''.'' path @ '': '' @ message)) (z_issues z raw)"

definition validateAgentSpec :: "zod \<Rightarrow> agent_spec \<Rightarrow> validation_result" where
  "validateAgentSpec z raw =
     (if \<not> spec_schema z raw then Invalid (schema_issues z raw)
      else (let spec = raw;
                issues = shape_issues spec
                  @ concat (map (step_issues (js_set (map in_key (sp_inputs spec)))
                                   (outputs_by_step (sp_steps spec))) (sp_steps spec))
                  @ budget_issues spec @ schedule_issues spec
            in if issues \<noteq> [] then Invalid issues else Valid spec))"

section \<open>The specification of the validator\<close>

definition literal_ok :: "string \<Rightarrow> bool" where
  "literal_ok v \<longleftrightarrow> \<not> looksLikeSecret v \<and> \<not> rx_test URL_LITERAL v \<and> \<not> rx_test EXEC_LITERAL v"

definition binding_ok :: "agent_spec \<Rightarrow> agent_step \<Rightarrow> step_binding \<Rightarrow> bool" where
  "binding_ok spec step b = (case b of
       BAgentInput ref \<Rightarrow> ref \<in> in_key ` set (sp_inputs spec)
     | BStepOutput ref \<Rightarrow>
         (case List.find (\<lambda>p. st_output_key p = ref) (rev (sp_steps spec)) of
            None \<Rightarrow> False | Some producer \<Rightarrow> st_order producer < st_order step)
     | BLiteral (LStr v) \<Rightarrow> literal_ok v
     | BLiteral _ \<Rightarrow> True)"

definition step_capability_ok :: "agent_step \<Rightarrow> bool" where
  "step_capability_ok step = (case getCapability (st_capability_id step) of
       None \<Rightarrow> False
     | Some c \<Rightarrow> cap_version c = st_capability_version step \<and> st_mode step \<in> set (cap_supported_modes c)
         \<and> (st_mode step = Write \<longrightarrow> ProposeWrite \<in> set (cap_supported_modes c))
         \<and> st_risk_level step \<noteq> Prohibited
         \<and> (st_risk_level step = High \<longrightarrow> ap_required (st_approval step)))"

definition schedule_ok :: "agent_trigger \<Rightarrow> bool" where
  "schedule_ok t = (case t of
       TSchedule cron timezone \<Rightarrow> (case minCronIntervalMinutes cron of None \<Rightarrow> False | Some n \<Rightarrow> 15 \<le> n)
     | _ \<Rightarrow> True)"

definition well_formed_spec :: "agent_spec \<Rightarrow> bool" where
  "well_formed_spec spec \<longleftrightarrow>
     length (sp_steps spec) \<le> 20
     \<and> sort (map st_order (sp_steps spec)) = [1..<Suc (length (sp_steps spec))]
     \<and> distinct (map st_id (sp_steps spec))
     \<and> (\<forall>step \<in> set (sp_steps spec). step_capability_ok step
          \<and> (\<forall>(name, b) \<in> set (st_inputs step). binding_ok spec step b))
     \<and> bg_max_runtime_seconds (sp_budgets spec) \<le> 1800
     \<and> bg_max_records_written (sp_budgets spec) \<le> 500
     \<and> schedule_ok (sp_trigger spec)"

lemma contiguous_iff: "contiguous orders \<longleftrightarrow> sort orders = [1..<Suc (length orders)]"
proof -
  have "contiguous orders \<longleftrightarrow> (\<forall>i < length orders. sort orders ! i = i + 1)"
    by (auto simp: contiguous_def entries_of_def list_all_iff nth_enumerate_eq all_set_conv_all_nth)
  also have "\<dots> \<longleftrightarrow> sort orders = [1..<Suc (length orders)]"
    by (subst list_eq_iff_nth_eq) (simp add: nth_upt del: upt_Suc)
  finally show ?thesis .
qed

lemma distinct_js_set_iff: "length (js_set xs) = length xs \<longleftrightarrow> distinct xs"
  by (metis card_distinct distinct_card length_js_set)

lemma outputs_by_step_get:
  "jget (outputs_by_step steps) ref =
     map_option st_order (List.find (\<lambda>p. st_output_key p = ref) (rev steps))"
proof (induction steps rule: rev_induct)
  case Nil
  then show ?case by (simp add: outputs_by_step_def jget_def)
next
  case (snoc s ss)
  then show ?case by (simp add: outputs_by_step_def jm.lookup_insert)
qed

lemma shape_issues_Nil_iff:
  "shape_issues spec = [] \<longleftrightarrow> length (sp_steps spec) \<le> 20
     \<and> sort (map st_order (sp_steps spec)) = [1..<Suc (length (sp_steps spec))]
     \<and> distinct (map st_id (sp_steps spec))"
  by (auto simp: shape_issues_def MAX_STEPS_def contiguous_iff distinct_js_set_iff [symmetric]
      simp del: upt_Suc)

lemma binding_issues_Nil_iff:
  "binding_issues (js_set (map in_key (sp_inputs spec))) (outputs_by_step (sp_steps spec)) step e = []
     \<longleftrightarrow> binding_ok spec step (snd e)"
  by (auto simp: binding_issues_def binding_ok_def literal_ok_def outputs_by_step_get
      split: step_binding.splits literal.splits option.splits)

lemma capability_issues_Nil_iff: "capability_issues step = [] \<longleftrightarrow> step_capability_ok step"
  by (auto simp: capability_issues_def step_capability_ok_def Let_def split: option.splits)

lemma step_issues_Nil_iff:
  "step_issues (js_set (map in_key (sp_inputs spec))) (outputs_by_step (sp_steps spec)) step = []
     \<longleftrightarrow> step_capability_ok step \<and> (\<forall>(name, b) \<in> set (st_inputs step). binding_ok spec step b)"
  by (auto simp: step_issues_def binding_issues_Nil_iff capability_issues_Nil_iff)

lemma budget_issues_Nil_iff:
  "budget_issues spec = [] \<longleftrightarrow> bg_max_runtime_seconds (sp_budgets spec) \<le> 1800
     \<and> bg_max_records_written (sp_budgets spec) \<le> 500"
  by (auto simp: budget_issues_def MAX_RUNTIME_SECONDS_def MAX_RECORD_WRITES_def)

lemma schedule_issues_Nil_iff: "schedule_issues spec = [] \<longleftrightarrow> schedule_ok (sp_trigger spec)"
  by (auto simp: schedule_issues_def schedule_ok_def MIN_SCHEDULE_INTERVAL_MINUTES_def
      split: agent_trigger.splits option.splits)

lemmas issues_Nil_iff = shape_issues_Nil_iff step_issues_Nil_iff budget_issues_Nil_iff
  schedule_issues_Nil_iff

lemma validate_exact:
  "validateAgentSpec z raw = Valid spec \<longleftrightarrow> raw = spec \<and> spec_schema z spec \<and> well_formed_spec spec"
  by (auto simp: validateAgentSpec_def Let_def issues_Nil_iff well_formed_spec_def simp del: upt_Suc)

section \<open>The order of the data flow\<close>

lemma sorted_orders:
  assumes "well_formed_spec spec" and "sort_key st_order (sp_steps spec) = pre @ s # post"
    and "p \<in> set (sp_steps spec)" and "st_order p < st_order s"
  shows "p \<in> set pre"
proof -
  have "sorted (map st_order (sort_key st_order (sp_steps spec)))" by (rule sorted_sort_key)
  with assms(2) have "\<forall>q \<in> set (s # post). st_order s \<le> st_order q"
    by (auto simp: sorted_append)
  moreover have "p \<in> set (pre @ s # post)" using assms(2, 3) by (metis set_sort)
  ultimately show ?thesis using assms(4) by fastforce
qed

section \<open>The gaps of a minute list\<close>

lemma min_gap_le: "min_gap m vs \<le> m"
proof (induction m vs rule: min_gap.induct)
  case (1 m a b vs)
  then show ?case by (simp add: min.coboundedI1 order_trans)
qed simp_all

lemma min_gap_adjacent: "Suc i < length vs \<Longrightarrow> min_gap m vs \<le> vs ! Suc i - vs ! i"
proof (induction m vs arbitrary: i rule: min_gap.induct)
  case (1 m a b vs)
  show ?case
  proof (cases i)
    case 0
    then show ?thesis using min_gap_le [of "min m (b - a)" "b # vs"] by simp
  next
    case (Suc j)
    then show ?thesis using 1 by simp
  qed
qed simp_all

lemma min_gap_pair:
  assumes "sorted vs" and "i < j" and "j < length vs"
  shows "min_gap m vs \<le> vs ! j - vs ! i"
proof -
  have "vs ! Suc i \<le> vs ! j" using assms by (simp add: sorted_iff_nth_mono)
  then show ?thesis using min_gap_adjacent [of i vs m] assms by force
qed

lemma all_digits_dec: "all_digits (dec n)"
  using dec_digits [of n] by (auto simp: all_digits_def dec.simps [of n])

section \<open>A specification the witnesses use\<close>

definition fx_zod :: zod where
  "fx_zod = \<lparr>z_uuid = \<lambda>_. True, z_url = \<lambda>_. True, z_issues = \<lambda>_. []\<rparr>"

definition fx_three :: agent_spec where
  "fx_three = fx_spec [fx_read, fx_propose, fx_write True]"

lemma fx_three_schema: "spec_schema fx_zod fx_three"
  by (simp add: schema_defs fx_zod_def fx_three_def fx_defs)

lemma fx_three_steps_ok:
  "step \<in> {fx_read, fx_propose, fx_write True} \<Longrightarrow>
     step_capability_ok step \<and> (\<forall>(name, b) \<in> set (st_inputs step). binding_ok fx_three step b)"
  by (auto simp: fx_three_def fx_step_defs step_capability_ok_def fx_caps binding_ok_def)
    (simp_all add: cap_def)

lemma fx_three_well_formed: "well_formed_spec fx_three"
  unfolding well_formed_spec_def
proof (intro conjI)
  show "\<forall>step \<in> set (sp_steps fx_three). step_capability_ok step
      \<and> (\<forall>(name, b) \<in> set (st_inputs step). binding_ok fx_three step b)"
    using fx_three_steps_ok by (simp add: fx_three_def)
  show "schedule_ok (sp_trigger fx_three)" by (simp add: schedule_ok_def fx_three_def fx_spec_def)
qed (simp_all add: fx_three_def fx_defs)

lemma fx_three_valid: "validateAgentSpec fx_zod fx_three = Valid fx_three"
  by (simp add: validate_exact fx_three_schema fx_three_well_formed)

section \<open>Properties\<close>


text \<open>
  C33: Running the steps of an accepted specification in their order never reads a value that is
  not there: whatever a step binds to a step output was produced by a step before it, and
  whatever it binds to an agent input is declared.
\<close>

theorem validated_dataflow_is_ordered:
  assumes valid: "validateAgentSpec z raw = Valid spec"
    and order: "sort_key st_order (sp_steps spec) = pre @ step # post"
    and entry: "(name, b) \<in> set (st_inputs step)"
  shows "(\<forall>ref. b = BStepOutput ref \<longrightarrow> ref \<in> st_output_key ` set pre)
    \<and> (\<forall>ref. b = BAgentInput ref \<longrightarrow> ref \<in> in_key ` set (sp_inputs spec))"
proof -
  have wf: "well_formed_spec spec" using valid by (simp add: validate_exact)
  have "step \<in> set (sp_steps spec)" using order by (metis in_set_conv_decomp set_sort)
  with wf entry have ok: "binding_ok spec step b" by (fastforce simp: well_formed_spec_def)
  have "ref \<in> st_output_key ` set pre" if "b = BStepOutput ref" for ref
  proof -
    from ok that obtain p where p: "List.find (\<lambda>p. st_output_key p = ref) (rev (sp_steps spec)) = Some p"
      and less: "st_order p < st_order step" by (auto simp: binding_ok_def split: option.splits)
    from p have "p \<in> set (sp_steps spec)" "st_output_key p = ref"
      using find_SomeD [OF p] by auto
    then show ?thesis using sorted_orders [OF wf order _ less] by blast
  qed
  then show ?thesis using ok by (cases b) (simp_all add: binding_ok_def)
qed

theorem validated_dataflow_is_ordered_witness:
  "''diff'' \<in> st_output_key ` set [fx_read, fx_propose]"
proof -
  have valid: "validateAgentSpec fx_zod fx_three = Valid fx_three" by (rule fx_three_valid)
  have order: "sort_key st_order (sp_steps fx_three) = [fx_read, fx_propose] @ fx_write True # []"
    by (simp add: fx_three_def fx_step_defs)
  have "(''proposal'', BStepOutput ''diff'') \<in> set (st_inputs (fx_write True))"
    by (simp add: fx_step_defs)
  from validated_dataflow_is_ordered [OF valid order this] show ?thesis by blast
qed

text \<open>
  For a minute field that lists minutes, the estimated interval never exceeds the time between
  two firings, within the hour or around it: a list the validator accepts really fires at
  least fifteen minutes apart.
\<close>

theorem cron_list_gap_conservative:
  assumes parts: "parts = js_split CHR '','' minute" "length parts \<ge> 2" "list_all all_digits parts"
    and not_single: "minute \<noteq> ''*''" "\<not> prefix ''*/'' minute" "\<not> all_digits minute"
    and minutes: "vs = sort (map (\<lambda>p. int (num_of p)) parts)" "i < j" "j < length vs"
  shows "\<exists>n. minute_interval minute = Some n \<and> n \<le> vs ! j - vs ! i \<and> n \<le> 60 - vs ! j + vs ! i"
proof -
  have sorted: "sorted vs" using minutes by simp
  have ne: "vs \<noteq> []" using minutes(3) by auto
  have "vs ! j \<le> vs ! (length vs - 1)"
    by (rule sorted_nth_mono [OF sorted]) (use minutes(3) in auto)
  moreover have "vs ! 0 \<le> vs ! i"
    by (rule sorted_nth_mono [OF sorted]) (use minutes(2, 3) in auto)
  ultimately have "vs ! j \<le> last vs" "hd vs \<le> vs ! i"
    by (simp_all add: ne last_conv_nth hd_conv_nth)
  then have "min_gap (60 - last vs + hd vs) vs \<le> 60 - vs ! j + vs ! i"
    using min_gap_le [of "60 - last vs + hd vs" vs] by linarith
  moreover have "min_gap (60 - last vs + hd vs) vs \<le> vs ! j - vs ! i"
    by (rule min_gap_pair [OF sorted minutes(2, 3)])
  moreover have "minute_interval minute = Some (min_gap (60 - last vs + hd vs) vs)"
    using parts not_single minutes(1) by (simp add: minute_interval_def Let_def)
  ultimately show ?thesis by blast
qed

theorem cron_list_gap_conservative_witness:
  "\<exists>n. minute_interval ''0,20,40'' = Some n \<and> n \<le> 20 - 0 \<and> n \<le> 60 - 20 + 0"
proof -
  have "[''0'', ''20'', ''40''] = js_split CHR '','' ''0,20,40''" by code_simp
  moreover have "num_of ''0'' = 0" "num_of ''20'' = 20" "num_of ''40'' = 40" by code_simp+
  moreover have "list_all all_digits [''0'', ''20'', ''40'']" "\<not> all_digits ''0,20,40''"
    by code_simp+
  ultimately show ?thesis
    using cron_list_gap_conservative [of "[''0'', ''20'', ''40'']" "''0,20,40''" "[0, 20, 40]" 0 1]
    by simp
qed



end
