(* ===== verification/Diff_Digest.thy ===== *)
theory Diff_Digest
  imports Prelude "HOL-Library.Word"
begin

text \<open>
  The diff a run proposes and the digest its approval is bound to
  (\<open>packages/agent-runtime/src/adapters.ts\<close>, \<open>demo-fixtures/src/salesforce.ts\<close>): the JSON text
  of a diff and eight 32-bit FNV-1a lanes over it. The lemmas show that the JSON text determines
  the diff, so that two diffs share a digest only by a collision of the hash.
\<close>

unbundle bit_operations_syntax

section \<open>Diffs\<close>

record diff_summary =
  ds_input_rows :: int
  ds_confident_matches :: int
  ds_ambiguous_skipped :: int
  ds_missing :: int
  ds_change_count :: int
  ds_accounts_affected :: int

record field_change =
  fc_account_id :: string
  fc_account_name :: string
  fc_field :: string
  fc_old_value :: string
  fc_new_value :: string

record proposed_diff =
  df_summary :: diff_summary
  df_changes :: "field_change list"

section \<open>JSON.stringify of a diff\<close>

definition hex_digit :: "nat \<Rightarrow> char" where
  "hex_digit n = (if n < 10 then char_of (48 + n) else char_of (87 + n))"

definition json_char :: "char \<Rightarrow> string" where
  "json_char c = (let n = of_char c :: nat in
     if n = 34 then [CHR 0x5C, CHR 0x22]
     else if n = 92 then [CHR 0x5C, CHR 0x5C]
     else if n = 8 then [CHR 0x5C, CHR ''b'']
     else if n = 9 then [CHR 0x5C, CHR ''t'']
     else if n = 10 then [CHR 0x5C, CHR ''n'']
     else if n = 12 then [CHR 0x5C, CHR ''f'']
     else if n = 13 then [CHR 0x5C, CHR ''r'']
     else if n < 32 then CHR 0x5C # ''u00'' @ [hex_digit (n div 16), hex_digit (n mod 16)]
     else [c])"

definition json_string :: "string \<Rightarrow> string" where
  "json_string s = CHR 0x22 # concat (map json_char s) @ [CHR 0x22]"

definition json_obj :: "(string \<times> string) list \<Rightarrow> string" where
  "json_obj fs = ''{'' @ join_str '','' (map (\<lambda>(k, v). json_string k @ '':'' @ v) fs) @ ''}''"

definition json_arr :: "string list \<Rightarrow> string" where
  "json_arr vs = ''['' @ join_str '','' vs @ '']''"

definition json_summary :: "diff_summary \<Rightarrow> string" where
  "json_summary s = json_obj
     [(''input_rows'', dec_int (ds_input_rows s)),
      (''confident_matches'', dec_int (ds_confident_matches s)),
      (''ambiguous_skipped'', dec_int (ds_ambiguous_skipped s)),
      (''missing'', dec_int (ds_missing s)),
      (''change_count'', dec_int (ds_change_count s)),
      (''accounts_affected'', dec_int (ds_accounts_affected s))]"

definition json_change :: "field_change \<Rightarrow> string" where
  "json_change c = json_obj
     [(''account_id'', json_string (fc_account_id c)),
      (''account_name'', json_string (fc_account_name c)),
      (''field'', json_string (fc_field c)),
      (''old_value'', json_string (fc_old_value c)),
      (''new_value'', json_string (fc_new_value c))]"

definition json_diff :: "proposed_diff \<Rightarrow> string" where
  "json_diff d = json_obj
     [(''summary'', json_summary (df_summary d)),
      (''changes'', json_arr (map json_change (df_changes d)))]"

section \<open>diffSha256\<close>

definition fnv_seeds :: "32 word list" where
  "fnv_seeds = [0x811c9dc5, 0x01000193, 0x9e3779b9, 0x85ebca6b, 0xc2b2ae35, 0x27d4eb2f, 0x165667b1,
     0xdeadbeef]"

definition fnv_lane :: "string \<Rightarrow> 32 word \<Rightarrow> 32 word" where
  "fnv_lane input seed = foldl (\<lambda>h c. (h XOR word_of_nat (of_char c)) * 0x01000193) seed input"

definition hex8 :: "32 word \<Rightarrow> string" where
  "hex8 h = map (\<lambda>i. hex_digit (unat h div 16 ^ (7 - i) mod 16)) [0..<8]"

definition diffSha256 :: "proposed_diff \<Rightarrow> string" where
  "diffSha256 diff = concat (map (\<lambda>seed. hex8 (fnv_lane (json_diff diff) seed)) fnv_seeds)"

section \<open>The JSON text determines the diff\<close>

definition hex_val :: "char \<Rightarrow> nat" where
  "hex_val c = (let n = of_char c :: nat in if n < 58 then n - 48 else n - 87)"

lemma hex_val_digit [simp]: "n < 16 \<Longrightarrow> hex_val (hex_digit n) = n"
  by (simp add: hex_val_def hex_digit_def Let_def of_char_of)

fun json_unescape :: "string \<Rightarrow> (char \<times> string) option" where
  "json_unescape (e # r) =
     (if e = CHR 0x22 then Some (CHR 0x22, r)
      else if e = CHR 0x5C then Some (CHR 0x5C, r)
      else if e = CHR ''b'' then Some (CHR 8, r)
      else if e = CHR ''t'' then Some (CHR 9, r)
      else if e = CHR ''n'' then Some (CHR 10, r)
      else if e = CHR ''f'' then Some (CHR 12, r)
      else if e = CHR ''r'' then Some (CHR 13, r)
      else (case r of (_ # _ # a # b # r') \<Rightarrow> Some (char_of (16 * hex_val a + hex_val b), r') | _ \<Rightarrow> None))"
| "json_unescape [] = None"

definition json_unchar :: "string \<Rightarrow> (char \<times> string) option" where
  "json_unchar s = (case s of [] \<Rightarrow> None
     | c # r \<Rightarrow> if c = CHR 0x5C then json_unescape r else Some (c, r))"

lemma char_eqI: "(of_char c :: nat) = of_char d \<Longrightarrow> c = d"
  by (metis char_of_char)

lemma escape_chars:
  "char_of (34 :: nat) = CHR 0x22" "char_of (92 :: nat) = CHR 0x5C" "char_of (8 :: nat) = CHR 8"
  "char_of (9 :: nat) = CHR 9" "char_of (10 :: nat) = CHR 10" "char_of (12 :: nat) = CHR 12"
  "char_of (13 :: nat) = CHR 13"
  by code_simp+

lemma json_unchar_char [simp]: "json_unchar (json_char c @ r) = Some (c, r)"
proof -
  let ?n = "of_char c :: nat"
  have c: "c = char_of ?n" by simp
  have n16: "?n < 32 \<Longrightarrow> hex_val (hex_digit (?n div 16)) = ?n div 16"
    "hex_val (hex_digit (?n mod 16)) = ?n mod 16"
    by simp_all
  have special: "?n = k \<Longrightarrow> c = char_of k" for k by (metis c)
  consider "?n \<in> {34, 92, 8, 9, 10, 12, 13}" | "?n < 32" "?n \<notin> {8, 9, 10, 12, 13}"
    | "?n \<ge> 32" "?n \<noteq> 34" "?n \<noteq> 92" by force
  then show ?thesis
  proof cases
    case 1
    then show ?thesis
      by (auto simp: json_char_def json_unchar_def Let_def escape_chars dest!: special)
  next
    case 2
    then have "json_char c = CHR 0x5C # ''u00'' @ [hex_digit (?n div 16), hex_digit (?n mod 16)]"
      by (simp add: json_char_def Let_def)
    moreover have "16 * (?n div 16) + ?n mod 16 = ?n" by simp
    ultimately show ?thesis using 2 n16 by (simp add: json_unchar_def)
  next
    case 3
    then have "c \<noteq> CHR 0x5C" by auto
    with 3 show ?thesis by (simp add: json_char_def json_unchar_def Let_def)
  qed
qed

lemma json_char_not_quote: "json_char c @ r \<noteq> CHR 0x22 # s"
proof
  assume "json_char c @ r = CHR 0x22 # s"
  then have "hd (json_char c @ r) = CHR 0x22" by simp
  then show False by (auto simp: json_char_def Let_def split: if_splits)
qed

lemma json_char_inject: "json_char c @ r = json_char d @ s \<longleftrightarrow> c = d \<and> r = s"
  by (metis json_unchar_char option.inject prod.inject)

lemma json_chars_inject:
  "concat (map json_char s) @ CHR 0x22 # r = concat (map json_char s') @ CHR 0x22 # r'
     \<longleftrightarrow> s = s' \<and> r = r'"
proof (induction s arbitrary: s')
  case Nil
  show ?case
    using json_char_not_quote by (cases s') (auto, metis append.assoc)
next
  case (Cons c s)
  show ?case
  proof (cases s')
    case Nil
    then show ?thesis using json_char_not_quote by simp
  next
    case (Cons d t)
    then show ?thesis using Cons.IH by (simp add: json_char_inject)
  qed
qed

lemma json_string_inject: "json_string s @ r = json_string s' @ r' \<longleftrightarrow> s = s' \<and> r = r'"
  by (simp add: json_string_def json_chars_inject)

lemma dec_int_chars: "CHR '','' \<notin> set (dec_int i)" "CHR ''}'' \<notin> set (dec_int i)"
  using dec_no_char [of "CHR '',''"] dec_no_char [of "CHR ''}''"]
  by (auto simp: dec_int_def is_digit_def)

lemma dec_hd: "is_digit (hd (dec n))" "dec n \<noteq> []"
  using dec_digits [of n] by (auto simp: list_all_iff dec.simps [of n])

lemma dec_int_inject [simp]: "dec_int i = dec_int j \<longleftrightarrow> i = j"
proof -
  have minus: "dec m \<noteq> CHR ''-'' # s" for m s
    using dec_no_char [of "CHR ''-''" m] by (auto simp: is_digit_def)
  show ?thesis using minus by (auto simp: dec_int_def) (metis minus)+
qed

lemma json_number_inject:
  "dec_int i @ CHR '','' # r = dec_int j @ CHR '','' # s \<longleftrightarrow> i = j \<and> r = s"
  "dec_int i @ CHR ''}'' # r = dec_int j @ CHR ''}'' # s \<longleftrightarrow> i = j \<and> r = s"
  by (simp_all add: sep_append_inject dec_int_chars)

lemma json_summary_inject: "json_summary s @ r = json_summary s' @ r' \<longleftrightarrow> s = s' \<and> r = r'"
  by (cases s; cases s') (simp add: json_summary_def json_obj_def json_number_inject conj_assoc)

lemma json_change_inject: "json_change c @ r = json_change c' @ r' \<longleftrightarrow> c = c' \<and> r = r'"
  by (cases c; cases c') (simp add: json_change_def json_obj_def json_string_inject conj_assoc)

lemma join_str_Cons: "join_str sep (w # ws) = w @ concat (map (\<lambda>v. sep @ v) ws)"
  by (induction ws arbitrary: w) simp_all

lemma json_changes_tail_inject:
  "concat (map (\<lambda>v. '','' @ json_change v) cs) @ CHR '']'' # r
     = concat (map (\<lambda>v. '','' @ json_change v) cs') @ CHR '']'' # r' \<longleftrightarrow> cs = cs' \<and> r = r'"
proof (induction cs arbitrary: cs')
  case Nil
  show ?case by (cases cs') auto
next
  case (Cons c cs)
  then show ?case by (cases cs') (auto simp: json_change_inject)
qed

lemma json_change_not_close: "json_change c @ s \<noteq> CHR '']'' # t"
  by (simp add: json_change_def json_obj_def)

lemma json_arr_Cons:
  "json_arr (map json_change (c # cs)) @ r
     = CHR ''['' # json_change c @ concat (map (\<lambda>v. '','' @ json_change v) cs) @ CHR '']'' # r"
  by (simp add: json_arr_def join_str_Cons comp_def del: join_str.simps)

lemma json_arr_Nil: "json_arr (map json_change []) @ r = CHR ''['' # CHR '']'' # r"
  by (simp add: json_arr_def)

lemma json_changes_inject:
  "json_arr (map json_change cs) @ r = json_arr (map json_change cs') @ r' \<longleftrightarrow> cs = cs' \<and> r = r'"
proof (cases cs; cases cs')
  fix c ds c' ds'
  assume eqs: "cs = c # ds" "cs' = c' # ds'"
  show ?thesis
    unfolding eqs json_arr_Cons list.inject json_change_inject json_changes_tail_inject by blast
qed (use json_change_not_close in \<open>simp_all only: json_arr_Cons json_arr_Nil list.inject
      list.distinct simp_thms, simp_all, metis+\<close>)

lemma json_diff_inject: "json_diff d = json_diff d' \<longleftrightarrow> d = d'"
proof -
  have "json_diff d = json_diff d' \<longleftrightarrow> json_diff d @ [] = json_diff d' @ []" by simp
  also have "\<dots> \<longleftrightarrow> d = d'"
    by (cases d; cases d')
      (simp add: json_diff_def json_obj_def json_summary_inject json_changes_inject
        json_changes_inject [where r = "[]" and r' = "[]", simplified])
  finally show ?thesis .
qed

lemma length_hex8 [simp]: "length (hex8 h) = 8"
  by (simp add: hex8_def)

lemma hex8_inject: "hex8 g = hex8 h \<longleftrightarrow> g = h"
proof
  assume eq: "hex8 g = hex8 h"
  have digit: "unat g div 16 ^ k mod 16 = unat h div 16 ^ k mod 16" if "k < 8" for k
  proof -
    have "hex8 g ! (7 - k) = hex8 h ! (7 - k)" using eq by simp
    moreover have "[0..<8] ! (7 - k) = 7 - k" using nth_upt [of 0 "7 - k" 8] by simp
    moreover have "7 - (7 - k) = k" using that by simp
    ultimately have "hex_digit (unat g div 16 ^ k mod 16) = hex_digit (unat h div 16 ^ k mod 16)"
      by (simp add: hex8_def)
    then show ?thesis by (metis hex_val_digit mod_less_divisor zero_less_numeral)
  qed
  have bound: "unat g < 16 ^ 8" "unat h < 16 ^ 8"
    using unsigned_less [of g, where ?'a = nat] unsigned_less [of h, where ?'a = nat] by simp_all
  have split: "n mod 16 ^ Suc k = n mod 16 ^ k + 16 ^ k * (n div 16 ^ k mod 16)" for n k :: nat
    by (metis mod_mult2_eq mult.commute power_Suc add.commute)
  have "unat g mod 16 ^ k = unat h mod 16 ^ k" if "k \<le> 8" for k
    using that
  proof (induction k)
    case (Suc k)
    then show ?case using digit [of k] by (simp only: split)
  qed simp
  from this [of 8] bound show "g = h" by (simp add: word_unat_eq_iff)
qed simp

section \<open>Properties\<close>

text \<open>
  C32: An approval digest is 64 characters, and it pins the proposal down to a collision of the
  hash: two diffs have the same digest exactly when their JSON texts agree in each of the eight
  FNV-1a lanes, and two diffs with the same JSON text are the same diff, however their strings
  quote or nest.
\<close>

theorem diffSha256_determines_diff:
  "length (diffSha256 d) = 64
   \<and> (diffSha256 d = diffSha256 d' \<longleftrightarrow>
        map (fnv_lane (json_diff d)) fnv_seeds = map (fnv_lane (json_diff d')) fnv_seeds)
   \<and> (json_diff d = json_diff d' \<longleftrightarrow> d = d')"
  by (simp add: json_diff_inject diffSha256_def fnv_seeds_def hex8_inject)

end
