(* ===== verification/Run_Engine.thy ===== *)
theory Run_Engine
  imports Spec_Validator Diff_Digest
begin

text \<open>
  The step executor (\<open>packages/agent-runtime/src/run-engine.ts\<close>), the parts of
  \<open>adapters.ts\<close> it relies on (the error classes and the adapter interface),
  the runtime readiness check (\<open>runtime-capabilities.ts\<close>) and the input check
  (\<open>agent-inputs.ts\<close>). An adapter is a record of optional functions on a world of any type;
  what a call does to that world is the adapter's own. A promise that rejects is an \<open>Inl\<close>.
\<close>

section \<open>Values and adapters\<close>

datatype jvalue = JUndefined | JNull | JBool bool | JNum rat | JStr string | JArr "jvalue list"
  | JObj "(string \<times> jvalue) list" | JDiff proposed_diff

datatype missing_reason = NoAdapter | ModeUnsupported | PrerequisiteUnmet | NotInCatalog

record missing_capability =
  mc_capability_id :: string
  mc_step_id :: string
  mc_reason :: missing_reason
  mc_detail :: string

record runtime_readiness =
  rr_ready :: bool
  rr_runtime_id :: string
  rr_missing :: "missing_capability list"

datatype run_error =
    TransientAdapterError string
  | PermanentAdapterError string
  | RuntimeCapabilityError runtime_readiness
  | OtherError string

record capability_context =
  cx_run_id :: string
  cx_organization_id :: string
  cx_owner_user_id :: string
  cx_mode :: run_mode

type_synonym js_object = "(string, jvalue) jmap"
type_synonym ('w, 'a) effect = "'w \<Rightarrow> (run_error + 'a) \<times> 'w"

record verification =
  vf_verified :: bool
  vf_detail :: string

record 'w adapter =
  ad_id :: string
  ad_read :: "(js_object \<Rightarrow> capability_context \<Rightarrow> ('w, jvalue) effect) option"
  ad_proposeWrite :: "(js_object \<Rightarrow> capability_context \<Rightarrow> ('w, proposed_diff) effect) option"
  ad_write :: "(js_object \<Rightarrow> proposed_diff \<Rightarrow> capability_context \<Rightarrow> string \<Rightarrow> ('w, jvalue) effect) option"
  ad_verify :: "(js_object \<Rightarrow> jvalue \<Rightarrow> capability_context \<Rightarrow> ('w, verification) effect) option"

type_synonym 'w registry = "(string, 'w adapter) jmap"

section \<open>runtime-capabilities.ts\<close>

record capability_runtime =
  cr_runtime_id :: string
  cr_available :: "string list"
  cr_modes :: "(string, step_mode list) jmap"
  cr_unmet_prerequisites :: "(string, string) jmap"

definition implemented_modes :: "'w adapter \<Rightarrow> step_mode list" where
  "implemented_modes ad =
     (if ad_read ad \<noteq> None then [Read] else [])
     @ (if ad_proposeWrite ad \<noteq> None then [ProposeWrite] else [])
     @ (if ad_write ad \<noteq> None then [Write] else [])"

definition runtimeFromRegistry :: "string \<Rightarrow> 'w registry \<Rightarrow> (string, string) jmap \<Rightarrow> capability_runtime" where
  "runtimeFromRegistry rid registry unmet =
     \<lparr>cr_runtime_id = rid, cr_available = map fst registry,
      cr_modes = foldl (\<lambda>m (i, ad). jset i (implemented_modes ad) m) [] registry,
      cr_unmet_prerequisites = unmet\<rparr>"

definition mode_words :: "step_mode \<Rightarrow> string" where
  "mode_words m = map (\<lambda>c. if c = CHR ''_'' then CHR '' '' else c) (mode_name m)"

definition missing_for :: "capability_runtime \<Rightarrow> agent_step \<Rightarrow> missing_capability list" where
  "missing_for runtime step =
     (let i = st_capability_id step;
          gap = (\<lambda>r d. [\<lparr>mc_capability_id = i, mc_step_id = st_id step, mc_reason = r, mc_detail = d\<rparr>])
      in if getCapability i = None then gap NotInCatalog (i @ '' is not a known capability'')
         else if i \<notin> set (cr_available runtime)
         then gap NoAdapter (cr_runtime_id runtime @ '' has no adapter for '' @ i)
         else if (case jget (cr_modes runtime) i of None \<Rightarrow> False | Some modes \<Rightarrow> st_mode step \<notin> set modes)
         then gap ModeUnsupported (i @ '' on '' @ cr_runtime_id runtime @ '' cannot ''
                @ mode_words (st_mode step))
         else (case jget (cr_unmet_prerequisites runtime) i of
             None \<Rightarrow> [] | Some unmet \<Rightarrow> gap PrerequisiteUnmet unmet))"

definition validateRuntimeCapabilities :: "agent_step list \<Rightarrow> capability_runtime \<Rightarrow> runtime_readiness" where
  "validateRuntimeCapabilities steps runtime =
     (let missing = concat (map (missing_for runtime) steps)
      in \<lparr>rr_ready = (missing = []), rr_runtime_id = cr_runtime_id runtime, rr_missing = missing\<rparr>)"

definition requireAdapter :: "'w registry \<Rightarrow> agent_step \<Rightarrow> string \<Rightarrow> run_error + 'w adapter" where
  "requireAdapter registry step rid =
     (case jget registry (st_capability_id step) of
       Some ad \<Rightarrow> Inr ad
     | None \<Rightarrow> Inl (RuntimeCapabilityError
         \<lparr>rr_ready = False, rr_runtime_id = rid,
          rr_missing = [\<lparr>mc_capability_id = st_capability_id step, mc_step_id = st_id step,
            mc_reason = NoAdapter,
            mc_detail = rid @ '' has no adapter for '' @ st_capability_id step\<rparr>]\<rparr>))"

definition error_message :: "run_error \<Rightarrow> string" where
  "error_message e = (case e of
      TransientAdapterError m \<Rightarrow> m | PermanentAdapterError m \<Rightarrow> m | OtherError m \<Rightarrow> m
    | RuntimeCapabilityError r \<Rightarrow> ''cannot run on '' @ rr_runtime_id r @ '': ''
        @ join_str ''; '' (map mc_detail (rr_missing r)))"

section \<open>agent-inputs.ts\<close>

datatype input_gap = NotSupplied | EmptyInput

record missing_input =
  mi_key :: string
  mi_label :: string
  mi_source :: input_source
  mi_reason :: input_gap

definition supplied :: "js_object \<Rightarrow> string \<Rightarrow> jvalue" where
  "supplied inputs k = or_else (jget inputs k) JUndefined"

definition input_gap_of :: "js_object \<Rightarrow> agent_input \<Rightarrow> input_gap option" where
  "input_gap_of agentInputs i =
     (if \<not> in_required i then None
      else (case supplied agentInputs (in_key i) of
          JUndefined \<Rightarrow> Some NotSupplied
        | JNull \<Rightarrow> Some NotSupplied
        | JStr s \<Rightarrow> if js_trim s = [] then Some EmptyInput else None
        | JArr vs \<Rightarrow> if vs = [] then Some EmptyInput else None
        | _ \<Rightarrow> None))"

definition validateAgentInputs :: "agent_spec \<Rightarrow> js_object \<Rightarrow> missing_input list" where
  "validateAgentInputs spec agentInputs =
     List.map_filter (\<lambda>i. map_option (\<lambda>r. \<lparr>mi_key = in_key i, mi_label = in_label i,
       mi_source = in_source i, mi_reason = r\<rparr>) (input_gap_of agentInputs i)) (sp_inputs spec)"

definition describeMissingInputs :: "missing_input list \<Rightarrow> string" where
  "describeMissingInputs missing =
     (let labels = (\<lambda>P. join_str '', '' (map mi_label (filter P missing)));
          fromUser = (\<lambda>m. mi_source m = FromUser);
          discovered = (\<lambda>m. mi_source m = DiscoveredOnSurface);
          other = (\<lambda>m. mi_source m \<noteq> FromUser \<and> mi_source m \<noteq> DiscoveredOnSurface)
      in join_str '' ''
        ((if list_ex fromUser missing then [''I still need from you: '' @ labels fromUser @ ''.''] else [])
         @ (if list_ex discovered missing
            then [''I could not work out '' @ labels discovered
                   @ '' by looking at the page, so I have stopped rather than guess.''] else [])
         @ (if list_ex other missing then [''Missing input: '' @ labels other @ ''.''] else [])))"

section \<open>run-engine.ts\<close>

datatype step_execution =
    ExRead jvalue
  | ExProposed proposed_diff string
  | ExWritten jvalue string bool string
  | ExSkippedShadowWrite

definition literal_value :: "literal \<Rightarrow> jvalue" where
  "literal_value l = (case l of LStr s \<Rightarrow> JStr s | LNum n \<Rightarrow> JNum n | LBool b \<Rightarrow> JBool b)"

fun resolve_entries :: "agent_step \<Rightarrow> agent_spec \<Rightarrow> js_object \<Rightarrow> js_object
    \<Rightarrow> (string \<times> step_binding) list \<Rightarrow> run_error + js_object" where
  "resolve_entries step spec outputs agentInputs [] = Inr []"
| "resolve_entries step spec outputs agentInputs ((name, binding) # rest) =
     (let value = (case binding of
            BLiteral l \<Rightarrow> literal_value l
          | BStepOutput ref \<Rightarrow> supplied outputs ref
          | BAgentInput ref \<Rightarrow> supplied agentInputs ref) in
      case binding of
        BAgentInput ref \<Rightarrow>
          (if value = JUndefined \<and> list_ex (\<lambda>i. in_key i = ref \<and> in_required i) (sp_inputs spec)
           then Inl (OtherError (''step '' @ st_id step @ '' needs the agent input '' @ quoted ref
                  @ '', which was not supplied''))
           else map_sum id (\<lambda>r. (name, value) # r) (resolve_entries step spec outputs agentInputs rest))
      | _ \<Rightarrow> map_sum id (\<lambda>r. (name, value) # r) (resolve_entries step spec outputs agentInputs rest))"

definition resolveStepInputs :: "agent_step \<Rightarrow> agent_spec \<Rightarrow> js_object \<Rightarrow> js_object
    \<Rightarrow> run_error + js_object" where
  "resolveStepInputs step spec outputs agentInputs =
     resolve_entries step spec outputs agentInputs (st_inputs step)"

fun attempt_loop :: "nat \<Rightarrow> ('w, 'a) effect \<Rightarrow> ('w, 'a) effect" where
  "attempt_loop 0 f w = (Inl (OtherError ''undefined''), w)"
| "attempt_loop (Suc n) f w = (case f w of
     (Inl (TransientAdapterError m), w') \<Rightarrow>
       (if n = 0 then (Inl (TransientAdapterError m), w') else attempt_loop n f w')
   | r \<Rightarrow> r)"

definition attempts_allowed :: "nat option \<Rightarrow> agent_step \<Rightarrow> nat" where
  "attempts_allowed maxAttempts step =
     max 1 (case maxAttempts of
         Some n \<Rightarrow> n
       | None \<Rightarrow> if rt_allowed (st_retry step) then rt_max_attempts (st_retry step) else 1)"

record approval =
  ap_diff :: "proposed_diff option"
  ap_sha :: "string option"
  ap_max_attempts :: "nat option"

definition no_approval :: approval where
  "no_approval = \<lparr>ap_diff = None, ap_sha = None, ap_max_attempts = None\<rparr>"

definition written_result :: "jvalue \<Rightarrow> string \<Rightarrow> verification \<Rightarrow> step_execution" where
  "written_result out key v = ExWritten out key (vf_verified v) (vf_detail v)"

definition dispatch_write :: "agent_spec \<Rightarrow> agent_step \<Rightarrow> js_object \<Rightarrow> js_object \<Rightarrow> capability_context
    \<Rightarrow> 'w adapter \<Rightarrow> proposed_diff \<Rightarrow> string \<Rightarrow> 'w \<Rightarrow> (run_error + step_execution) \<times> js_object \<times> 'w" where
  "dispatch_write spec step outputs inputs ctx ad diff sha w =
     (case ad_write ad of
       None \<Rightarrow> (Inl (OtherError (st_capability_id step @ '' has no write implementation'')), outputs, w)
     | Some write \<Rightarrow>
         (let key = stepIdempotencyKey (cx_run_id ctx) (sp_version_id spec) (st_id step)
                      (st_capability_version step) sha in
          case write inputs diff ctx key w of
            (Inl e, w') \<Rightarrow> (Inl e, outputs, w')
          | (Inr out, w') \<Rightarrow>
              (let outputs' = jset (st_output_key step) out outputs in
               case ad_verify ad of
                 None \<Rightarrow> (Inr (ExWritten out key False ''no verifier''), outputs', w')
               | Some verify \<Rightarrow>
                   (case verify inputs out ctx w' of
                     (Inl e, w'') \<Rightarrow> (Inl e, outputs', w'')
                   | (Inr v, w'') \<Rightarrow> (Inr (written_result out key v), outputs', w'')))))"

definition executeStep :: "agent_spec \<Rightarrow> agent_step \<Rightarrow> js_object \<Rightarrow> js_object \<Rightarrow> capability_context
    \<Rightarrow> 'w adapter \<Rightarrow> approval \<Rightarrow> 'w \<Rightarrow> (run_error + step_execution) \<times> js_object \<times> 'w" where
  "executeStep spec step outputs agentInputs ctx ad appr w =
     (case resolveStepInputs step spec outputs agentInputs of
       Inl e \<Rightarrow> (Inl e, outputs, w)
     | Inr inputs \<Rightarrow>
       (case st_mode step of
         Read \<Rightarrow>
           (case ad_read ad of
             None \<Rightarrow> (Inl (OtherError (st_capability_id step @ '' has no read implementation'')), outputs, w)
           | Some read \<Rightarrow>
               (case attempt_loop (attempts_allowed (ap_max_attempts appr) step) (read inputs ctx) w of
                 (Inl e, w') \<Rightarrow> (Inl e, outputs, w')
               | (Inr out, w') \<Rightarrow> (Inr (ExRead out), jset (st_output_key step) out outputs, w')))
       | ProposeWrite \<Rightarrow>
           (case ad_proposeWrite ad of
             None \<Rightarrow> (Inl (OtherError (st_capability_id step @ '' has no proposeWrite implementation'')),
                       outputs, w)
           | Some propose \<Rightarrow>
               (case attempt_loop (attempts_allowed (ap_max_attempts appr) step) (propose inputs ctx) w of
                 (Inl e, w') \<Rightarrow> (Inl e, outputs, w')
               | (Inr diff, w') \<Rightarrow> (Inr (ExProposed diff (diffSha256 diff)),
                     jset (st_output_key step) (JDiff diff) outputs, w')))
       | Write \<Rightarrow>
           (if cx_mode ctx = RunShadow then (Inr ExSkippedShadowWrite, outputs, w)
            else if ad_write ad = None
            then (Inl (OtherError (st_capability_id step @ '' has no write implementation'')), outputs, w)
            else (case (ap_diff appr, ap_sha appr) of
               (Some diff, Some sha) \<Rightarrow>
                 (if sha = [] then (Inl (OtherError (''write step '' @ st_id step
                      @ '' reached execution without an approved diff'')), outputs, w)
                  else if diffSha256 diff \<noteq> sha
                  then (Inl (OtherError (''approved diff hash mismatch for step '' @ st_id step)), outputs, w)
                  else dispatch_write spec step outputs inputs ctx ad diff sha w)
             | _ \<Rightarrow> (Inl (OtherError (''write step '' @ st_id step
                      @ '' reached execution without an approved diff'')), outputs, w)))))"

section \<open>Component lemmas\<close>

text \<open>An adapter whose write side has been replaced.\<close>

definition with_writers :: "(js_object \<Rightarrow> proposed_diff \<Rightarrow> capability_context \<Rightarrow> string \<Rightarrow> ('w, jvalue) effect) option
    \<Rightarrow> (js_object \<Rightarrow> jvalue \<Rightarrow> capability_context \<Rightarrow> ('w, verification) effect) option
    \<Rightarrow> 'w adapter \<Rightarrow> 'w adapter" where
  "with_writers wr vf ad = ad\<lparr>ad_write := wr, ad_verify := vf\<rparr>"

lemma executeStep_ignores_writers:
  assumes "st_mode step = Write \<longrightarrow> cx_mode ctx = RunShadow"
  shows "executeStep spec step outputs agentInputs ctx (with_writers wr vf ad) appr w
    = executeStep spec step outputs agentInputs ctx ad appr w"
  using assms by (auto simp: executeStep_def with_writers_def split: step_mode.splits sum.splits)

definition transient :: "run_error + 'a \<Rightarrow> bool" where
  "transient r = (case r of Inl (TransientAdapterError _) \<Rightarrow> True | _ \<Rightarrow> False)"

text \<open>The world after the first \<open>k\<close> tries of an effect.\<close>

definition after_tries :: "('w, 'a) effect \<Rightarrow> 'w \<Rightarrow> nat \<Rightarrow> 'w" where
  "after_tries f w k = ((\<lambda>v. snd (f v)) ^^ k) w"

lemma after_tries_simps [simp]:
  "after_tries f w 0 = w" "after_tries f w (Suc k) = after_tries f (snd (f w)) k"
  by (simp_all add: after_tries_def funpow_Suc_right del: funpow.simps(2))

lemma attempt_loop_step:
  "attempt_loop (Suc n) f w = (if transient (fst (f w)) \<and> n \<noteq> 0 then attempt_loop n f (snd (f w)) else f w)"
  by (auto simp: transient_def split: prod.splits sum.splits run_error.splits)

lemma attempt_loop_tries:
  "\<exists>k \<le> n. attempt_loop (Suc n) f w = f (after_tries f w k)
     \<and> (\<forall>i < k. transient (fst (f (after_tries f w i))))
     \<and> (k = n \<or> \<not> transient (fst (f (after_tries f w k))))"
proof (induction n arbitrary: w)
  case 0
  then show ?case by (simp add: attempt_loop_step del: attempt_loop.simps)
next
  case (Suc n)
  show ?case
  proof (cases "transient (fst (f w))")
    case True
    obtain k where "k \<le> n" "attempt_loop (Suc n) f (snd (f w)) = f (after_tries f (snd (f w)) k)"
      "\<forall>i < k. transient (fst (f (after_tries f (snd (f w)) i)))"
      "k = n \<or> \<not> transient (fst (f (after_tries f (snd (f w)) k)))"
      using Suc.IH by blast
    with True show ?thesis
      by (intro exI [of _ "Suc k"])
        (auto simp: attempt_loop_step [of "Suc n"] less_Suc_eq_0_disj simp del: attempt_loop.simps)
  next
    case False
    then show ?thesis
      by (intro exI [of _ 0]) (simp add: attempt_loop_step del: attempt_loop.simps)
  qed
qed

lemma executeStep_written:
  assumes "executeStep spec step outputs agentInputs ctx ad appr w = (Inr (ExWritten out key v d), outputs', w')"
  shows "\<exists>inputs diff write. resolveStepInputs step spec outputs agentInputs = Inr inputs
    \<and> st_mode step = Write \<and> cx_mode ctx \<noteq> RunShadow
    \<and> ap_diff appr = Some diff \<and> ap_sha appr = Some (diffSha256 diff) \<and> ad_write ad = Some write
    \<and> key = stepIdempotencyKey (cx_run_id ctx) (sp_version_id spec) (st_id step)
        (st_capability_version step) (diffSha256 diff)
    \<and> fst (write inputs diff ctx key w) = Inr out \<and> outputs' = jset (st_output_key step) out outputs"
  using assms
  by (auto simp: executeStep_def dispatch_write_def written_result_def Let_def
      split: sum.splits step_mode.splits option.splits if_splits prod.splits)

lemma executeStep_write_refused:
  assumes "st_mode step = Write"
    and "cx_mode ctx = RunShadow \<or> ap_diff appr = None \<or> ap_sha appr = None
      \<or> map_option diffSha256 (ap_diff appr) \<noteq> ap_sha appr"
  shows "snd (executeStep spec step outputs agentInputs ctx ad appr w) = (outputs, w)"
  using assms by (auto simp: executeStep_def split: sum.splits option.splits)

lemma map_filter_Nil: "List.map_filter f xs = [] \<longleftrightarrow> (\<forall>x \<in> set xs. f x = None)"
  by (induction xs) (auto simp: map_filter_simps split: option.splits)

lemma validateAgentInputs_Nil:
  "validateAgentInputs spec agentInputs = [] \<longleftrightarrow>
     (\<forall>i \<in> set (sp_inputs spec). input_gap_of agentInputs i = None)"
  by (auto simp: validateAgentInputs_def map_filter_Nil)

lemma resolve_entries_ok:
  assumes "\<forall>i \<in> set (sp_inputs spec). in_required i \<longrightarrow> supplied agentInputs (in_key i) \<noteq> JUndefined"
  shows "\<exists>inputs. resolve_entries step spec outputs agentInputs entries = Inr inputs
    \<and> map fst inputs = map fst entries"
proof (induction entries)
  case (Cons e es)
  then show ?case
    using assms by (cases e; cases "snd e") (auto simp: Let_def list_ex_iff)
qed simp

lemma jget_Nil [simp]: "jget [] k = None"
  by (simp add: jget_def)

lemma jget_Cons: "jget (e # es) k = (if k = fst e then Some (snd e) else jget es k)"
  by (cases e) (simp add: jget_def)

lemma runtimeFromRegistry_simps [simp]:
  "cr_runtime_id (runtimeFromRegistry rid registry unmet) = rid"
  "cr_available (runtimeFromRegistry rid registry unmet) = map fst registry"
  "cr_unmet_prerequisites (runtimeFromRegistry rid registry unmet) = unmet"
  by (simp_all add: runtimeFromRegistry_def)

lemma jget_modes:
  assumes "jmap_ok registry"
  shows "jget (cr_modes (runtimeFromRegistry rid registry unmet)) i
    = map_option implemented_modes (jget registry i)"
proof -
  have "jget (foldl (\<lambda>m (i, ad). jset i (implemented_modes ad) m) m0 registry) i
      = (case jget registry i of None \<Rightarrow> jget m0 i | Some ad \<Rightarrow> Some (implemented_modes ad))" for m0
    using assms
  proof (induction registry arbitrary: m0)
    case Nil
    then show ?case by simp
  next
    case (Cons e es)
    then have "jget es (fst e) = None" "jmap_ok es"
      by (auto simp: jmap_ok_def jget_def map_of_eq_None_iff)
    with Cons.IH show ?case
      by (cases e) (auto simp: jm.lookup_insert jget_Cons split: option.splits)
  qed
  then show ?thesis
    by (auto simp: runtimeFromRegistry_def split: option.splits)
qed

definition implements :: "'w adapter \<Rightarrow> step_mode \<Rightarrow> bool" where
  "implements ad m = (case m of Read \<Rightarrow> ad_read ad \<noteq> None | ProposeWrite \<Rightarrow> ad_proposeWrite ad \<noteq> None
     | Write \<Rightarrow> ad_write ad \<noteq> None)"

lemma implements_iff: "m \<in> set (implemented_modes ad) \<longleftrightarrow> implements ad m"
  by (cases m) (auto simp: implemented_modes_def implements_def)

lemma ready_step:
  assumes "jmap_ok registry" and "missing_for (runtimeFromRegistry rid registry unmet) step = []"
  shows "capabilityExists (st_capability_id step)
    \<and> (\<exists>ad. jget registry (st_capability_id step) = Some ad \<and> implements ad (st_mode step))"
proof -
  have "st_capability_id step \<in> fst ` set registry \<longleftrightarrow> jget registry (st_capability_id step) \<noteq> None"
    by (simp add: jget_def map_of_eq_None_iff)
  with assms show ?thesis
    by (auto simp: missing_for_def Let_def jget_modes implements_iff capabilityExists_def
        split: if_splits option.splits)
qed

section \<open>Properties\<close>

text \<open>
  C24: A step run in shadow mode does not depend on the adapter's write side at all: replacing
  \<open>write\<close> and \<open>verify\<close> by anything changes neither the result, nor the recorded outputs, nor the
  world. The same holds for a read or propose step in any mode.
\<close>

theorem shadow_step_ignores_writers:
  assumes "cx_mode ctx = RunShadow \<or> st_mode step \<noteq> Write"
  shows "executeStep spec step outputs agentInputs ctx (with_writers wr vf ad) appr w
    = executeStep spec step outputs agentInputs ctx ad appr w"
  by (rule executeStep_ignores_writers) (use assms in auto)

definition fx_shadow_ctx :: capability_context where
  "fx_shadow_ctx = \<lparr>cx_run_id = ''run-1'', cx_organization_id = ''org-1'', cx_owner_user_id = ''user-1'',
     cx_mode = RunShadow\<rparr>"

definition fx_sheet :: "nat adapter" where
  "fx_sheet = \<lparr>ad_id = ''google_sheets.read_range'', ad_read = Some (\<lambda>_ _ n. (Inr (JArr []), n + 1)),
     ad_proposeWrite = None, ad_write = None, ad_verify = None\<rparr>"

theorem shadow_step_ignores_writers_witness:
  "executeStep fx_three (fx_write True) [(''diff'', JNull)] [] fx_shadow_ctx
     (with_writers (Some (\<lambda>_ _ _ _ n. (Inr JNull, n + 1))) None fx_sheet) no_approval 0
   = executeStep fx_three (fx_write True) [(''diff'', JNull)] [] fx_shadow_ctx fx_sheet no_approval 0"
  by (rule shadow_step_ignores_writers) (simp add: fx_shadow_ctx_def)


definition fx_diff :: proposed_diff where
  "fx_diff = \<lparr>df_summary = \<lparr>ds_input_rows = 1, ds_confident_matches = 1, ds_ambiguous_skipped = 0,
       ds_missing = 0, ds_change_count = 1, ds_accounts_affected = 1\<rparr>,
     df_changes = [\<lparr>fc_account_id = ''a1'', fc_account_name = ''Acme'', fc_field = ''owner'',
       fc_old_value = ''x'', fc_new_value = ''y''\<rparr>]\<rparr>"


text \<open>
  C34: The retry loop returns the outcome of one of at most \<open>n\<close> tries: every try before it failed
  with a transient error, and it stops earlier only at an outcome that is not transient. A
  permanent error is therefore never retried, and a success is never repeated.
\<close>

theorem attempt_loop_bounded:
  assumes "0 < n"
  shows "\<exists>k < n. attempt_loop n f w = f (after_tries f w k)
     \<and> (\<forall>i < k. transient (fst (f (after_tries f w i))))
     \<and> (Suc k = n \<or> \<not> transient (fst (f (after_tries f w k))))"
  using assms attempt_loop_tries [of "n - 1" f w] by (cases n) (auto simp: less_Suc_eq_le simp del: attempt_loop.simps)

definition fx_flaky :: "(nat, nat) effect" where
  "fx_flaky m = (if m < 1 then Inl (TransientAdapterError ''busy'') else Inr m, m + 1)"

theorem attempt_loop_bounded_witness:
  "\<exists>k < 3. attempt_loop 3 fx_flaky 0 = fx_flaky (after_tries fx_flaky 0 k)"
  using attempt_loop_bounded [of 3 fx_flaky 0] by auto

text \<open>
  Once every declared required input is supplied, no step of the specification fails to
  resolve its inputs, and once the runtime is ready for a specification every step of it finds an
  adapter implementing its mode: the two checks made before a run leave the step's own
  backstops nothing to catch.
\<close>

theorem readiness_checks_sound:
  assumes "validateAgentInputs spec agentInputs = []"
    and "jmap_ok registry"
    and "rr_ready (validateRuntimeCapabilities (sp_steps spec) (runtimeFromRegistry rid registry unmet))"
    and "step \<in> set (sp_steps spec)"
  shows "(\<exists>inputs. resolveStepInputs step spec outputs agentInputs = Inr inputs)
    \<and> (\<exists>ad. requireAdapter registry step rid = Inr ad \<and> implements ad (st_mode step))"
proof -
  have "supplied agentInputs (in_key i) \<noteq> JUndefined" if "i \<in> set (sp_inputs spec)" "in_required i" for i
    using assms(1) that by (auto simp: validateAgentInputs_Nil input_gap_of_def)
  then have "\<exists>inputs. resolveStepInputs step spec outputs agentInputs = Inr inputs"
    unfolding resolveStepInputs_def using resolve_entries_ok by blast
  moreover have "missing_for (runtimeFromRegistry rid registry unmet) step = []"
    using assms(3, 4) by (auto simp: validateRuntimeCapabilities_def Let_def)
  ultimately show ?thesis
    using ready_step [OF assms(2)] by (fastforce simp: requireAdapter_def)
qed

theorem readiness_checks_sound_witness:
  "\<exists>ad. requireAdapter [(''google_sheets.read_range'', fx_sheet)] fx_read ''local'' = Inr ad
     \<and> implements ad (st_mode fx_read)"
proof -
  have "validateAgentInputs (fx_spec [fx_read]) [] = []"
    by (simp add: validateAgentInputs_def fx_spec_def map_filter_simps)
  moreover have "rr_ready (validateRuntimeCapabilities (sp_steps (fx_spec [fx_read]))
      (runtimeFromRegistry ''local'' [(''google_sheets.read_range'', fx_sheet)] []))"
    by (simp add: validateRuntimeCapabilities_def Let_def missing_for_def fx_step_defs fx_caps
        runtimeFromRegistry_def jm.lookup_insert implemented_modes_def fx_sheet_def)
  ultimately show ?thesis
    using readiness_checks_sound [of "fx_spec [fx_read]" "[]" "[(''google_sheets.read_range'', fx_sheet)]"
        "''local''" "[]" fx_read "[]"]
    by (simp add: jmap_ok_def)
qed

end
