(* ===== verification/Local_Runtime.thy ===== *)
theory Local_Runtime
  imports Run_Engine "HOL-Library.List_Lexorder"
begin

text \<open>
  The local agent runtime (\<open>packages/agent-runtime/src/local-runtime.ts\<close>): registration, the
  enabled switch, trigger matching with its cooldown, shadow runs, and approved runs in two
  passes. The runtime's state is a record; \<open>rt_changed\<close> is the list of records handed to
  \<open>onAgentChanged\<close>, newest last. The clock is an argument, in milliseconds; a run reads it once,
  at its end. The schema library is the parameter \<open>z\<close>.
\<close>

section \<open>State\<close>

record registered_agent =
  ra_spec :: agent_spec
  ra_enabled :: bool
  ra_last_triggered_at :: "int option"
  ra_last_run_at :: "int option"

record 'w local_runtime =
  lr_agents :: "(string, registered_agent) jmap"
  lr_registry :: "'w registry"
  lr_runtime_id :: string
  lr_changed :: "registered_agent list"

datatype registration_result =
    RegisteredOk string
  | InvalidSpec "validation_message option"
  | RuntimeUnavailable string runtime_readiness

definition replaceRegistry :: "'w registry \<Rightarrow> 'w local_runtime \<Rightarrow> 'w local_runtime" where
  "replaceRegistry registry rt = rt\<lparr>lr_registry := registry\<rparr>"

definition put_agent :: "string \<Rightarrow> registered_agent \<Rightarrow> 'w local_runtime \<Rightarrow> 'w local_runtime" where
  "put_agent i a rt = rt\<lparr>lr_agents := jset i a (lr_agents rt), lr_changed := lr_changed rt @ [a]\<rparr>"

section \<open>Registration\<close>

definition unavailable_detail :: "string \<Rightarrow> missing_capability list \<Rightarrow> string" where
  "unavailable_detail rid missing = (case missing of
       [] \<Rightarrow> ''the runtime cannot execute this spec''
     | m # _ \<Rightarrow> ''capability '' @ mc_capability_id m @ '' is unavailable on '' @ rid @ '': '' @ mc_detail m)"

definition registerAgent :: "zod \<Rightarrow> agent_spec \<Rightarrow> bool option \<Rightarrow> 'w local_runtime
    \<Rightarrow> registration_result \<times> 'w local_runtime" where
  "registerAgent z spec enabled rt =
     (case validateAgentSpec z spec of
       Invalid issues \<Rightarrow> (InvalidSpec (case issues of [] \<Rightarrow> None | i # _ \<Rightarrow> Some (vi_message i)), rt)
     | Valid valid_spec \<Rightarrow>
         (let readiness = validateRuntimeCapabilities (sp_steps valid_spec)
                (runtimeFromRegistry (lr_runtime_id rt) (lr_registry rt) [])
          in if \<not> rr_ready readiness
             then (RuntimeUnavailable (unavailable_detail (lr_runtime_id rt) (rr_missing readiness)) readiness, rt)
             else (RegisteredOk (sp_agent_id spec),
               put_agent (sp_agent_id spec)
                 \<lparr>ra_spec = valid_spec, ra_enabled = or_else enabled True,
                  ra_last_triggered_at = None, ra_last_run_at = None\<rparr> rt)))"

definition restore_agent :: "zod \<Rightarrow> registered_agent \<Rightarrow> 'w local_runtime \<Rightarrow> 'w local_runtime" where
  "restore_agent z agent rt =
     (case registerAgent z (ra_spec agent) (Some (ra_enabled agent)) rt of
       (RegisteredOk i, rt') \<Rightarrow>
         rt'\<lparr>lr_agents := jset i \<lparr>ra_spec = ra_spec agent, ra_enabled = ra_enabled agent,
             ra_last_triggered_at = ra_last_triggered_at agent,
             ra_last_run_at = ra_last_run_at agent\<rparr> (lr_agents rt')\<rparr>
     | (_, rt') \<Rightarrow> rt')"

definition new_runtime :: "zod \<Rightarrow> 'w registry \<Rightarrow> string \<Rightarrow> registered_agent list \<Rightarrow> 'w local_runtime" where
  "new_runtime z registry rid restore =
     foldl (\<lambda>rt agent. restore_agent z agent rt)
       \<lparr>lr_agents = [], lr_registry = registry, lr_runtime_id = rid, lr_changed = []\<rparr> restore"

definition unregisterAgent :: "string \<Rightarrow> 'w local_runtime \<Rightarrow> 'w local_runtime" where
  "unregisterAgent i rt = rt\<lparr>lr_agents := jdel i (lr_agents rt)\<rparr>"

definition setEnabled :: "string \<Rightarrow> bool \<Rightarrow> 'w local_runtime \<Rightarrow> 'w local_runtime" where
  "setEnabled i enabled rt = (case jget (lr_agents rt) i of
       None \<Rightarrow> rt
     | Some agent \<Rightarrow> put_agent i (agent\<lparr>ra_enabled := enabled\<rparr>) rt)"

definition listCapabilities :: "'w local_runtime \<Rightarrow> string list" where
  "listCapabilities rt = sort_key (map (of_char :: char \<Rightarrow> nat)) (map fst (lr_registry rt))"

section \<open>Triggers\<close>

definition hostOf :: "string \<Rightarrow> string" where
  "hostOf origin = hd (js_split CHR ''/'' (if prefix ''https://'' origin then drop 8 origin else origin))"

record trigger_firing =
  tf_agent_id :: string
  tf_agent_name :: string
  tf_trigger :: agent_trigger
  tf_context :: workflow_context

definition selector_matches :: "workflow_context \<Rightarrow> agent_trigger \<Rightarrow> bool" where
  "selector_matches context t = (case t of
       TContext app_category object_type origin cooldown \<Rightarrow>
         (case (origin, wc_domain context) of
            (Some u, Some domain) \<Rightarrow> hostOf u = domain
          | _ \<Rightarrow> app_category = wc_app_category context)
         \<and> (case object_type of None \<Rightarrow> True | Some ty \<Rightarrow> ty = wc_object_type context)
     | _ \<Rightarrow> False)"

definition cooled_down :: "int \<Rightarrow> registered_agent \<Rightarrow> bool" where
  "cooled_down nowMs agent = (case ra_last_triggered_at agent of
       None \<Rightarrow> True
     | Some last_at \<Rightarrow> (case sp_trigger (ra_spec agent) of
           TContext _ _ _ cooldown \<Rightarrow> \<not> nowMs - last_at < int cooldown * 1000
         | _ \<Rightarrow> True))"

definition fires :: "int \<Rightarrow> workflow_context \<Rightarrow> registered_agent \<Rightarrow> bool" where
  "fires nowMs context agent \<longleftrightarrow> ra_enabled agent
     \<and> selector_matches context (sp_trigger (ra_spec agent)) \<and> cooled_down nowMs agent"

definition fire_agent :: "int \<Rightarrow> workflow_context \<Rightarrow> string \<times> registered_agent
    \<Rightarrow> 'w local_runtime \<times> trigger_firing list \<Rightarrow> 'w local_runtime \<times> trigger_firing list" where
  "fire_agent nowMs context e st =
     (if fires nowMs context (snd e)
      then (put_agent (fst e) ((snd e)\<lparr>ra_last_triggered_at := Some nowMs\<rparr>) (fst st),
            snd st @ [\<lparr>tf_agent_id = sp_agent_id (ra_spec (snd e)), tf_agent_name = sp_name (ra_spec (snd e)),
              tf_trigger = sp_trigger (ra_spec (snd e)), tf_context = context\<rparr>])
      else st)"

definition handleContext :: "int \<Rightarrow> workflow_context \<Rightarrow> 'w local_runtime
    \<Rightarrow> trigger_firing list \<times> 'w local_runtime" where
  "handleContext nowMs context rt =
     (let (rt', firings) = fold (fire_agent nowMs context) (lr_agents rt) (rt, []) in (firings, rt'))"

lemma handleContext_simps:
  "fst (handleContext now context rt) = snd (fold (fire_agent now context) (lr_agents rt) (rt, []))"
  "snd (handleContext now context rt) = fst (fold (fire_agent now context) (lr_agents rt) (rt, []))"
  by (simp_all add: handleContext_def split_beta)

section \<open>Merging proposals\<close>

definition mergeDiffs :: "proposed_diff option \<Rightarrow> proposed_diff \<Rightarrow> proposed_diff" where
  "mergeDiffs a b = (case a of
       None \<Rightarrow> b
     | Some a \<Rightarrow>
        \<lparr>df_summary = (let s = df_summary a; t = df_summary b in
           \<lparr>ds_input_rows = ds_input_rows s + ds_input_rows t,
            ds_confident_matches = ds_confident_matches s + ds_confident_matches t,
            ds_ambiguous_skipped = ds_ambiguous_skipped s + ds_ambiguous_skipped t,
            ds_missing = ds_missing s + ds_missing t,
            ds_change_count = ds_change_count s + ds_change_count t,
            ds_accounts_affected = max (ds_accounts_affected s) (ds_accounts_affected t)\<rparr>),
         df_changes = df_changes a @ df_changes b\<rparr>)"

section \<open>Shadow runs\<close>

record run_frame =
  rf_run_id :: string
  rf_organization_id :: string
  rf_owner_user_id :: string

definition run_context :: "run_frame \<Rightarrow> run_mode \<Rightarrow> capability_context" where
  "run_context f m = \<lparr>cx_run_id = rf_run_id f, cx_organization_id = rf_organization_id f,
     cx_owner_user_id = rf_owner_user_id f, cx_mode = m\<rparr>"

text \<open>The state of a pass over the steps: the recorded outputs, the merged diff, the diffs by output
  key, and the counters.\<close>

record pass_state =
  ps_outputs :: js_object
  ps_diff :: "proposed_diff option"
  ps_by_key :: "(string, proposed_diff) jmap"
  ps_steps_run :: nat
  ps_records_read :: nat

definition pass_start :: pass_state where
  "pass_start = \<lparr>ps_outputs = [], ps_diff = None, ps_by_key = [], ps_steps_run = 0, ps_records_read = 0\<rparr>"

definition note_execution :: "agent_step \<Rightarrow> step_execution \<Rightarrow> js_object \<Rightarrow> pass_state \<Rightarrow> pass_state" where
  "note_execution step result outputs p =
     (let p1 = p\<lparr>ps_outputs := outputs, ps_steps_run := ps_steps_run p + 1\<rparr> in
      case result of
        ExRead (JArr vs) \<Rightarrow> p1\<lparr>ps_records_read := ps_records_read p + length vs\<rparr>
      | ExProposed diff _ \<Rightarrow> p1\<lparr>ps_by_key := jset (st_output_key step) diff (ps_by_key p),
          ps_diff := Some (mergeDiffs (ps_diff p) diff)\<rparr>
      | _ \<Rightarrow> p1)"

definition run_step :: "'w registry \<Rightarrow> string \<Rightarrow> agent_spec \<Rightarrow> js_object \<Rightarrow> capability_context \<Rightarrow> agent_step
    \<Rightarrow> approval \<Rightarrow> js_object \<Rightarrow> 'w \<Rightarrow> (run_error + step_execution) \<times> js_object \<times> 'w" where
  "run_step registry rid spec agentInputs ctx step appr outputs w =
     (case requireAdapter registry step rid of
       Inl e \<Rightarrow> (Inl e, outputs, w)
     | Inr ad \<Rightarrow> executeStep spec step outputs agentInputs ctx ad appr w)"

fun proposal_pass :: "'w registry \<Rightarrow> string \<Rightarrow> agent_spec \<Rightarrow> js_object \<Rightarrow> capability_context
    \<Rightarrow> agent_step list \<Rightarrow> pass_state \<Rightarrow> 'w \<Rightarrow> (run_error + pass_state) \<times> 'w" where
  "proposal_pass registry rid spec agentInputs ctx [] p w = (Inr p, w)"
| "proposal_pass registry rid spec agentInputs ctx (step # steps) p w =
     (if st_mode step = Write then proposal_pass registry rid spec agentInputs ctx steps p w
      else (case run_step registry rid spec agentInputs ctx step no_approval (ps_outputs p) w of
          (Inl e, _, w') \<Rightarrow> (Inl e, w')
        | (Inr result, outputs, w') \<Rightarrow>
            proposal_pass registry rid spec agentInputs ctx steps (note_execution step result outputs p) w'))"

definition by_order :: "agent_step \<Rightarrow> agent_step \<Rightarrow> int" where
  "by_order a b = int (st_order a) - int (st_order b)"

definition ordered_steps :: "agent_spec \<Rightarrow> agent_step list" where
  "ordered_steps spec = js_sort by_order (sp_steps spec)"

interpretation step_order: comparator by_order
  by unfold_locales (auto simp: by_order_def)

lemma set_ordered_steps [simp]: "set (ordered_steps spec) = set (sp_steps spec)"
  by (simp add: ordered_steps_def)

lemma sorted_ordered_steps: "sorted (map st_order (ordered_steps spec))"
  using step_order.sorted_js_sort [of "sp_steps spec"]
  by (simp add: ordered_steps_def by_order_def sorted_map)

datatype shadow_outcome =
    ShadowComplete "proposed_diff option" nat nat
  | ShadowNeedsInput "missing_input list" string
  | ShadowFailed string

definition gap_labels :: "missing_input list \<Rightarrow> string" where
  "gap_labels missing = join_str '', '' (map mi_label missing)"

definition note_run :: "string \<Rightarrow> int \<Rightarrow> registered_agent \<Rightarrow> 'w local_runtime \<Rightarrow> 'w local_runtime" where
  "note_run i nowMs agent rt = put_agent i (agent\<lparr>ra_last_run_at := Some nowMs\<rparr>) rt"

definition runShadow :: "int \<Rightarrow> string \<Rightarrow> js_object \<Rightarrow> run_frame \<Rightarrow> 'w local_runtime \<Rightarrow> 'w
    \<Rightarrow> shadow_outcome \<times> 'w local_runtime \<times> 'w" where
  "runShadow nowMs i agentInputs frame rt w = (case jget (lr_agents rt) i of
       None \<Rightarrow> (ShadowFailed (''no agent '' @ i @ '' is registered''), rt, w)
     | Some agent \<Rightarrow>
         (let missing = validateAgentInputs (ra_spec agent) agentInputs in
          if missing \<noteq> [] then (ShadowNeedsInput missing (gap_labels missing), rt, w)
          else (case proposal_pass (lr_registry rt) (lr_runtime_id rt) (ra_spec agent) agentInputs
                  (run_context frame RunShadow) (ordered_steps (ra_spec agent)) pass_start w of
              (Inl e, w') \<Rightarrow> (ShadowFailed (error_message e), rt, w')
            | (Inr p, w') \<Rightarrow> (ShadowComplete (ps_diff p) (ps_steps_run p) (ps_records_read p),
                note_run i nowMs agent rt, w'))))"

section \<open>Approved runs\<close>

datatype approved_outcome =
    ApprovedCompleted proposed_diff bool string
  | AbortedStale string string "proposed_diff option"
  | ApprovedNeedsInput string
  | ApprovedFailed string

definition pair_slice :: "pass_state \<Rightarrow> agent_step \<Rightarrow> proposed_diff option" where
  "pair_slice p step = (case jget (st_inputs step) ''pairs_with'' of
       Some (BLiteral (LStr k)) \<Rightarrow> jget (ps_by_key p) k
     | _ \<Rightarrow> ps_diff p)"

definition execution_kind :: "step_execution \<Rightarrow> string" where
  "execution_kind r = (case r of ExRead _ \<Rightarrow> ''read'' | ExProposed _ _ \<Rightarrow> ''proposed''
     | ExWritten _ _ _ _ \<Rightarrow> ''written'' | ExSkippedShadowWrite \<Rightarrow> ''skipped_shadow_write'')"

definition merge_verification :: "(bool \<times> string) option \<Rightarrow> bool \<Rightarrow> string \<Rightarrow> bool \<times> string" where
  "merge_verification written verified detail = (case written of
       None \<Rightarrow> (verified, detail)
     | Some (v, d) \<Rightarrow> (v \<and> verified, join_str ''; '' (filter (\<lambda>s. s \<noteq> []) [d, detail])))"

fun write_pass :: "'w registry \<Rightarrow> string \<Rightarrow> agent_spec \<Rightarrow> js_object \<Rightarrow> capability_context
    \<Rightarrow> pass_state \<Rightarrow> agent_step list \<Rightarrow> js_object \<Rightarrow> (bool \<times> string) option \<Rightarrow> 'w
    \<Rightarrow> (string + (bool \<times> string) option) \<times> 'w" where
  "write_pass registry rid spec agentInputs ctx p [] outputs written w = (Inr written, w)"
| "write_pass registry rid spec agentInputs ctx p (step # steps) outputs written w =
     (if st_mode step \<noteq> Write then write_pass registry rid spec agentInputs ctx p steps outputs written w
      else (case pair_slice p step of
          None \<Rightarrow> (Inl (''write step '' @ st_id step @ '' pairs with a proposal that produced nothing''), w)
        | Some part \<Rightarrow>
            (case run_step registry rid spec agentInputs ctx step
                \<lparr>ap_diff = Some part, ap_sha = Some (diffSha256 part), ap_max_attempts = None\<rparr> outputs w of
              (Inl e, _, w') \<Rightarrow> (Inl (error_message e), w')
            | (Inr result, outputs', w') \<Rightarrow>
                (case result of
                  ExWritten _ _ verified detail \<Rightarrow>
                    write_pass registry rid spec agentInputs ctx p steps outputs'
                      (Some (merge_verification written verified detail)) w'
                | _ \<Rightarrow> (Inl (''the write step returned '' @ execution_kind result), w')))))"

definition runApproved :: "int \<Rightarrow> string \<Rightarrow> js_object \<Rightarrow> run_frame \<Rightarrow> string \<Rightarrow> 'w local_runtime \<Rightarrow> 'w
    \<Rightarrow> approved_outcome \<times> 'w local_runtime \<times> 'w" where
  "runApproved nowMs i agentInputs frame approvedSha rt w = (case jget (lr_agents rt) i of
       None \<Rightarrow> (ApprovedFailed (''no agent '' @ i @ '' is registered''), rt, w)
     | Some agent \<Rightarrow>
         (let missing = validateAgentInputs (ra_spec agent) agentInputs;
              ctx = run_context frame RunSupervised;
              ordered = ordered_steps (ra_spec agent) in
          if missing \<noteq> [] then (ApprovedNeedsInput (gap_labels missing), rt, w)
          else (case proposal_pass (lr_registry rt) (lr_runtime_id rt) (ra_spec agent) agentInputs ctx
                  ordered pass_start w of
              (Inl e, w') \<Rightarrow> (ApprovedFailed (error_message e), rt, w')
            | (Inr p, w') \<Rightarrow>
                (case ps_diff p of
                  None \<Rightarrow> (AbortedStale approvedSha [] None, rt, w')
                | Some freshDiff \<Rightarrow>
                    (if diffSha256 freshDiff \<noteq> approvedSha
                     then (AbortedStale approvedSha (diffSha256 freshDiff) (Some freshDiff), rt, w')
                     else (case write_pass (lr_registry rt) (lr_runtime_id rt) (ra_spec agent) agentInputs
                              ctx p ordered (ps_outputs p) None w' of
                         (Inl detail, w'') \<Rightarrow> (ApprovedFailed detail, rt, w'')
                       | (Inr None, w'') \<Rightarrow>
                           (ApprovedFailed ''this agent has no write step to approve'', rt, w'')
                       | (Inr (Some (verified, detail)), w'') \<Rightarrow>
                           (ApprovedCompleted freshDiff verified detail, note_run i nowMs agent rt, w''))))))) "

section \<open>The registration invariant\<close>

definition runtime_ok :: "zod \<Rightarrow> 'w local_runtime \<Rightarrow> bool" where
  "runtime_ok z rt \<longleftrightarrow> jmap_ok (lr_agents rt)
     \<and> (\<forall>(i, a) \<in> set (lr_agents rt). sp_agent_id (ra_spec a) = i
          \<and> validateAgentSpec z (ra_spec a) = Valid (ra_spec a))"

text \<open>What a caller can do to a runtime; a run carries the world it runs in.\<close>

datatype 'w runtime_event =
    EvRegister agent_spec "bool option"
  | EvUnregister string
  | EvSetEnabled string bool
  | EvReplaceRegistry "'w registry"
  | EvContext int workflow_context
  | EvShadow int string js_object run_frame 'w
  | EvApproved int string js_object run_frame string 'w

definition runtime_step :: "zod \<Rightarrow> 'w local_runtime \<Rightarrow> 'w runtime_event \<Rightarrow> 'w local_runtime" where
  "runtime_step z rt e = (case e of
       EvRegister spec enabled \<Rightarrow> snd (registerAgent z spec enabled rt)
     | EvUnregister i \<Rightarrow> unregisterAgent i rt
     | EvSetEnabled i b \<Rightarrow> setEnabled i b rt
     | EvReplaceRegistry registry \<Rightarrow> replaceRegistry registry rt
     | EvContext now context \<Rightarrow> snd (handleContext now context rt)
     | EvShadow now i inputs frame w \<Rightarrow> fst (snd (runShadow now i inputs frame rt w))
     | EvApproved now i inputs frame sha w \<Rightarrow> fst (snd (runApproved now i inputs frame sha rt w)))"

lemma put_agent_ok:
  assumes "runtime_ok z rt" and "sp_agent_id (ra_spec a) = i"
    and "validateAgentSpec z (ra_spec a) = Valid (ra_spec a)"
  shows "runtime_ok z (put_agent i a rt)"
  using assms jm.all_insert [of "lr_agents rt" "\<lambda>i a. sp_agent_id (ra_spec a) = i
      \<and> validateAgentSpec z (ra_spec a) = Valid (ra_spec a)" i a]
  by (simp add: runtime_ok_def put_agent_def jm.ok_insert)

lemma runtime_ok_get:
  assumes "runtime_ok z rt" and "jget (lr_agents rt) i = Some a"
  shows "sp_agent_id (ra_spec a) = i \<and> validateAgentSpec z (ra_spec a) = Valid (ra_spec a)"
  using assms jm.entries_lookup [of "lr_agents rt" i a] by (fastforce simp: runtime_ok_def)

lemma note_run_ok: "runtime_ok z rt \<Longrightarrow> jget (lr_agents rt) i = Some a \<Longrightarrow> runtime_ok z (note_run i n a rt)"
  unfolding note_run_def by (rule put_agent_ok) (auto dest: runtime_ok_get)

lemma registerAgent_ok: "runtime_ok z rt \<Longrightarrow> runtime_ok z (snd (registerAgent z spec enabled rt))"
  by (auto simp: registerAgent_def Let_def validate_exact intro!: put_agent_ok
      split: validation_result.splits)

lemma unregisterAgent_ok: "runtime_ok z rt \<Longrightarrow> runtime_ok z (unregisterAgent i rt)"
  using jm.all_remove [of "lr_agents rt" "\<lambda>i a. sp_agent_id (ra_spec a) = i
      \<and> validateAgentSpec z (ra_spec a) = Valid (ra_spec a)" i]
  by (simp add: runtime_ok_def unregisterAgent_def jm.ok_remove)

lemma setEnabled_ok: "runtime_ok z rt \<Longrightarrow> runtime_ok z (setEnabled i b rt)"
  by (auto simp: setEnabled_def split: option.splits intro!: put_agent_ok dest: runtime_ok_get)

lemma fire_agents_ok:
  assumes "runtime_ok z rt"
    and "\<forall>(i, a) \<in> set es. sp_agent_id (ra_spec a) = i \<and> validateAgentSpec z (ra_spec a) = Valid (ra_spec a)"
  shows "runtime_ok z (fst (fold (fire_agent now context) es (rt, fs)))"
  using assms
proof (induction es arbitrary: rt fs)
  case (Cons e es)
  then have "runtime_ok z (fst (fire_agent now context e (rt, fs)))"
    by (auto simp: fire_agent_def intro: put_agent_ok)
  with Cons show ?case by (cases "fire_agent now context e (rt, fs)") simp
qed simp

lemma handleContext_ok: "runtime_ok z rt \<Longrightarrow> runtime_ok z (snd (handleContext now context rt))"
  using fire_agents_ok [of z rt "lr_agents rt" now "context" "[]"]
  by (simp add: handleContext_simps runtime_ok_def)

lemma runShadow_ok: "runtime_ok z rt \<Longrightarrow> runtime_ok z (fst (snd (runShadow now i inputs frame rt w)))"
  by (auto simp: runShadow_def Let_def note_run_ok split: option.splits sum.splits prod.splits)

lemma runApproved_ok: "runtime_ok z rt \<Longrightarrow> runtime_ok z (fst (snd (runApproved now i inputs frame sha rt w)))"
  by (auto simp: runApproved_def Let_def note_run_ok split: option.splits sum.splits prod.splits)

lemmas runtime_ok_steps = registerAgent_ok unregisterAgent_ok setEnabled_ok handleContext_ok
  runShadow_ok runApproved_ok

interpretation runtime_keeps: step_invariant "runtime_step z" "runtime_ok z" for z
proof unfold_locales
  fix rt :: "'a local_runtime" and e
  assume ok: "runtime_ok z rt"
  then have "runtime_ok z (replaceRegistry r rt)" for r
    by (simp add: runtime_ok_def replaceRegistry_def)
  with ok show "runtime_ok z (runtime_step z rt e)"
    by (cases e) (simp_all add: runtime_step_def runtime_ok_steps)
qed

lemma restore_agent_ok: "runtime_ok z rt \<Longrightarrow> runtime_ok z (restore_agent z a rt)"
proof (cases "registerAgent z (ra_spec a) (Some (ra_enabled a)) rt")
  case (Pair r rt')
  assume "runtime_ok z rt"
  then have ok: "runtime_ok z rt'"
    using registerAgent_ok [of z rt "ra_spec a" "Some (ra_enabled a)"] Pair by simp
  show ?thesis
  proof (cases r)
    case (RegisteredOk i)
    with Pair have "sp_agent_id (ra_spec a) = i \<and> validateAgentSpec z (ra_spec a) = Valid (ra_spec a)"
      by (auto simp: registerAgent_def Let_def validate_exact split: validation_result.splits if_splits)
    then show ?thesis
      using ok put_agent_ok [OF ok, of "\<lparr>ra_spec = ra_spec a, ra_enabled = ra_enabled a,
           ra_last_triggered_at = ra_last_triggered_at a, ra_last_run_at = ra_last_run_at a\<rparr>" i]
      by (simp add: restore_agent_def Pair RegisteredOk runtime_ok_def put_agent_def)
  qed (simp_all add: restore_agent_def Pair ok)
qed

interpretation restore_keeps: step_invariant "\<lambda>rt a. restore_agent z a rt" "runtime_ok z" for z
  by unfold_locales (rule restore_agent_ok)

lemma new_runtime_ok: "runtime_ok z (new_runtime z registry rid restore)"
  unfolding new_runtime_def by (rule restore_keeps.run_keeps) (simp add: runtime_ok_def jmap_ok_def)

section \<open>Shadow and proposal passes do not see the write side\<close>

definition rewrite_writers where
  "rewrite_writers wr vf registry = map (\<lambda>(i, ad). (i, with_writers (wr i) (vf i) ad)) registry"

lemma jget_rewrite:
  "jget (rewrite_writers wr vf registry) i = map_option (with_writers (wr i) (vf i)) (jget registry i)"
  by (induction registry) (auto simp: rewrite_writers_def jget_Cons)

lemma run_step_rewrite:
  "st_mode step \<noteq> Write \<Longrightarrow>
     run_step (rewrite_writers wr vf registry) rid spec agentInputs ctx step appr outputs w
     = run_step registry rid spec agentInputs ctx step appr outputs w"
  by (auto simp: run_step_def requireAdapter_def jget_rewrite executeStep_ignores_writers split: option.splits)

lemma proposal_pass_rewrite:
  "proposal_pass (rewrite_writers wr vf registry) rid spec agentInputs ctx steps p w
     = proposal_pass registry rid spec agentInputs ctx steps p w"
  by (induction registry rid spec agentInputs ctx steps p w rule: proposal_pass.induct)
    (auto simp: run_step_rewrite split: prod.splits sum.splits)

section \<open>The slices a run writes\<close>

definition pass_ok :: "pass_state \<Rightarrow> bool" where
  "pass_ok p \<longleftrightarrow> (\<forall>k s. jget (ps_by_key p) k = Some s \<longrightarrow>
     (\<exists>d. ps_diff p = Some d \<and> set (df_changes s) \<subseteq> set (df_changes d)))"

lemma merge_changes:
  "df_changes (mergeDiffs a b) = (case a of None \<Rightarrow> [] | Some d \<Rightarrow> df_changes d) @ df_changes b"
  by (simp add: mergeDiffs_def split: option.splits)

lemma note_execution_ok: "pass_ok p \<Longrightarrow> pass_ok (note_execution step r outputs p)"
  unfolding pass_ok_def note_execution_def Let_def
  by (auto simp: merge_changes jm.lookup_insert split: step_execution.splits jvalue.splits option.splits)
    (fastforce split: if_splits)+

lemma proposal_pass_ok:
  "proposal_pass registry rid spec agentInputs ctx steps p w = (Inr p', w') \<Longrightarrow> pass_ok p \<Longrightarrow> pass_ok p'"
  by (induction registry rid spec agentInputs ctx steps p w rule: proposal_pass.induct)
    (auto simp: note_execution_ok split: prod.splits sum.splits if_splits)

lemma pass_start_ok: "pass_ok pass_start"
  by (simp add: pass_ok_def pass_start_def)

section \<open>What one observed context does\<close>

lemma fire_agents_get:
  assumes "distinct (map fst es)"
  shows "jget (lr_agents (fst (fold (fire_agent now context) es (rt, fs)))) i
     = (case jget es i of
         Some a \<Rightarrow> if fires now context a then Some (a\<lparr>ra_last_triggered_at := Some now\<rparr>)
                  else jget (lr_agents rt) i
       | None \<Rightarrow> jget (lr_agents rt) i)"
  using assms
proof (induction es arbitrary: rt fs)
  case (Cons e es)
  then have new: "jget es (fst e) = None" by (simp add: jget_def map_of_eq_None_iff)
  from Cons show ?case
    by (cases "fires now context (snd e)")
      (auto simp: fire_agent_def put_agent_def jm.lookup_insert jget_Cons new split: option.splits)
qed simp

lemma fire_agents_firings:
  "snd (fold (fire_agent now context) es (rt, fs)) = fs @ map (\<lambda>e.
     \<lparr>tf_agent_id = sp_agent_id (ra_spec (snd e)), tf_agent_name = sp_name (ra_spec (snd e)),
      tf_trigger = sp_trigger (ra_spec (snd e)), tf_context = context\<rparr>)
      (filter (\<lambda>e. fires now context (snd e)) es)"
  by (induction es arbitrary: rt fs) (simp_all add: fire_agent_def)

lemma handleContext_fired:
  assumes ok: "runtime_ok z rt" and f: "f \<in> set (fst (handleContext now context rt))"
  shows "\<exists>a. jget (lr_agents rt) (tf_agent_id f) = Some a \<and> fires now context a
    \<and> tf_trigger f = sp_trigger (ra_spec a)
    \<and> jget (lr_agents (snd (handleContext now context rt))) (tf_agent_id f)
        = Some (a\<lparr>ra_last_triggered_at := Some now\<rparr>)"
proof -
  from f obtain i a where mem: "(i, a) \<in> set (lr_agents rt)" and fires: "fires now context a"
    and id_eq: "tf_agent_id f = sp_agent_id (ra_spec a)" "tf_trigger f = sp_trigger (ra_spec a)"
    by (auto simp: handleContext_simps fire_agents_firings)
  from ok mem have get: "jget (lr_agents rt) i = Some a" and i: "sp_agent_id (ra_spec a) = i"
    using jm.entries_lookup [of "lr_agents rt" i a] by (auto simp: runtime_ok_def)
  have "distinct (map fst (lr_agents rt))" using ok by (simp add: runtime_ok_def jmap_ok_def)
  from fire_agents_get [OF this, of now "context" rt "[]" i] get fires
  have "jget (lr_agents (snd (handleContext now context rt))) i = Some (a\<lparr>ra_last_triggered_at := Some now\<rparr>)"
    by (simp add: handleContext_simps)
  with get fires id_eq i show ?thesis by auto
qed

section \<open>Properties\<close>

text \<open>
  C26: Whatever is done to a runtime built from whatever was persisted, every agent it holds is held
  under its own id and passed the validator: nothing unvalidated is ever runnable.
\<close>

theorem runtime_holds_only_validated_agents:
  "list_all (\<lambda>(i, a). sp_agent_id (ra_spec a) = i \<and> validateAgentSpec z (ra_spec a) = Valid (ra_spec a))
     (lr_agents (foldl (runtime_step z) (new_runtime z registry rid restore) events))"
  using runtime_keeps.run_keeps [OF new_runtime_ok [of z registry rid restore], of events]
  by (simp add: runtime_ok_def list_all_iff)

text \<open>
  C28: Registration succeeds only for a specification every step of which has, in the runtime's
  registry, an adapter that implements the step's mode, and the fresh agent has no history.
\<close>

theorem registerAgent_checks_registry:
  assumes "fst (registerAgent z spec enabled rt) = RegisteredOk i" and "jmap_ok (lr_registry rt)"
  shows "i = sp_agent_id spec
    \<and> (\<forall>step \<in> set (sp_steps spec). \<exists>ad. jget (lr_registry rt) (st_capability_id step) = Some ad
         \<and> implements ad (st_mode step))
    \<and> jget (lr_agents (snd (registerAgent z spec enabled rt))) i = Some \<lparr>ra_spec = spec,
        ra_enabled = or_else enabled True, ra_last_triggered_at = None, ra_last_run_at = None\<rparr>"
proof -
  from assms(1) have ready: "rr_ready (validateRuntimeCapabilities (sp_steps spec)
        (runtimeFromRegistry (lr_runtime_id rt) (lr_registry rt) []))"
    and id_eq: "i = sp_agent_id spec" and valid: "validateAgentSpec z spec = Valid spec"
    by (auto simp: registerAgent_def Let_def validate_exact split: validation_result.splits if_splits)
  then have "missing_for (runtimeFromRegistry (lr_runtime_id rt) (lr_registry rt) []) step = []"
    if "step \<in> set (sp_steps spec)" for step
    using that by (auto simp: validateRuntimeCapabilities_def Let_def)
  then have "\<forall>step \<in> set (sp_steps spec). \<exists>ad. jget (lr_registry rt) (st_capability_id step) = Some ad
         \<and> implements ad (st_mode step)"
    using ready_step [OF assms(2)] by blast
  then show ?thesis
    using id_eq valid ready
    by (auto simp: registerAgent_def Let_def put_agent_def jm.lookup_insert)
qed

text \<open>
  C25: A shadow run never reaches a write: replacing the \<open>write\<close> and \<open>verify\<close> of every adapter of the
  registry by anything changes neither the outcome nor the world it leaves.
\<close>

theorem runShadow_ignores_writers:
  "fst (runShadow now i agentInputs frame (rt\<lparr>lr_registry := rewrite_writers wr vf (lr_registry rt)\<rparr>) w)
     = fst (runShadow now i agentInputs frame rt w)
   \<and> snd (snd (runShadow now i agentInputs frame (rt\<lparr>lr_registry := rewrite_writers wr vf (lr_registry rt)\<rparr>) w))
     = snd (snd (runShadow now i agentInputs frame rt w))"
  by (simp add: runShadow_def Let_def proposal_pass_rewrite split: option.split sum.split prod.split)

text \<open>
  C2: An approved run completes only when the diff it re-proposed against the live surface has the
  approved digest; when it aborts as stale the digests differ or nothing was proposed, and when it
  aborts or lacks an input nothing was written: any other write side gives the same outcome and
  leaves the same world.
\<close>

theorem runApproved_writes_only_fresh_approval:
  "case fst (runApproved now i agentInputs frame sha rt w) of
     ApprovedCompleted diff verified detail \<Rightarrow> diffSha256 diff = sha
   | AbortedStale approved fresh diff \<Rightarrow>
       approved = sha \<and> (case diff of None \<Rightarrow> fresh = [] | Some d \<Rightarrow> fresh = diffSha256 d \<and> fresh \<noteq> sha)
       \<and> fst (runApproved now i agentInputs frame sha
            (rt\<lparr>lr_registry := rewrite_writers wr vf (lr_registry rt)\<rparr>) w) = AbortedStale approved fresh diff
       \<and> snd (snd (runApproved now i agentInputs frame sha
            (rt\<lparr>lr_registry := rewrite_writers wr vf (lr_registry rt)\<rparr>) w))
         = snd (snd (runApproved now i agentInputs frame sha rt w))
   | ApprovedNeedsInput detail \<Rightarrow> snd (runApproved now i agentInputs frame sha rt w) = (rt, w)
   | ApprovedFailed detail \<Rightarrow> fst (snd (runApproved now i agentInputs frame sha rt w)) = rt"
  by (simp add: runApproved_def Let_def proposal_pass_rewrite split: option.split sum.split prod.split)

text \<open>
  What a write step is handed is part of what the user approved: after the proposals of a run
  every slice a write step can select, by its \<open>pairs_with\<close> key or as the whole, holds only changes
  of the merged diff.
\<close>

theorem write_slices_within_merged_diff:
  "case fst (proposal_pass registry rid spec agentInputs ctx steps pass_start w) of
     Inl e \<Rightarrow> True
   | Inr p \<Rightarrow> (case pair_slice p step of
       None \<Rightarrow> True
     | Some part \<Rightarrow> (case ps_diff p of
         None \<Rightarrow> False | Some merged \<Rightarrow> set (df_changes part) \<subseteq> set (df_changes merged)))"
proof (cases "proposal_pass registry rid spec agentInputs ctx steps pass_start w")
  case (Pair r w')
  show ?thesis
  proof (cases r)
    case (Inr p)
    with Pair have "proposal_pass registry rid spec agentInputs ctx steps pass_start w = (Inr p, w')"
      by simp
    from proposal_pass_ok [OF this pass_start_ok] have "pass_ok p" .
    then show ?thesis
      by (auto simp: Pair Inr pair_slice_def pass_ok_def
          split: option.splits step_binding.splits literal.splits) fastforce+
  qed (simp add: Pair)
qed


definition fx_watch :: agent_spec where
  "fx_watch = fx_spec [fx_read]\<lparr>sp_trigger := TContext ''crm'' None None 60\<rparr>"

lemma fx_watch_valid: "validateAgentSpec fx_zod fx_watch = Valid fx_watch"
proof -
  have "spec_schema fx_zod fx_watch" by (simp add: schema_defs fx_zod_def fx_watch_def fx_defs)
  moreover have "step_capability_ok fx_read" using fx_three_steps_ok by blast
  then have "well_formed_spec fx_watch"
    by (simp add: well_formed_spec_def fx_watch_def schedule_ok_def)
      (simp add: fx_defs)
  ultimately show ?thesis by (simp add: validate_exact)
qed

definition fx_runtime :: "nat local_runtime" where
  "fx_runtime = \<lparr>lr_agents = [], lr_registry = [(''google_sheets.read_range'', fx_sheet)],
     lr_runtime_id = ''local'', lr_changed = []\<rparr>"

definition fx_seen :: workflow_context where
  "fx_seen = \<lparr>wc_source = ''chrome'', wc_app_category = ''crm'', wc_event_type = ''record_opened'',
     wc_target_role = ''row'', wc_semantic_type = ''account'', wc_object_type = ''account'',
     wc_domain = None, wc_occurred_at = 0\<rparr>"

definition fx_watching :: "nat local_runtime" where
  "fx_watching = put_agent ''agent-1'' \<lparr>ra_spec = fx_watch, ra_enabled = True,
     ra_last_triggered_at = None, ra_last_run_at = None\<rparr> fx_runtime"

lemma fx_watching_ok: "runtime_ok fx_zod fx_watching"
  unfolding fx_watching_def
  by (rule put_agent_ok) (simp_all add: runtime_ok_def fx_runtime_def jmap_ok_def fx_watch_valid,
    simp add: fx_watch_def fx_spec_def)

definition fx_firing :: trigger_firing where
  "fx_firing = \<lparr>tf_agent_id = ''agent-1'', tf_agent_name = ''Reconcile'',
     tf_trigger = TContext ''crm'' None None 60, tf_context = fx_seen\<rparr>"

lemma fx_watching_fires: "fst (handleContext 5000 fx_seen fx_watching) = [fx_firing]"
  by (simp add: handleContext_simps fx_watching_def fx_runtime_def put_agent_def jset_def fire_agent_def
      fires_def selector_matches_def cooled_down_def fx_watch_def fx_spec_def fx_seen_def fx_firing_def)


theorem registerAgent_checks_registry_witness:
  "\<exists>ad. jget (lr_registry fx_runtime) ''google_sheets.read_range'' = Some ad \<and> implements ad Read"
proof -
  have "missing_for (runtimeFromRegistry ''local'' [(''google_sheets.read_range'', fx_sheet)] []) fx_read = []"
    by (simp add: missing_for_def Let_def fx_step_defs fx_caps
        runtimeFromRegistry_def jm.lookup_insert implemented_modes_def fx_sheet_def)
  then have "fst (registerAgent fx_zod fx_watch None fx_runtime) = RegisteredOk ''agent-1''"
    by (simp add: registerAgent_def fx_watch_valid Let_def validateRuntimeCapabilities_def fx_runtime_def)
      (simp add: fx_watch_def validateRuntimeCapabilities_def fx_spec_def)
  from registerAgent_checks_registry [OF this] show ?thesis
    by (simp add: fx_runtime_def jmap_ok_def) (simp add: fx_watch_def fx_defs)
qed

end
