(* ===== verification/Workflow.thy ===== *)
theory Workflow
  imports Local_Runtime
begin

text \<open>
  Durable execution, \<open>packages/agent-runtime/src/workflow.ts\<close>: the workflow's state, its signal
  handlers, the ordering of activities, approval waits and the final status. The activities are
  parameters that act on a world of any type; with its answer each returns the signals that were
  delivered while the workflow waited for it, and \<open>wa_condition\<close> the signals delivered before an
  approval wait resumed. The arguments every call repeats unchanged (\<open>run\<close>, \<open>spec\<close>) are left
  out of the activities' types, and \<open>model_cost_usd\<close> stands with them. An activity that throws after its retries is an \<open>Inl\<close>. Two ghost fields
  record history: \<open>ws_signals\<close> the signals delivered and \<open>ws_writes\<close> the write activities
  dispatched.
\<close>

section \<open>Signals and state\<close>

record approve_payload =
  av_step_id :: string
  av_diff_hash :: string
  av_approver_user_id :: string

datatype wf_signal =
    ApproveStep approve_payload
  | RejectStep string string
  | CancelRun string string

datatype activity_status = ActCompleted | ActProposed | ActSkippedShadowWrite | ActFailed

record activity_result =
  ar_status :: activity_status
  ar_outputs :: js_object
  ar_diff_sha256 :: "string option"
  ar_diff :: "proposed_diff option"
  ar_change_count :: "int option"
  ar_verified :: "bool option"
  ar_verify_detail :: "string option"
  ar_idempotency_key :: "string option"
  ar_error_code :: "string option"
  ar_error_retry_safe :: "bool option"
  ar_cost_usd :: "rat option"
  ar_records_read :: "int option"

record step_summary =
  su_step_id :: string
  su_step_order :: nat
  su_capability_id :: string
  su_mode :: step_mode
  su_status :: step_status
  su_diff_sha256 :: "string option"
  su_error_code :: "string option"
  su_started_at :: "int option"
  su_completed_at :: "int option"

record pending_approval =
  pa_step_id :: string
  pa_diff_sha256 :: string

record write_event =
  we_step :: agent_step
  we_sha :: string
  we_diff :: "proposed_diff option"
  we_approval :: "approve_payload option"
  we_policy :: decision

record wf_state =
  ws_status :: string
  ws_pending :: "pending_approval option"
  ws_approval :: "approve_payload option"
  ws_rejection :: "(string \<times> string) option"
  ws_cancellation :: "(string \<times> string) option"
  ws_totalCost :: rat
  ws_interventionMs :: int
  ws_summaries :: "step_summary list"
  ws_outputs :: js_object
  ws_proposedChanges :: int
  ws_completedWrites :: nat
  ws_warnings :: bool
  ws_proposedDiff :: "proposed_diff option"
  ws_lastDiffSha :: "string option"
  ws_lastDiff :: "proposed_diff option"
  ws_receipt :: "jvalue option"
  ws_signals :: "wf_signal list"
  ws_writes :: "write_event list"

definition deliver :: "wf_signal \<Rightarrow> wf_state \<Rightarrow> wf_state" where
  "deliver sig s0 =
     (let s = s0\<lparr>ws_signals := ws_signals s0 @ [sig]\<rparr> in
      case sig of
        ApproveStep p \<Rightarrow>
          (case ws_pending s of
            None \<Rightarrow> s
          | Some pa \<Rightarrow>
              if av_step_id p = pa_step_id pa \<and> av_diff_hash p = pa_diff_sha256 pa
              then s\<lparr>ws_approval := Some p\<rparr> else s)
      | RejectStep i why \<Rightarrow>
          (case ws_pending s of
            None \<Rightarrow> s
          | Some pa \<Rightarrow> if i = pa_step_id pa then s\<lparr>ws_rejection := Some (i, why)\<rparr> else s)
      | CancelRun actor why \<Rightarrow> s\<lparr>ws_cancellation := Some (actor, why)\<rparr>)"

definition deliver_all :: "wf_signal list \<Rightarrow> wf_state \<Rightarrow> wf_state" where
  "deliver_all sigs s = fold deliver sigs s"

section \<open>Activities and the workflow monad\<close>

datatype run_trigger_type = RunManual | RunSchedule | RunEvent

record run_trigger =
  rg_type :: run_trigger_type
  rg_actor_user_id :: "string option"
  rg_idempotency_key :: string

record run_input =
  ru_run_id :: string
  ru_agent_id :: string
  ru_agent_version_id :: string
  ru_organization_id :: string
  ru_owner_user_id :: string
  ru_mode :: run_mode
  ru_trigger :: run_trigger
  ru_agent_inputs :: js_object
  ru_policy_version_id :: string
  ru_requested_at :: int

type_synonym ('w, 'a) activity = "'w \<Rightarrow> (string + 'a) \<times> wf_signal list \<times> 'w"

datatype final_status = WfCompleted | WfCompletedWithWarnings | WfFailed | WfCancelled | WfExpired
  | WfPolicyBlocked

record workflow_result =
  wr_status :: final_status
  wr_proposed_changes :: int
  wr_completed_writes :: nat
  wr_total_cost_usd :: rat

record 'w run_activities =
  wa_evaluateRunPolicy :: "('w, decision) activity"
  wa_executeReadStep :: "agent_step \<Rightarrow> js_object \<Rightarrow> ('w, activity_result) activity"
  wa_executeWriteStep :: "agent_step \<Rightarrow> js_object \<Rightarrow> string \<Rightarrow> proposed_diff option \<Rightarrow> ('w, activity_result) activity"
  wa_createApproval :: "string \<Rightarrow> string \<Rightarrow> nat \<Rightarrow> ('w, unit) activity"
  wa_recordRunStatus :: "string \<Rightarrow> ('w, unit) activity"
  wa_recordStepResult :: "agent_step \<Rightarrow> activity_result \<Rightarrow> ('w, unit) activity"
  wa_finalizeRun :: "final_status \<Rightarrow> step_summary list \<Rightarrow> int \<Rightarrow> rat \<Rightarrow> rat \<Rightarrow> ('w, jvalue) activity"
  wa_condition :: "nat \<Rightarrow> 'w \<Rightarrow> wf_signal list \<times> 'w"
  wa_now :: "'w \<Rightarrow> int"
  wa_model_cost_usd :: "rat option"

datatype wf_stop = Finished workflow_result | Crashed string

type_synonym ('w, 'a) wf = "wf_state \<times> 'w \<Rightarrow> (wf_stop + 'a) \<times> wf_state \<times> 'w"

definition wf_return :: "'a \<Rightarrow> ('w, 'a) wf" where
  "wf_return a sw = (Inr a, sw)"

definition wf_bind :: "('w, 'a) wf \<Rightarrow> ('a \<Rightarrow> ('w, 'b) wf) \<Rightarrow> ('w, 'b) wf" where
  "wf_bind m f sw = (case m sw of (Inl stop, sw') \<Rightarrow> (Inl stop, sw') | (Inr a, sw') \<Rightarrow> f a sw')"

definition wf_then :: "('w, unit) wf \<Rightarrow> ('w, 'b) wf \<Rightarrow> ('w, 'b) wf" where
  "wf_then m n = wf_bind m (\<lambda>_. n)"

definition wf_modify :: "(wf_state \<Rightarrow> wf_state) \<Rightarrow> ('w, unit) wf" where
  "wf_modify f sw = (Inr (), f (fst sw), snd sw)"

definition wf_get :: "(wf_state \<Rightarrow> 'a) \<Rightarrow> ('w, 'a) wf" where
  "wf_get f sw = (Inr (f (fst sw)), sw)"

definition wf_stop_with :: "wf_stop \<Rightarrow> ('w, 'a) wf" where
  "wf_stop_with stop sw = (Inl stop, sw)"

definition wf_try :: "('w, 'a) activity \<Rightarrow> ('w, string + 'a) wf" where
  "wf_try act sw = (case act (snd sw) of (r, sigs, w') \<Rightarrow> (Inr r, deliver_all sigs (fst sw), w'))"

definition wf_call :: "('w, 'a) activity \<Rightarrow> ('w, 'a) wf" where
  "wf_call act sw = (case act (snd sw) of
      (Inl m, sigs, w') \<Rightarrow> (Inl (Crashed m), deliver_all sigs (fst sw), w')
    | (Inr a, sigs, w') \<Rightarrow> (Inr a, deliver_all sigs (fst sw), w'))"

section \<open>agentRunWorkflow\<close>

definition final_name :: "final_status \<Rightarrow> string" where
  "final_name st = (case st of WfCompleted \<Rightarrow> ''completed'' | WfCompletedWithWarnings \<Rightarrow> ''completed_with_warnings''
    | WfFailed \<Rightarrow> ''failed'' | WfCancelled \<Rightarrow> ''cancelled'' | WfExpired \<Rightarrow> ''expired''
    | WfPolicyBlocked \<Rightarrow> ''policy_blocked'')"

definition run_result :: "final_status \<Rightarrow> wf_state \<Rightarrow> workflow_result" where
  "run_result st s = \<lparr>wr_status = st, wr_proposed_changes = ws_proposedChanges s,
     wr_completed_writes = ws_completedWrites s, wr_total_cost_usd = ws_totalCost s\<rparr>"

definition finish :: "'w run_activities \<Rightarrow> final_status \<Rightarrow> ('w, 'a) wf" where
  "finish acts st =
     wf_then (wf_modify (\<lambda>s. s\<lparr>ws_status := final_name st\<rparr>))
      (wf_bind (wf_get id) (\<lambda>s.
       wf_bind (wf_call (wa_finalizeRun acts st (ws_summaries s) (ws_interventionMs s) (ws_totalCost s)
                          (or_else (wa_model_cost_usd acts) 0))) (\<lambda>receipt.
       wf_then (wf_modify (\<lambda>s. s\<lparr>ws_receipt := Some receipt\<rparr>))
        (wf_bind (wf_get (run_result st)) (\<lambda>res. wf_stop_with (Finished res))))))"

definition set_last :: "(step_summary \<Rightarrow> step_summary) \<Rightarrow> wf_state \<Rightarrow> wf_state" where
  "set_last f s = (if ws_summaries s = [] then s
     else s\<lparr>ws_summaries := butlast (ws_summaries s) @ [f (last (ws_summaries s))]\<rparr>)"

definition mark :: "step_status \<Rightarrow> wf_state \<Rightarrow> wf_state" where
  "mark st = set_last (\<lambda>m. m\<lparr>su_status := st\<rparr>)"

definition mark_failed :: "activity_result \<Rightarrow> wf_state \<Rightarrow> wf_state" where
  "mark_failed r = set_last (\<lambda>m. m\<lparr>su_status := SFailed,
     su_error_code := (if truthy_str (ar_error_code r) then ar_error_code r else su_error_code m)\<rparr>)"

definition open_summary :: "agent_step \<Rightarrow> wf_state \<Rightarrow> wf_state" where
  "open_summary step s = s\<lparr>ws_summaries := ws_summaries s @
     [\<lparr>su_step_id = st_id step, su_step_order = st_order step, su_capability_id = st_capability_id step,
       su_mode = st_mode step, su_status = SRunning, su_diff_sha256 = None, su_error_code = None,
       su_started_at = None, su_completed_at = None\<rparr>]\<rparr>"

definition take_result :: "activity_result \<Rightarrow> wf_state \<Rightarrow> wf_state" where
  "take_result r s = s\<lparr>ws_outputs := ar_outputs r, ws_totalCost := ws_totalCost s + or_else (ar_cost_usd r) 0\<rparr>"

definition note_proposal :: "activity_result \<Rightarrow> wf_state \<Rightarrow> wf_state" where
  "note_proposal r s =
     (let s1 = mark SCompleted s in
      if truthy_str (ar_diff_sha256 r)
      then (set_last (\<lambda>m. m\<lparr>su_diff_sha256 := ar_diff_sha256 r\<rparr>) s1)
        \<lparr>ws_lastDiffSha := ar_diff_sha256 r, ws_lastDiff := ar_diff r, ws_proposedDiff := ar_diff r,
         ws_proposedChanges := ws_proposedChanges s1 + or_else (ar_change_count r) 0\<rparr>
      else s1)"

definition set_status :: "'w run_activities \<Rightarrow> string \<Rightarrow> ('w, unit) wf" where
  "set_status acts st = wf_then (wf_modify (\<lambda>s. s\<lparr>ws_status := st\<rparr>)) (wf_call (wa_recordRunStatus acts st))"

definition read_step :: "'w run_activities \<Rightarrow> agent_step \<Rightarrow> ('w, unit) wf" where
  "read_step acts step =
     wf_then (set_status acts (if st_mode step = Read then ''running_read'' else ''preparing_diff''))
      (wf_bind (wf_get ws_outputs) (\<lambda>outputs.
       wf_bind (wf_try (wa_executeReadStep acts step outputs)) (\<lambda>res. case res of
         Inl m \<Rightarrow> wf_then (wf_modify (mark SFailed)) (finish acts WfFailed)
       | Inr r \<Rightarrow>
           wf_then (wf_modify (take_result r))
            (if ar_status r = ActFailed
             then wf_then (wf_modify (mark_failed r))
                    (wf_then (wf_call (wa_recordStepResult acts step r)) (finish acts WfFailed))
             else wf_then (wf_modify (note_proposal r)) (wf_call (wa_recordStepResult acts step r))))))"

definition skipped_result :: "js_object \<Rightarrow> activity_result" where
  "skipped_result outputs = \<lparr>ar_status = ActSkippedShadowWrite, ar_outputs = outputs, ar_diff_sha256 = None,
     ar_diff = None, ar_change_count = None, ar_verified = None, ar_verify_detail = None,
     ar_idempotency_key = None, ar_error_code = None, ar_error_retry_safe = None, ar_cost_usd = None,
     ar_records_read = None\<rparr>"

definition wait_decision :: "'w run_activities \<Rightarrow> nat \<Rightarrow> ('w, bool) wf" where
  "wait_decision acts minutes sw =
     (case wa_condition acts minutes (snd sw) of (sigs, w') \<Rightarrow>
       (let s1 = deliver_all sigs (fst sw);
            s2 = s1\<lparr>ws_interventionMs := ws_interventionMs s1 + (wa_now acts w' - wa_now acts (snd sw)),
                    ws_pending := None\<rparr>
        in (Inr (ws_approval s1 \<noteq> None \<or> ws_rejection s1 \<noteq> None \<or> ws_cancellation s1 \<noteq> None), s2, w')))"

definition approval_gate :: "'w run_activities \<Rightarrow> agent_spec \<Rightarrow> agent_step \<Rightarrow> string \<Rightarrow> ('w, unit) wf" where
  "approval_gate acts spec step sha =
     (let minutes = fp_approval_timeout_minutes (sp_failure_policy spec) in
      wf_then (wf_modify (\<lambda>s. mark SWaitingApproval (s\<lparr>ws_pending := Some \<lparr>pa_step_id = st_id step,
                 pa_diff_sha256 = sha\<rparr>, ws_approval := None, ws_rejection := None,
                 ws_status := ''waiting_approval''\<rparr>)))
       (wf_then (wf_call (wa_recordRunStatus acts ''waiting_approval''))
        (wf_then (wf_call (wa_createApproval acts (st_id step) sha minutes))
         (wf_bind (wait_decision acts minutes) (\<lambda>decided.
           if \<not> decided then finish acts WfExpired
           else wf_bind (wf_get (\<lambda>s. ws_cancellation s \<noteq> None \<or> ws_rejection s \<noteq> None))
             (\<lambda>stop. if stop then finish acts WfCancelled else wf_return ()))))))"

definition note_write :: "agent_step \<Rightarrow> string \<Rightarrow> decision \<Rightarrow> wf_state \<Rightarrow> wf_state" where
  "note_write step sha policy s = s\<lparr>ws_writes := ws_writes s @ [\<lparr>we_step = step, we_sha = sha,
     we_diff = ws_lastDiff s, we_approval = (if ap_required (st_approval step) then ws_approval s else None),
     we_policy = policy\<rparr>]\<rparr>"

definition dispatch_write_step :: "'w run_activities \<Rightarrow> agent_step \<Rightarrow> string \<Rightarrow> decision \<Rightarrow> ('w, unit) wf" where
  "dispatch_write_step acts step sha policy =
     wf_then (set_status acts ''applying_write'')
      (wf_bind (wf_get (\<lambda>s. (ws_outputs s, ws_lastDiff s))) (\<lambda>(outputs, diff).
        wf_then (wf_modify (note_write step sha policy))
        (wf_bind (wf_try (wa_executeWriteStep acts step outputs sha diff)) (\<lambda>res. case res of
          Inl m \<Rightarrow> wf_then (wf_modify (mark SFailed)) (finish acts WfFailed)
        | Inr r \<Rightarrow>
            wf_then (wf_modify (take_result r))
             (if ar_status r = ActFailed
              then wf_then (wf_modify (mark_failed r)) (finish acts WfFailed)
              else wf_then (set_status acts ''verifying'')
               (wf_then (wf_modify (\<lambda>s. mark SCompleted (s\<lparr>ws_completedWrites := ws_completedWrites s + 1,
                   ws_warnings := ws_warnings s \<or> ar_verified r = Some False\<rparr>)))
                 (wf_call (wa_recordStepResult acts step r))))))))"

definition write_step :: "'w run_activities \<Rightarrow> run_input \<Rightarrow> agent_spec \<Rightarrow> agent_step \<Rightarrow> ('w, unit) wf" where
  "write_step acts run spec step =
     (if ru_mode run = RunShadow
      then wf_then (wf_modify (mark SSkipped))
             (wf_bind (wf_get ws_outputs) (\<lambda>outputs.
               wf_call (wa_recordStepResult acts step (skipped_result outputs))))
      else wf_bind (wf_get ws_lastDiffSha) (\<lambda>last_sha.
        if \<not> truthy_str last_sha then wf_then (wf_modify (mark SFailed)) (finish acts WfFailed)
        else wf_then (if ap_required (st_approval step) then approval_gate acts spec step (the last_sha)
                      else wf_return ())
          (wf_bind (wf_call (wa_evaluateRunPolicy acts)) (\<lambda>recheck.
             if recheck = Deny then finish acts WfPolicyBlocked
             else dispatch_write_step acts step (the last_sha) recheck))))"

fun run_steps :: "'w run_activities \<Rightarrow> run_input \<Rightarrow> agent_spec \<Rightarrow> agent_step list \<Rightarrow> ('w, unit) wf" where
  "run_steps acts run spec [] = wf_return ()"
| "run_steps acts run spec (step # steps) =
     wf_bind (wf_get ws_cancellation) (\<lambda>c.
       if c \<noteq> None then finish acts WfCancelled
       else wf_then (wf_modify (open_summary step))
         (wf_then (if st_mode step = Write then write_step acts run spec step else read_step acts step)
            (run_steps acts run spec steps)))"

definition workflow_body :: "'w run_activities \<Rightarrow> run_input \<Rightarrow> agent_spec \<Rightarrow> ('w, unit) wf" where
  "workflow_body acts run spec =
     wf_then (wf_call (wa_recordRunStatus acts ''validating''))
      (wf_bind (wf_call (wa_evaluateRunPolicy acts)) (\<lambda>policy.
        if policy = Deny then finish acts WfPolicyBlocked
        else if validateAgentInputs spec (ru_agent_inputs run) \<noteq> [] then finish acts WfFailed
        else wf_then (run_steps acts run spec (ordered_steps spec))
          (wf_bind (wf_get ws_warnings) (\<lambda>warnings.
             finish acts (if warnings then WfCompletedWithWarnings else WfCompleted)))))"

definition wf_start :: "run_input \<Rightarrow> wf_state" where
  "wf_start run = \<lparr>ws_status = ''validating'', ws_pending = None, ws_approval = None, ws_rejection = None,
     ws_cancellation = None, ws_totalCost = 0, ws_interventionMs = 0, ws_summaries = [],
     ws_outputs = ru_agent_inputs run, ws_proposedChanges = 0, ws_completedWrites = 0,
     ws_warnings = False, ws_proposedDiff = None, ws_lastDiffSha = None, ws_lastDiff = None,
     ws_receipt = None, ws_signals = [], ws_writes = []\<rparr>"

definition agentRunWorkflow :: "'w run_activities \<Rightarrow> run_input \<Rightarrow> agent_spec \<Rightarrow> 'w
    \<Rightarrow> (wf_stop + unit) \<times> wf_state \<times> 'w" where
  "agentRunWorkflow acts run spec w = workflow_body acts run spec (wf_start run, w)"

section \<open>Reasoning about workflow code\<close>

text \<open>
  \<open>wf_triple E P m Q\<close>: from a state with \<open>P\<close>, the code \<open>m\<close> either returns with \<open>Q\<close> or stops the
  workflow with \<open>E\<close>, whatever the activities do and whatever signals arrive while it waits.
\<close>

definition wf_triple :: "(wf_stop \<Rightarrow> wf_state \<Rightarrow> bool) \<Rightarrow> (wf_state \<Rightarrow> bool) \<Rightarrow> ('w, 'a) wf
    \<Rightarrow> ('a \<Rightarrow> wf_state \<Rightarrow> bool) \<Rightarrow> bool" where
  "wf_triple E P m Q \<longleftrightarrow> (\<forall>s w. P s \<longrightarrow>
     (case m (s, w) of (Inl stop, s', _) \<Rightarrow> E stop s' | (Inr a, s', _) \<Rightarrow> Q a s'))"

definition signal_stable :: "(wf_state \<Rightarrow> bool) \<Rightarrow> bool" where
  "signal_stable P \<longleftrightarrow> (\<forall>s sig. P s \<longrightarrow> P (deliver sig s))"

lemma wf_tripleD:
  "wf_triple E P m Q \<Longrightarrow> P s \<Longrightarrow>
     (case m (s, w) of (Inl stop, s', _) \<Rightarrow> E stop s' | (Inr a, s', _) \<Rightarrow> Q a s')"
  by (simp add: wf_triple_def)

lemma wf_stops_with:
  assumes "wf_triple E P m Q" and "P s" and "m (s, w) = (Inl stop, s', w')" shows "E stop s'"
  using wf_tripleD [OF assms(1,2), of w] assms(3) by simp

lemma wf_weaken:
  "wf_triple E P' m Q' \<Longrightarrow> (\<And>s. P s \<Longrightarrow> P' s) \<Longrightarrow> (\<And>a s. Q' a s \<Longrightarrow> Q a s) \<Longrightarrow> wf_triple E P m Q"
  by (fastforce simp: wf_triple_def split: prod.splits sum.splits)

lemma wf_return_rule: "(\<And>s. P s \<Longrightarrow> Q a s) \<Longrightarrow> wf_triple E P (wf_return a) Q"
  by (simp add: wf_triple_def wf_return_def)

lemma wf_stop_rule: "(\<And>s. P s \<Longrightarrow> E stop s) \<Longrightarrow> wf_triple E P (wf_stop_with stop) Q"
  by (simp add: wf_triple_def wf_stop_with_def)

lemma wf_modify_rule: "(\<And>s. P s \<Longrightarrow> Q () (f s)) \<Longrightarrow> wf_triple E P (wf_modify f) Q"
  by (simp add: wf_triple_def wf_modify_def)

lemma wf_bind_rule:
  "wf_triple E P m R \<Longrightarrow> (\<And>a. wf_triple E (R a) (f a) Q) \<Longrightarrow> wf_triple E P (wf_bind m f) Q"
  by (fastforce simp: wf_triple_def wf_bind_def split: prod.splits sum.splits)

lemma wf_then_rule:
  "wf_triple E P m (\<lambda>_. R) \<Longrightarrow> wf_triple E R n Q \<Longrightarrow> wf_triple E P (wf_then m n) Q"
  unfolding wf_then_def by (rule wf_bind_rule)

lemma wf_modify_then_rule:
  "(\<And>s. P s \<Longrightarrow> R (f s)) \<Longrightarrow> wf_triple E R n Q \<Longrightarrow> wf_triple E P (wf_then (wf_modify f) n) Q"
  by (rule wf_then_rule, rule wf_modify_rule)

lemma wf_get_bind_rule:
  "(\<And>v. wf_triple E (\<lambda>s. P s \<and> f s = v) (g v) Q) \<Longrightarrow> wf_triple E P (wf_bind (wf_get f) g) Q"
  by (simp add: wf_triple_def wf_bind_def wf_get_def)

lemma wf_get_bind_simple: "(\<And>v. wf_triple E P (g v) Q) \<Longrightarrow> wf_triple E P (wf_bind (wf_get f) g) Q"
  by (simp add: wf_triple_def wf_bind_def wf_get_def)

lemma deliver_all_stable: "signal_stable P \<Longrightarrow> P s \<Longrightarrow> P (deliver_all sigs s)"
  unfolding deliver_all_def by (induction sigs arbitrary: s) (auto simp: signal_stable_def)

lemma wf_call_rule:
  "signal_stable P \<Longrightarrow> (\<And>m s. P s \<Longrightarrow> E (Crashed m) s) \<Longrightarrow> wf_triple E P (wf_call act) (\<lambda>_. P)"
  by (auto simp: wf_triple_def wf_call_def deliver_all_stable split: prod.splits sum.splits)

lemma wf_try_rule: "signal_stable P \<Longrightarrow> wf_triple E P (wf_try act) (\<lambda>_. P)"
  by (auto simp: wf_triple_def wf_try_def deliver_all_stable split: prod.splits)

lemma wf_if_rule:
  "(b \<Longrightarrow> wf_triple E P m Q) \<Longrightarrow> (\<not> b \<Longrightarrow> wf_triple E P n Q) \<Longrightarrow> wf_triple E P (if b then m else n) Q"
  by simp

lemma wf_sum_rule:
  "(\<And>m. wf_triple E P (f m) Q) \<Longrightarrow> (\<And>a. wf_triple E P (g a) Q)
    \<Longrightarrow> wf_triple E P (case r of Inl m \<Rightarrow> f m | Inr a \<Rightarrow> g a) Q"
  by (cases r) simp_all

section \<open>Predicates on the history\<close>

text \<open>
  A history predicate reads the signals delivered, the writes dispatched and the writes counted
  as completed, and is kept by further signals. Everything but the dispatch of a write keeps it.
\<close>

definition hist :: "(wf_signal list \<Rightarrow> write_event list \<Rightarrow> nat \<Rightarrow> bool) \<Rightarrow> wf_state \<Rightarrow> bool" where
  "hist H s \<longleftrightarrow> H (ws_signals s) (ws_writes s) (ws_completedWrites s)"

definition signal_mono :: "(wf_signal list \<Rightarrow> write_event list \<Rightarrow> nat \<Rightarrow> bool) \<Rightarrow> bool" where
  "signal_mono H \<longleftrightarrow> (\<forall>sigs sig ws n. H sigs ws n \<longrightarrow> H (sigs @ [sig]) ws n)"

definition completes :: "wf_stop \<Rightarrow> bool" where
  "completes stop \<longleftrightarrow> (case stop of Finished r \<Rightarrow> wr_status r \<in> {WfCompleted, WfCompletedWithWarnings}
     | Crashed _ \<Rightarrow> False)"

definition stop_ok :: "(wf_stop \<Rightarrow> wf_state \<Rightarrow> bool) \<Rightarrow> (wf_state \<Rightarrow> bool) \<Rightarrow> bool" where
  "stop_ok E P \<longleftrightarrow> (\<forall>s stop. P s \<longrightarrow> \<not> completes stop \<longrightarrow> E stop s)"

lemma stop_okD: "stop_ok E P \<Longrightarrow> P s \<Longrightarrow> \<not> completes stop \<Longrightarrow> E stop s"
  by (simp add: stop_ok_def)

lemma completes_simps [simp]:
  "\<not> completes (Crashed m)"
  "completes (Finished r) \<longleftrightarrow> wr_status r \<in> {WfCompleted, WfCompletedWithWarnings}"
  by (simp_all add: completes_def)

lemma deliver_history [simp]:
  "ws_signals (deliver sig s) = ws_signals s @ [sig]" "ws_writes (deliver sig s) = ws_writes s"
  "ws_completedWrites (deliver sig s) = ws_completedWrites s" "ws_pending (deliver sig s) = ws_pending s"
  by (auto simp: deliver_def Let_def split: wf_signal.splits option.splits)

lemma hist_stable: "signal_mono H \<Longrightarrow> signal_stable (hist H)"
  by (simp add: signal_mono_def signal_stable_def hist_def)

lemma set_last_history [simp]:
  "ws_signals (set_last f s) = ws_signals s" "ws_writes (set_last f s) = ws_writes s"
  "ws_completedWrites (set_last f s) = ws_completedWrites s" "ws_pending (set_last f s) = ws_pending s"
  "ws_approval (set_last f s) = ws_approval s"
  by (simp_all add: set_last_def)

lemma hist_kept [simp]:
  "hist H (mark st s) = hist H s" "hist H (mark_failed r s) = hist H s"
  "hist H (open_summary step s) = hist H s" "hist H (take_result r s) = hist H s"
  "hist H (note_proposal r s) = hist H s" "hist H (s\<lparr>ws_status := x\<rparr>) = hist H s"
  "hist H (s\<lparr>ws_receipt := y\<rparr>) = hist H s"
  by (simp_all add: hist_def mark_def mark_failed_def open_summary_def take_result_def note_proposal_def Let_def)

lemma finish_rule:
  assumes stable: "signal_stable P" and status: "\<And>s x. P s \<Longrightarrow> P (s\<lparr>ws_status := x\<rparr>)"
    and receipt: "\<And>s y. P s \<Longrightarrow> P (s\<lparr>ws_receipt := y\<rparr>)"
    and fin: "\<And>s. P s \<Longrightarrow> E (Finished (run_result st s)) s"
    and crash: "\<And>m s. P s \<Longrightarrow> E (Crashed m) s"
  shows "wf_triple E P (finish acts st) Q"
  unfolding finish_def
  by (intro wf_modify_then_rule [where R = P] wf_get_bind_simple wf_bind_rule [where R = "\<lambda>_. P"]
      wf_call_rule wf_stop_rule wf_get_bind_rule stable status receipt crash)
    (auto simp: fin)

text \<open>
  What the reasoning about ordinary steps needs of a history predicate, and the collection of the
  rules that use it.
\<close>

named_theorems keeps_history "code that keeps every history predicate"

definition frame_ok :: "(wf_stop \<Rightarrow> wf_state \<Rightarrow> bool) \<Rightarrow> (wf_signal list \<Rightarrow> write_event list \<Rightarrow> nat \<Rightarrow> bool) \<Rightarrow> bool" where
  "frame_ok E H \<longleftrightarrow> signal_mono H \<and> stop_ok E (hist H)"

lemma finish_hist [keeps_history]:
  "frame_ok E H \<Longrightarrow> st \<notin> {WfCompleted, WfCompletedWithWarnings} \<Longrightarrow> wf_triple E (hist H) (finish acts st) Q"
  by (rule finish_rule) (auto simp: frame_ok_def hist_stable stop_ok_def run_result_def)

lemma call_hist [keeps_history]: "frame_ok E H \<Longrightarrow> wf_triple E (hist H) (wf_call act) (\<lambda>_. hist H)"
  by (rule wf_call_rule) (auto simp: frame_ok_def hist_stable stop_ok_def)

lemma try_hist [keeps_history]: "frame_ok E H \<Longrightarrow> wf_triple E (hist H) (wf_try act) (\<lambda>_. hist H)"
  by (rule wf_try_rule) (simp add: frame_ok_def hist_stable)

lemma set_status_hist [keeps_history]: "frame_ok E H \<Longrightarrow> wf_triple E (hist H) (set_status acts st) (\<lambda>_. hist H)"
  unfolding set_status_def by (rule wf_modify_then_rule [where R = "hist H"]) (simp_all add: call_hist)

lemma read_step_hist:
  "frame_ok E H \<Longrightarrow> wf_triple E (hist H) (read_step acts step) (\<lambda>_. hist H)"
  unfolding read_step_def
  by (rule wf_modify_then_rule [where R = "hist H"] wf_get_bind_simple wf_bind_rule [where R = "\<lambda>_. hist H"]
      wf_then_rule [where R = "hist H"] wf_sum_rule wf_if_rule
      keeps_history | assumption | simp)+
section \<open>The approval gate\<close>

definition genuine :: "agent_step \<Rightarrow> string \<Rightarrow> wf_signal list \<Rightarrow> approve_payload \<Rightarrow> bool" where
  "genuine step sha sigs p \<longleftrightarrow> ApproveStep p \<in> set sigs \<and> av_step_id p = st_id step \<and> av_diff_hash p = sha"

definition waiting :: "agent_step \<Rightarrow> string \<Rightarrow> wf_state \<Rightarrow> bool" where
  "waiting step sha s \<longleftrightarrow> ws_pending s = Some \<lparr>pa_step_id = st_id step, pa_diff_sha256 = sha\<rparr>
     \<and> (\<forall>p. ws_approval s = Some p \<longrightarrow> genuine step sha (ws_signals s) p)"

definition decided_genuinely :: "agent_step \<Rightarrow> string \<Rightarrow> wf_state \<Rightarrow> bool" where
  "decided_genuinely step sha s \<longleftrightarrow> ws_pending s = None
     \<and> (\<forall>p. ws_approval s = Some p \<longrightarrow> genuine step sha (ws_signals s) p)"

definition approved :: "agent_step \<Rightarrow> string \<Rightarrow> wf_state \<Rightarrow> bool" where
  "approved step sha s \<longleftrightarrow> ws_pending s = None
     \<and> (\<exists>p. ws_approval s = Some p \<and> genuine step sha (ws_signals s) p)"

lemma waiting_stable: "signal_stable (waiting step sha)"
  by (auto simp: signal_stable_def waiting_def genuine_def deliver_def Let_def
      split: wf_signal.splits option.splits)

lemma approved_stable: "signal_stable (approved step sha)"
  by (auto simp: signal_stable_def approved_def genuine_def deliver_def Let_def
      split: wf_signal.splits option.splits)

lemma stable_conj: "signal_stable P \<Longrightarrow> signal_stable R \<Longrightarrow> signal_stable (\<lambda>s. P s \<and> R s)"
  by (simp add: signal_stable_def)

lemma stop_ok_conj: "stop_ok E P \<Longrightarrow> stop_ok E (\<lambda>s. P s \<and> R s)"
  by (simp add: stop_ok_def)

lemma call_keeps:
  "signal_stable P \<Longrightarrow> stop_ok E P \<Longrightarrow> wf_triple E P (wf_call act) (\<lambda>_. P)"
  by (rule wf_call_rule) (auto simp: stop_ok_def)

lemma wait_decision_rule:
  assumes "frame_ok E H"
  shows "wf_triple E (\<lambda>s. hist H s \<and> waiting step sha s) (wait_decision acts minutes)
    (\<lambda>decided s. hist H s \<and> decided_genuinely step sha s
       \<and> (decided \<longrightarrow> ws_approval s \<noteq> None \<or> ws_rejection s \<noteq> None \<or> ws_cancellation s \<noteq> None))"
proof -
  have "signal_stable (\<lambda>s. hist H s \<and> waiting step sha s)"
    using assms by (auto simp: frame_ok_def intro: stable_conj hist_stable waiting_stable)
  from deliver_all_stable [OF this] show ?thesis
    by (fastforce simp: wf_triple_def wait_decision_def Let_def hist_def waiting_def decided_genuinely_def
        split: prod.splits)
qed

lemma approval_gate_rule:
  assumes frame: "frame_ok E H"
  shows "wf_triple E (hist H) (approval_gate acts spec step sha) (\<lambda>_ s. hist H s \<and> approved step sha s)"
proof -
  let ?W = "\<lambda>s. hist H s \<and> waiting step sha s"
  have keep: "wf_triple E ?W (wf_call act) (\<lambda>_. ?W)" for act :: "('w, 'x) activity"
    using frame by (auto simp: frame_ok_def intro!: call_keeps stable_conj hist_stable waiting_stable stop_ok_conj)
  have leave: "wf_triple E R (finish acts st) Q"
    if "\<And>s. R s \<Longrightarrow> hist H s" and "st \<notin> {WfCompleted, WfCompletedWithWarnings}"
    for st R and Q :: "'x \<Rightarrow> wf_state \<Rightarrow> bool"
    using finish_hist [OF frame that(2)] by (rule wf_weaken) (simp_all add: that(1))
  show ?thesis
    unfolding approval_gate_def Let_def
    apply (rule wf_modify_then_rule [where R = ?W])
     apply (simp add: hist_def mark_def waiting_def)
    apply (rule wf_then_rule [OF keep])
    apply (rule wf_then_rule [OF keep])
    apply (rule wf_bind_rule [OF wait_decision_rule [OF frame]])
    apply (rule wf_if_rule)
     apply (rule leave; simp)
    apply (rule wf_get_bind_rule)
    apply (rule wf_if_rule)
     apply (rule leave; simp)
    apply (rule wf_return_rule)
    apply (auto simp: decided_genuinely_def approved_def)
    done
qed

section \<open>Dispatching a write\<close>

definition event_of :: "agent_step \<Rightarrow> string \<Rightarrow> decision \<Rightarrow> wf_state \<Rightarrow> write_event" where
  "event_of step sha policy s = \<lparr>we_step = step, we_sha = sha, we_diff = ws_lastDiff s,
     we_approval = (if ap_required (st_approval step) then ws_approval s else None), we_policy = policy\<rparr>"

lemma hist_note_write:
  "hist K (note_write step sha policy s)
    \<longleftrightarrow> K (ws_signals s) (ws_writes s @ [event_of step sha policy s]) (ws_completedWrites s)"
  by (simp add: hist_def note_write_def event_of_def)

text \<open>
  The dispatch: from \<open>G\<close>, the history predicate \<open>K1\<close> holds once the write is sent and \<open>K2\<close> once
  it is counted as completed.
\<close>

lemma dispatch_rule:
  assumes G: "signal_stable G" "stop_ok E G" "\<And>s x. G s \<Longrightarrow> G (s\<lparr>ws_status := x\<rparr>)"
    and K1: "frame_ok E K1" and K2: "frame_ok E K2"
    and sent: "\<And>s. G s \<Longrightarrow> K1 (ws_signals s) (ws_writes s @ [event_of step sha policy s]) (ws_completedWrites s)"
    and counted: "\<And>sigs ws n. K1 sigs ws n \<Longrightarrow> K2 sigs ws (Suc n)"
  shows "wf_triple E G (dispatch_write_step acts step sha policy) (\<lambda>_. hist K2)"
proof -
  have tell: "wf_triple E G (set_status acts st) (\<lambda>_. G)" for st
    unfolding set_status_def by (rule wf_modify_then_rule [where R = G]) (simp_all add: G call_keeps)
  have tally: "hist K2 (mark SCompleted (s\<lparr>ws_completedWrites := ws_completedWrites s + 1, ws_warnings := b\<rparr>))"
    if "hist K1 s" for s b
    using that counted by (simp add: hist_def mark_def)
  show ?thesis
    unfolding dispatch_write_step_def
    apply (rule wf_then_rule [OF tell])
    apply (rule wf_get_bind_simple)
    apply (simp only: case_prod_beta)
    apply (rule wf_modify_then_rule [where R = "hist K1"])
     apply (simp add: hist_note_write sent)
    apply (rule wf_bind_rule [OF try_hist [OF K1]])
    apply (rule wf_sum_rule)
     apply (rule wf_modify_then_rule [where R = "hist K1"], simp, rule finish_hist [OF K1], simp)
    apply (rule wf_modify_then_rule [where R = "hist K1"], simp)
    apply (rule wf_if_rule)
     apply (rule wf_modify_then_rule [where R = "hist K1"], simp, rule finish_hist [OF K1], simp)
    apply (rule wf_then_rule [OF set_status_hist [OF K1]])
    apply (rule wf_modify_then_rule [where R = "hist K2"], rule tally, assumption)
    apply (rule call_hist [OF K2])
    done
qed

text \<open>
  One write step: \<open>A\<close> is what the predicate knows when the step starts, and the gate's verdict
  is what the dispatch may rely on.
\<close>

lemma write_step_rule:
  fixes acts :: "'w run_activities"
  assumes A: "frame_ok E A" and K1: "frame_ok E K1" and K2: "frame_ok E K2"
    and shadow: "\<And>sigs ws n. ru_mode run = RunShadow \<Longrightarrow> A sigs ws n \<Longrightarrow> K2 sigs ws n"
    and sent: "\<And>s sha policy. \<lbrakk>hist A s; ru_mode run \<noteq> RunShadow; sha \<noteq> []; policy \<noteq> Deny;
        ap_required (st_approval step) \<Longrightarrow> approved step sha s\<rbrakk>
      \<Longrightarrow> K1 (ws_signals s) (ws_writes s @ [event_of step sha policy s]) (ws_completedWrites s)"
    and counted: "\<And>sigs ws n. K1 sigs ws n \<Longrightarrow> K2 sigs ws (Suc n)"
  shows "wf_triple E (hist A) (write_step acts run spec step) (\<lambda>_. hist K2)"
proof -
  let ?G = "\<lambda>sha s. hist A s \<and> (ap_required (st_approval step) \<longrightarrow> approved step sha s)"
  have stable: "signal_stable (?G sha)" "stop_ok E (?G sha)" for sha
    using A hist_stable [of A] approved_stable [of step sha]
    by (auto simp: frame_ok_def signal_stable_def stop_ok_def)
  have status: "?G sha (s\<lparr>ws_status := x\<rparr>)" if "?G sha s" for sha s x
    using that by (simp add: approved_def)
  have gate: "wf_triple E (hist A) (if ap_required (st_approval step) then approval_gate acts spec step sha
      else wf_return ()) (\<lambda>_. ?G sha)" for sha
    by (rule wf_if_rule)
      (rule wf_weaken [OF approval_gate_rule [OF A]] wf_return_rule; simp)+
  have go: "wf_triple E (?G sha) (if p = Deny then finish acts WfPolicyBlocked else dispatch_write_step acts step sha p)
      (\<lambda>_. hist K2)" if "ru_mode run \<noteq> RunShadow" "sha \<noteq> []" for sha p
    by (rule wf_if_rule, rule wf_weaken [OF finish_hist [OF A]], simp_all,
      rule dispatch_rule [OF stable status K1 K2 _ counted])
      (use that in \<open>auto intro: sent\<close>)
  have skip: "wf_triple E (hist A) (wf_call act) (\<lambda>_. hist K2)"
    if "ru_mode run = RunShadow" for act :: "('w, unit) activity"
    using call_hist [OF A] by (rule wf_weaken) (use that in \<open>simp_all add: hist_def shadow\<close>)
  show ?thesis
    unfolding write_step_def
    apply (rule wf_if_rule)
     apply (rule wf_modify_then_rule [where R = "hist A"], simp)
     apply (rule wf_get_bind_simple, rule skip, assumption)
    apply (rule wf_get_bind_simple)
    apply (rule wf_if_rule)
     apply (rule wf_modify_then_rule [where R = "hist A"], simp, rule finish_hist [OF A], simp)
    apply (rule wf_then_rule [OF gate])
    apply (rule wf_bind_rule [OF call_keeps [OF stable]])
    apply (rule go)
     apply (auto simp: truthy_str_def split: option.splits)
    done
qed

section \<open>The step loop and the whole run\<close>

text \<open>
  \<open>J pre\<close> holds after the steps \<open>pre\<close>, \<open>K pre step\<close> once the write of \<open>step\<close> is sent after them.
\<close>

lemma run_steps_rule:
  assumes J: "\<And>pre post. all = pre @ post \<Longrightarrow> frame_ok E (J pre)"
    and K: "\<And>pre step post. all = pre @ step # post \<Longrightarrow> frame_ok E (K pre step)"
    and pass: "\<And>pre step post sigs ws n. \<lbrakk>all = pre @ step # post; st_mode step \<noteq> Write \<or> ru_mode run = RunShadow;
        J pre sigs ws n\<rbrakk> \<Longrightarrow> J (pre @ [step]) sigs ws n"
    and sent: "\<And>pre step post s sha policy. \<lbrakk>all = pre @ step # post; st_mode step = Write; hist (J pre) s;
        ru_mode run \<noteq> RunShadow; sha \<noteq> []; policy \<noteq> Deny; ap_required (st_approval step) \<Longrightarrow> approved step sha s\<rbrakk>
      \<Longrightarrow> K pre step (ws_signals s) (ws_writes s @ [event_of step sha policy s]) (ws_completedWrites s)"
    and counted: "\<And>pre step sigs ws n. K pre step sigs ws n \<Longrightarrow> J (pre @ [step]) sigs ws (Suc n)"
  shows "all = pre @ steps \<Longrightarrow> wf_triple E (hist (J pre)) (run_steps acts run spec steps) (\<lambda>_. hist (J all))"
proof (induction steps arbitrary: pre)
  case Nil
  then show ?case by (auto intro: wf_return_rule)
next
  case (Cons step steps)
  note here = J [OF Cons.prems] K [OF Cons.prems]
  have next_frame: "frame_ok E (J (pre @ [step]))" by (rule J [of _ steps]) (simp add: Cons.prems)
  have body: "wf_triple E (hist (J pre)) (if st_mode step = Write then write_step acts run spec step
      else read_step acts step) (\<lambda>_. hist (J (pre @ [step])))"
  proof (rule wf_if_rule)
    assume "st_mode step = Write"
    then show "wf_triple E (hist (J pre)) (write_step acts run spec step) (\<lambda>_. hist (J (pre @ [step])))"
      by (intro write_step_rule [OF here next_frame]) (auto intro: pass sent counted Cons.prems)
  next
    assume "st_mode step \<noteq> Write"
    then show "wf_triple E (hist (J pre)) (read_step acts step) (\<lambda>_. hist (J (pre @ [step])))"
      by (intro wf_weaken [OF read_step_hist [OF here(1)]]) (auto simp: hist_def intro: pass Cons.prems)
  qed
  have tail: "wf_triple E (hist (J (pre @ [step]))) (run_steps acts run spec steps) (\<lambda>_. hist (J all))"
    by (rule Cons.IH) (simp add: Cons.prems)
  show ?case
    unfolding run_steps.simps
    apply (rule wf_get_bind_simple)
    apply (rule wf_if_rule)
     apply (rule finish_hist [OF here(1)], simp)
    apply (rule wf_modify_then_rule [where R = "hist (J pre)"], simp)
    apply (rule wf_then_rule [OF body tail])
    done
qed

lemma workflow_rule:
  assumes "ordered_steps spec = all"
    and start: "J [] [] [] 0" and J: "\<And>pre post. all = pre @ post \<Longrightarrow> frame_ok E (J pre)"
    and steps: "wf_triple E (hist (J [])) (run_steps acts run spec all) (\<lambda>_. hist (J all))"
    and fin: "\<And>st s. hist (J all) s \<Longrightarrow> E (Finished (run_result st s)) s"
    and ran: "agentRunWorkflow acts run spec w = (Inl stop, s, w')"
  shows "E stop s"
proof -
  have J0: "frame_ok E (J [])" and Jall: "frame_ok E (J all)" using J [of "[]" all] J [of all "[]"] by auto
  have ending: "wf_triple E (hist (J all)) (finish acts st) Q" for st and Q :: "unit \<Rightarrow> wf_state \<Rightarrow> bool"
    by (rule finish_rule) (use Jall in \<open>auto simp: fin frame_ok_def hist_stable intro: stop_okD\<close>)
  have "wf_triple E (hist (J [])) (workflow_body acts run spec) (\<lambda>_ _. True)"
    unfolding workflow_body_def
    apply (rule wf_then_rule [OF call_hist [OF J0]])
    apply (rule wf_bind_rule [OF call_hist [OF J0]])
    apply (rule wf_if_rule, rule finish_hist [OF J0], simp)
    apply (rule wf_if_rule, rule finish_hist [OF J0], simp)
    apply (simp only: assms(1))
    apply (rule wf_then_rule [OF steps])
    apply (rule wf_get_bind_simple)
    apply (rule ending)
    done
  moreover have "hist (J []) (wf_start run)" using start by (simp add: hist_def wf_start_def)
  ultimately show ?thesis
    by (rule wf_stops_with) (rule ran [unfolded agentRunWorkflow_def])
qed

text \<open>The run never falls off the end of the workflow: every path goes through \<open>finish\<close> or a crash.\<close>

lemma finish_stops: "\<exists>stop sw'. finish acts st sw = (Inl stop, sw')"
  by (cases sw) (auto simp: finish_def wf_then_def wf_bind_def wf_modify_def wf_get_def wf_stop_with_def
      split: prod.splits sum.splits)

lemma workflow_stops: "\<exists>stop s w'. agentRunWorkflow acts run spec w = (Inl stop, s, w')"
proof -
  have never: "wf_triple (\<lambda>_ _. True) P (finish acts st) (\<lambda>_ _. False)"
    for P st and acts :: "'x run_activities"
    unfolding wf_triple_def
  proof (intro allI impI)
    fix s and w :: 'x
    obtain stop sw' where "(finish acts st :: ('x, 'y) wf) (s, w) = (Inl stop, sw')" using finish_stops by blast
    then show "case (finish acts st :: ('x, 'y) wf) (s, w) of (Inl stop, s', _) \<Rightarrow> True | (Inr a, s', _) \<Rightarrow> False"
      by (cases sw') simp
  qed
  have top: "wf_triple (\<lambda>_ _. True) P m (\<lambda>_ _. True)" for P and m :: "('x, 'y) wf"
    by (auto simp: wf_triple_def split: prod.splits sum.splits)
  have "wf_triple (\<lambda>_ _. True) (\<lambda>_. True) (workflow_body acts run spec) (\<lambda>_ _. False)"
    unfolding workflow_body_def
    by (rule wf_then_rule [OF top] wf_get_bind_simple wf_bind_rule [OF top] wf_if_rule never)+
  from wf_tripleD [OF this TrueI, of "wf_start run" w] show ?thesis
    unfolding agentRunWorkflow_def
    by (cases "workflow_body acts run spec (wf_start run, w)") (fastforce split: sum.splits prod.splits)
qed

section \<open>A concrete run\<close>

text \<open>
  The reconciliation whose medium-risk write does not ask for approval, and activities that answer
  what the engine and a working connector would; \<open>sigs\<close> are the signals that arrive while
  the workflow waits for a decision.
\<close>

definition fx_loose :: agent_spec where
  "fx_loose = fx_spec [fx_read, fx_propose, fx_write False]"

lemma fx_loose_valid: "validateAgentSpec fx_zod fx_loose = Valid fx_loose"
proof -
  have "spec_schema fx_zod fx_loose" by (simp add: schema_defs fx_zod_def fx_loose_def fx_defs)
  moreover have "step_capability_ok step \<and> (\<forall>(name, b) \<in> set (st_inputs step). binding_ok fx_loose step b)"
    if "step \<in> set (sp_steps fx_loose)" for step
    using that by (auto simp: fx_loose_def fx_step_defs step_capability_ok_def fx_caps binding_ok_def)
      (simp_all add: cap_def)
  then have "well_formed_spec fx_loose"
    unfolding well_formed_spec_def
    by (intro conjI) (simp_all add: schedule_ok_def fx_loose_def fx_defs)
  ultimately show ?thesis by (simp add: validate_exact)
qed

definition fx_result :: "activity_status \<Rightarrow> proposed_diff option \<Rightarrow> activity_result" where
  "fx_result st d = \<lparr>ar_status = st, ar_outputs = [], ar_diff_sha256 = map_option (\<lambda>_. ''sha'') d, ar_diff = d,
     ar_change_count = Some 1, ar_verified = Some True, ar_verify_detail = None, ar_idempotency_key = None,
     ar_error_code = None, ar_error_retry_safe = None, ar_cost_usd = Some 0, ar_records_read = None\<rparr>"

definition fx_acts :: "decision \<Rightarrow> wf_signal list \<Rightarrow> unit run_activities" where
  "fx_acts verdict sigs = \<lparr>wa_evaluateRunPolicy = (\<lambda>w. (Inr verdict, [], w)),
     wa_executeReadStep = (\<lambda>step _ w. (Inr (if st_mode step = Read then fx_result ActCompleted None
        else fx_result ActProposed (Some fx_diff)), [], w)),
     wa_executeWriteStep = (\<lambda>_ _ _ _ w. (Inr (fx_result ActCompleted None), [], w)),
     wa_createApproval = (\<lambda>_ _ _ w. (Inr (), [], w)), wa_recordRunStatus = (\<lambda>_ w. (Inr (), [], w)),
     wa_recordStepResult = (\<lambda>_ _ w. (Inr (), [], w)), wa_finalizeRun = (\<lambda>_ _ _ _ _ w. (Inr JNull, [], w)),
     wa_condition = (\<lambda>_ w. (sigs, w)), wa_now = (\<lambda>_. 0), wa_model_cost_usd = None\<rparr>"

definition fx_run :: run_input where
  "fx_run = \<lparr>ru_run_id = ''run-1'', ru_agent_id = ''agent-1'', ru_agent_version_id = ''version-1'',
     ru_organization_id = ''org-1'', ru_owner_user_id = ''user-1'', ru_mode = RunActive,
     ru_trigger = \<lparr>rg_type = RunManual, rg_actor_user_id = None, rg_idempotency_key = ''k''\<rparr>,
     ru_agent_inputs = [], ru_policy_version_id = ''pv-1'', ru_requested_at = 0\<rparr>"

definition fx_yes :: approve_payload where
  "fx_yes = \<lparr>av_step_id = ''s3'', av_diff_hash = ''sha'', av_approver_user_id = ''user-1''\<rparr>"

definition fx_event :: "bool \<Rightarrow> decision \<Rightarrow> write_event" where
  "fx_event needs verdict = \<lparr>we_step = fx_write needs, we_sha = ''sha'', we_diff = Some fx_diff,
     we_approval = (if needs then Some fx_yes else None), we_policy = verdict\<rparr>"

lemmas wf_run_simps = wf_then_def wf_bind_def wf_modify_def wf_get_def wf_call_def wf_try_def wf_return_def
  wf_stop_with_def finish_def set_status_def deliver_all_def workflow_body_def agentRunWorkflow_def

lemma fx_outline:
  "ordered_steps (fx_spec [fx_read, fx_propose, fx_write b]) = [fx_read, fx_propose, fx_write b]"
  "validateAgentInputs (fx_spec ss) [] = []"
  "st_mode fx_read = Read" "st_mode fx_propose = ProposeWrite" "st_mode (fx_write b) = Write"
  "st_id (fx_write b) = ''s3''" "ap_required (st_approval (fx_write b)) = b"
  by (simp_all add: ordered_steps_def js_sort_def by_order_def fx_step_defs fx_spec_def
      validateAgentInputs_def)

lemma fx_agent_run:
  assumes "verdict \<noteq> Deny" and "\<not> needs \<Longrightarrow> sigs = []" and "needs \<Longrightarrow> sigs = [ApproveStep fx_yes]"
  shows "\<exists>s. agentRunWorkflow (fx_acts verdict sigs) fx_run (fx_spec [fx_read, fx_propose, fx_write needs]) ()
      = (Inl (Finished (run_result WfCompleted s)), s, ())
    \<and> ws_writes s = [fx_event needs verdict] \<and> ws_signals s = sigs \<and> ws_completedWrites s = 1"
  using assms
  by (cases needs)
    (simp_all add: wf_run_simps fx_outline wf_start_def fx_run_def fx_acts_def fx_result_def read_step_def
      write_step_def dispatch_write_step_def approval_gate_def wait_decision_def deliver_def Let_def
      open_summary_def take_result_def note_proposal_def mark_def set_last_def note_write_def fx_event_def
      fx_yes_def run_result_def)

section \<open>Properties\<close>



text \<open>
  C4: The writes a run dispatches are the write steps of the specification in ascending order, each at
  most once and none skipped over; no more are counted as completed than were sent; a shadow
  run sends none; and any other run that ends completed, with warnings or without, sent all of them
  and counted each.
\<close>

theorem workflow_writes_in_order_exactly_once:
  assumes ran: "agentRunWorkflow acts run spec w = (r, s, w')"
  shows "sorted (map st_order (map we_step (ws_writes s)))
    \<and> (\<exists>k. map we_step (ws_writes s) = take k (filter (\<lambda>x. st_mode x = Write) (ordered_steps spec)))
    \<and> ws_completedWrites s \<le> length (ws_writes s)
    \<and> (ru_mode run = RunShadow \<longrightarrow> ws_writes s = [])
    \<and> (\<forall>res. r = Inl (Finished res) \<and> wr_status res \<in> {WfCompleted, WfCompletedWithWarnings}
          \<and> ru_mode run \<noteq> RunShadow \<longrightarrow>
        map we_step (ws_writes s) = filter (\<lambda>x. st_mode x = Write) (ordered_steps spec)
        \<and> wr_completed_writes res = length (ws_writes s))"
proof -
  let ?writes = "\<lambda>xs. if ru_mode run = RunShadow then [] else filter (\<lambda>x. st_mode x = Write) xs"
  let ?all = "ordered_steps spec"
  let ?J = "\<lambda>pre (sigs :: wf_signal list) ws n. map we_step ws = ?writes pre \<and> n = length ws"
  let ?K = "\<lambda>pre step (sigs :: wf_signal list) ws n. ru_mode run \<noteq> RunShadow \<and> st_mode step = Write
      \<and> map we_step ws = ?writes pre @ [step] \<and> Suc n = length ws"
  let ?E = "\<lambda>stop s. (\<exists>k. map we_step (ws_writes s) = take k (?writes ?all))
    \<and> ws_completedWrites s \<le> length (ws_writes s)
    \<and> (\<forall>res. stop = Finished res \<and> completes stop \<longrightarrow>
         map we_step (ws_writes s) = ?writes ?all \<and> wr_completed_writes res = length (ws_writes s))"
  have pre: "\<exists>k. ?writes pre = take k (?writes ?all)" if "?all = pre @ post" for pre post
    by (rule exI [of _ "length (?writes pre)"]) (simp add: that)
  have J: "frame_ok ?E (?J pre)" if "?all = pre @ post" for pre post
    using pre [OF that] by (auto simp: frame_ok_def signal_mono_def stop_ok_def hist_def)
  have K: "frame_ok ?E (?K pre step)" if "?all = pre @ step # post" for pre step post
    using pre [of "pre @ [step]" post] that
    by (auto simp: frame_ok_def signal_mono_def stop_ok_def hist_def)
  have steps: "wf_triple ?E (hist (?J [])) (run_steps acts run spec ?all) (\<lambda>_. hist (?J ?all))"
    by (rule run_steps_rule [where J = ?J and K = ?K, OF J K]) (auto simp: hist_def event_of_def)
  obtain stop where r: "r = Inl stop" using workflow_stops [of acts run spec w] ran by auto
  have E: "?E stop s"
    by (rule workflow_rule [where J = ?J and E = ?E, OF refl _ J steps _ ran [unfolded r]])
      (auto simp: hist_def run_result_def intro: exI [of _ "length ?all"])
  have "sorted (map st_order (take k (?writes ?all)))" for k
    using sorted_ordered_steps [of spec]
    by (simp add: take_map [symmetric] sorted_map sorted_wrt_take sorted_wrt_filter)
  with E have sorted: "sorted (map st_order (map we_step (ws_writes s)))" by metis
  show ?thesis
    by (intro conjI sorted) (use E in \<open>auto simp: r split: if_splits\<close>)
qed

theorem workflow_writes_in_order_exactly_once_witness:
  "\<exists>s. agentRunWorkflow (fx_acts RequireApproval [ApproveStep fx_yes]) fx_run fx_three ()
      = (Inl (Finished (run_result WfCompleted s)), s, ())
    \<and> map we_step (ws_writes s) = [fx_write True]"
proof -
  obtain s where s: "agentRunWorkflow (fx_acts RequireApproval [ApproveStep fx_yes]) fx_run fx_three ()
      = (Inl (Finished (run_result WfCompleted s)), s, ())"
    using fx_agent_run [of RequireApproval True "[ApproveStep fx_yes]"] by (auto simp: fx_three_def)
  with workflow_writes_in_order_exactly_once [OF s] show ?thesis
    by (auto simp: fx_outline fx_three_def fx_run_def run_result_def)
qed


end
