(* ===== verification/Browser_Contract.thy ===== *)
theory Browser_Contract
  imports Contracts Js_Lists
begin

text \<open>
  The browser action contract, \<open>packages/contracts/src/browser-action.ts\<close>: targets, the closed set
  of verbs, the request and the result, and the schemas as predicates. Lengths and secret shapes
  are checked as the schemas check them; UUIDs, URLs and the messages of the schema library are
  the parameter \<open>browser_zod\<close>.
\<close>

datatype target_role = Textbox | Combobox | Checkbox | Button | Link | Cell | Heading

definition role_name :: "target_role \<Rightarrow> string" where
  "role_name r = (case r of Textbox \<Rightarrow> ''textbox'' | Combobox \<Rightarrow> ''combobox'' | Checkbox \<Rightarrow> ''checkbox''
     | Button \<Rightarrow> ''button'' | Link \<Rightarrow> ''link'' | Cell \<Rightarrow> ''cell'' | Heading \<Rightarrow> ''heading'')"

record browser_target =
  bt_role :: target_role
  bt_name :: string
  bt_nth :: "nat option"

datatype browser_action =
    Navigate string
  | ListControls "target_role list" nat
  | ReadField browser_target
  | FocusField browser_target
  | SetValue browser_target string "string option"
  | SelectOption browser_target string
  | ClickControl browser_target string

definition isBrowserWrite :: "browser_action \<Rightarrow> bool" where
  "isBrowserWrite a = (case a of
      SetValue _ _ _ \<Rightarrow> True | SelectOption _ _ \<Rightarrow> True | ClickControl _ _ \<Rightarrow> True | _ \<Rightarrow> False)"

definition action_target :: "browser_action \<Rightarrow> browser_target option" where
  "action_target a = (case a of
      Navigate _ \<Rightarrow> None | ListControls _ _ \<Rightarrow> None | ReadField t \<Rightarrow> Some t | FocusField t \<Rightarrow> Some t
    | SetValue t _ _ \<Rightarrow> Some t | SelectOption t _ \<Rightarrow> Some t | ClickControl t _ \<Rightarrow> Some t)"

record browser_zod =
  bz_uuid :: "string \<Rightarrow> bool"
  bz_url :: "string \<Rightarrow> bool"

definition boundedNonSecret :: "nat \<Rightarrow> nat \<Rightarrow> string \<Rightarrow> bool" where
  "boundedNonSecret lo hi v \<longleftrightarrow> lo \<le> length v \<and> length v \<le> hi \<and> \<not> looksLikeSecret v"

definition target_schema :: "browser_target \<Rightarrow> bool" where
  "target_schema t \<longleftrightarrow> boundedNonSecret 1 120 (bt_name t) \<and> pred_option (\<lambda>n. n \<le> 200) (bt_nth t)"

definition https_url :: "browser_zod \<Rightarrow> string \<Rightarrow> bool" where
  "https_url z u \<longleftrightarrow> bz_url z u \<and> prefix ''https://'' u"

definition action_schema :: "browser_zod \<Rightarrow> browser_action \<Rightarrow> bool" where
  "action_schema z a = (case a of
      Navigate url \<Rightarrow> https_url z url
    | ListControls roles limit \<Rightarrow> 1 \<le> length roles \<and> length roles \<le> 7 \<and> 1 \<le> limit \<and> limit \<le> 60
    | ReadField t \<Rightarrow> target_schema t
    | FocusField t \<Rightarrow> target_schema t
    | SetValue t v expect \<Rightarrow> target_schema t \<and> boundedNonSecret 0 512 v
        \<and> pred_option (boundedNonSecret 0 512) expect
    | SelectOption t opt \<Rightarrow> target_schema t \<and> boundedNonSecret 1 200 opt
    | ClickControl t confirm \<Rightarrow> target_schema t \<and> boundedNonSecret 1 120 confirm)"

record browser_request =
  br_request_id :: string
  br_run_id :: string
  br_step_id :: string
  br_action :: browser_action
  br_authorization :: string
  br_allowed_origins :: "string list"
  br_consequential :: bool
  br_issued_at :: int
  br_expires_at :: int

definition request_schema :: "browser_zod \<Rightarrow> browser_request \<Rightarrow> bool" where
  "request_schema z r \<longleftrightarrow>
     bz_uuid z (br_request_id r) \<and> bz_uuid z (br_run_id r)
     \<and> 1 \<le> length (br_step_id r) \<and> length (br_step_id r) \<le> 120
     \<and> action_schema z (br_action r)
     \<and> boundedNonSecret 32 128 (br_authorization r)
     \<and> 1 \<le> length (br_allowed_origins r) \<and> length (br_allowed_origins r) \<le> 8
     \<and> list_all (https_url z) (br_allowed_origins r)"

datatype action_outcome = Applied | Observed | OutRefused | OutFailed

datatype action_refusal = SecureField | OriginNotAllowed | PrivateWindow | NoMatch | AmbiguousMatch
  | NotAuthorized | PreconditionFailed | ConfirmNameMismatch | TargetNotEditable | UserAbsent
  | PausedByUser

definition refusal_name :: "action_refusal \<Rightarrow> string" where
  "refusal_name r = (case r of
      SecureField \<Rightarrow> ''secure_field'' | OriginNotAllowed \<Rightarrow> ''origin_not_allowed''
    | PrivateWindow \<Rightarrow> ''private_window'' | NoMatch \<Rightarrow> ''no_match'' | AmbiguousMatch \<Rightarrow> ''ambiguous_match''
    | NotAuthorized \<Rightarrow> ''not_authorized'' | PreconditionFailed \<Rightarrow> ''precondition_failed''
    | ConfirmNameMismatch \<Rightarrow> ''confirm_name_mismatch'' | TargetNotEditable \<Rightarrow> ''target_not_editable''
    | UserAbsent \<Rightarrow> ''user_absent'' | PausedByUser \<Rightarrow> ''paused_by_user'')"

record browser_control =
  bc_role :: target_role
  bc_name :: string
  bc_secure :: bool
  bc_editable :: bool
  bc_duplicate_count :: nat

definition control_schema :: "browser_control \<Rightarrow> bool" where
  "control_schema c \<longleftrightarrow> boundedNonSecret 1 120 (bc_name c)
     \<and> 1 \<le> bc_duplicate_count c \<and> bc_duplicate_count c \<le> 200"

record browser_observation =
  bo_resolved_name :: string
  bo_controls :: "browser_control list option"
  bo_controls_truncated :: "bool option"
  bo_value_before :: "string option"
  bo_value_after :: "string option"
  bo_match_count :: nat
  bo_origin :: string

definition observation_schema :: "browser_zod \<Rightarrow> browser_observation \<Rightarrow> bool" where
  "observation_schema z b \<longleftrightarrow>
     boundedNonSecret 0 120 (bo_resolved_name b)
     \<and> pred_option (\<lambda>cs. list_all control_schema cs \<and> length cs \<le> 60) (bo_controls b)
     \<and> pred_option (boundedNonSecret 0 512) (bo_value_before b)
     \<and> pred_option (boundedNonSecret 0 512) (bo_value_after b)
     \<and> bo_match_count b \<le> 1000 \<and> https_url z (bo_origin b)"

record browser_result =
  rs_request_id :: string
  rs_run_id :: string
  rs_step_id :: string
  rs_outcome :: action_outcome
  rs_refusal_reason :: "action_refusal option"
  rs_observed :: "browser_observation option"
  rs_failure :: "string option"
  rs_completed_at :: int

definition result_schema :: "browser_zod \<Rightarrow> browser_result \<Rightarrow> bool" where
  "result_schema z r \<longleftrightarrow>
     bz_uuid z (rs_request_id r) \<and> bz_uuid z (rs_run_id r)
     \<and> 1 \<le> length (rs_step_id r) \<and> length (rs_step_id r) \<le> 120
     \<and> pred_option (observation_schema z) (rs_observed r)
     \<and> pred_option (\<lambda>f. length f \<le> 200) (rs_failure r)
     \<and> (rs_outcome r = OutRefused \<longleftrightarrow> rs_refusal_reason r \<noteq> None)"

lemmas browser_schema_defs = boundedNonSecret_def target_schema_def https_url_def action_schema_def
  request_schema_def control_schema_def observation_schema_def result_schema_def

end
