(* ===== verification/Browser_Resolve.thy ===== *)
theory Browser_Resolve
  imports Browser_Contract
begin

text \<open>
  Deciding whether a request may touch a page: \<open>packages/browser-actuator/src/types.ts\<close> and
  \<open>resolve.ts\<close>. The URL parser (\<open>new URL(url).origin\<close>, empty when it throws) and the validity of an
  authorization are parameters. The lemmas give every condition under which a control is resolved,
  and an exact account of the listing.
\<close>

section \<open>types.ts\<close>

record candidate_control =
  cc_role :: target_role
  cc_accessibleName :: string
  cc_value :: "string option"
  cc_editable :: bool
  cc_secure :: bool
  cc_visible :: bool

record page_context =
  pg_origin :: string
  pg_privateWindow :: bool
  pg_userPresent :: bool
  pg_paused :: bool
  pg_controls :: "candidate_control list"

datatype resolve_outcome =
    ResolveOk candidate_control nat
  | ResolveRefused action_refusal nat

section \<open>Names\<close>

definition strip_decoration :: "string \<Rightarrow> string" where
  "strip_decoration s =
     (let rest = dropWhile (\<lambda>c. c = CHR '':'' \<or> c = CHR ''*'') (rev s) in
      if length rest = length s then s else rev (dropWhile js_ws rest))"

definition normalizeName :: "string \<Rightarrow> string" where
  "normalizeName raw =
     js_lower (js_trim (strip_decoration (js_trim (collapse_ws False
       (map (\<lambda>c. if c = CHR 0xA0 then CHR '' '' else c) raw)))))"

definition namesMatch :: "string \<Rightarrow> string \<Rightarrow> bool" where
  "namesMatch target candidate \<longleftrightarrow> normalizeName target = normalizeName candidate"

definition matchingControls :: "browser_target \<Rightarrow> candidate_control list \<Rightarrow> candidate_control list" where
  "matchingControls target controls = filter (\<lambda>c. cc_visible c \<and> cc_role c = bt_role target
     \<and> namesMatch (bt_name target) (cc_accessibleName c)) controls"

definition valuesMatch :: "string \<Rightarrow> string option \<Rightarrow> bool" where
  "valuesMatch expected actual = (case actual of
      None \<Rightarrow> False | Some a \<Rightarrow> js_trim expected = js_trim a)"

definition originAllowed :: "(string \<Rightarrow> string) \<Rightarrow> string \<Rightarrow> string list \<Rightarrow> bool" where
  "originAllowed originOf origin allowed \<longleftrightarrow> list_ex (\<lambda>a. originOf a = origin \<and> origin \<noteq> []) allowed"

section \<open>resolveRequest\<close>

definition checkPreconditions :: "browser_action \<Rightarrow> candidate_control \<Rightarrow> action_refusal option" where
  "checkPreconditions action control = (case action of
      ClickControl _ confirm_name \<Rightarrow>
        (if namesMatch confirm_name (cc_accessibleName control) then None else Some ConfirmNameMismatch)
    | SetValue _ _ (Some expect_current) \<Rightarrow>
        (if valuesMatch expect_current (cc_value control) then None else Some PreconditionFailed)
    | _ \<Rightarrow> None)"

definition navigationPseudoControl :: "string \<Rightarrow> candidate_control" where
  "navigationPseudoControl url = \<lparr>cc_role = Link, cc_accessibleName = url, cc_value = None,
     cc_editable = False, cc_secure = False, cc_visible = True\<rparr>"

definition surfacePseudoControl :: candidate_control where
  "surfacePseudoControl = \<lparr>cc_role = Heading, cc_accessibleName = [], cc_value = None,
     cc_editable = False, cc_secure = False, cc_visible = True\<rparr>"

definition resolve_target :: "browser_action \<Rightarrow> bool \<Rightarrow> browser_target \<Rightarrow> candidate_control list
    \<Rightarrow> resolve_outcome" where
  "resolve_target action isWrite target controls =
     (let matches = matchingControls target controls; cnt = length matches in
      if bt_nth target = None \<and> cnt > 1 then ResolveRefused AmbiguousMatch cnt
      else (case nth_opt matches (or_else (bt_nth target) 0) of
          None \<Rightarrow> ResolveRefused NoMatch cnt
        | Some control \<Rightarrow>
            if cc_secure control then ResolveRefused SecureField cnt
            else if isWrite \<and> \<not> cc_editable control then ResolveRefused TargetNotEditable cnt
            else (case checkPreconditions action control of
                Some refusal \<Rightarrow> ResolveRefused refusal cnt
              | None \<Rightarrow> ResolveOk control cnt)))"

definition resolveRequest :: "(string \<Rightarrow> string) \<Rightarrow> browser_request \<Rightarrow> page_context \<Rightarrow> int
    \<Rightarrow> (string \<Rightarrow> bool) \<Rightarrow> resolve_outcome" where
  "resolveRequest originOf request page now isAuthorizationValid =
     (let isWrite = isBrowserWrite (br_action request) in
      if pg_paused page then ResolveRefused PausedByUser 0
      else if \<not> isAuthorizationValid (br_authorization request) then ResolveRefused NotAuthorized 0
      else if br_expires_at request \<le> now then ResolveRefused NotAuthorized 0
      else if isWrite \<and> \<not> br_consequential request then ResolveRefused NotAuthorized 0
      else if pg_privateWindow page then ResolveRefused PrivateWindow 0
      else (case br_action request of
          Navigate url \<Rightarrow>
            (if originAllowed originOf (originOf url) (br_allowed_origins request)
             then ResolveOk (navigationPseudoControl url) 1
             else ResolveRefused OriginNotAllowed 0)
        | _ \<Rightarrow>
          (if \<not> originAllowed originOf (pg_origin page) (br_allowed_origins request)
           then ResolveRefused OriginNotAllowed 0
           else if isWrite \<and> \<not> pg_userPresent page then ResolveRefused UserAbsent 0
           else (case action_target (br_action request) of
               None \<Rightarrow> ResolveOk surfacePseudoControl (length (pg_controls page))
             | Some target \<Rightarrow> resolve_target (br_action request) isWrite target (pg_controls page)))))"

section \<open>listControls\<close>

definition listed :: "target_role list \<Rightarrow> candidate_control \<Rightarrow> bool" where
  "listed roles c \<longleftrightarrow> cc_visible c \<and> cc_role c \<in> set roles
     \<and> (let name = js_trim (cc_accessibleName c) in
        name \<noteq> [] \<and> length name \<le> 120 \<and> \<not> looksLikeSecret name)"

definition control_key :: "candidate_control \<Rightarrow> string" where
  "control_key c = role_name (cc_role c) @ CHR '' '' # normalizeName (js_trim (cc_accessibleName c))"

definition fresh_control :: "candidate_control \<Rightarrow> browser_control" where
  "fresh_control c = \<lparr>bc_role = cc_role c, bc_name = js_trim (cc_accessibleName c),
     bc_secure = cc_secure c, bc_editable = cc_editable c, bc_duplicate_count = 1\<rparr>"

definition repeat_control :: "candidate_control \<Rightarrow> browser_control \<Rightarrow> browser_control" where
  "repeat_control c existing = existing
     \<lparr>bc_duplicate_count := min 200 (bc_duplicate_count existing + 1),
      bc_editable := bc_editable existing \<and> cc_editable c,
      bc_secure := bc_secure existing \<or> cc_secure c\<rparr>"

definition add_control :: "target_role list \<Rightarrow> candidate_control \<Rightarrow> (string, browser_control) jmap
    \<Rightarrow> (string, browser_control) jmap" where
  "add_control roles c byKey =
     (if \<not> listed roles c then byKey
      else (case jget byKey (control_key c) of
          Some existing \<Rightarrow> jset (control_key c) (repeat_control c existing) byKey
        | None \<Rightarrow> jset (control_key c) (fresh_control c) byKey))"

definition control_table :: "target_role list \<Rightarrow> candidate_control list \<Rightarrow> (string, browser_control) jmap" where
  "control_table roles controls = fold (add_control roles) controls []"

definition listControls :: "candidate_control list \<Rightarrow> target_role list \<Rightarrow> nat \<Rightarrow> browser_control list \<times> bool" where
  "listControls controls roles limit =
     (let all = map snd (control_table roles controls) in (take limit all, length all > limit))"

section \<open>Component lemmas\<close>

definition same_key :: "target_role list \<Rightarrow> string \<Rightarrow> candidate_control list \<Rightarrow> candidate_control list" where
  "same_key roles k controls = filter (\<lambda>c. listed roles c \<and> control_key c = k) controls"

text \<open>What the table holds under a key, computed from the controls that share it.\<close>

definition summary_of :: "candidate_control list \<Rightarrow> browser_control option" where
  "summary_of cs = (case cs of
      [] \<Rightarrow> None
    | c # _ \<Rightarrow> Some \<lparr>bc_role = cc_role c, bc_name = js_trim (cc_accessibleName c),
        bc_secure = list_ex cc_secure cs, bc_editable = list_all cc_editable cs,
        bc_duplicate_count = min 200 (length cs)\<rparr>)"

lemma summary_of_snoc:
  "summary_of (cs @ [c]) = (case summary_of cs of
      None \<Rightarrow> Some (fresh_control c) | Some b \<Rightarrow> Some (repeat_control c b))"
  by (cases cs) (auto simp: summary_of_def fresh_control_def repeat_control_def)

lemma control_table_get:
  "jget (control_table roles controls) k = summary_of (same_key roles k controls)"
proof (induction controls rule: rev_induct)
  case Nil
  then show ?case by (simp add: control_table_def same_key_def summary_of_def jget_def)
next
  case (snoc c cs)
  have "control_table roles (cs @ [c]) = add_control roles c (control_table roles cs)"
    by (simp add: control_table_def)
  moreover have "same_key roles k (cs @ [c]) =
      same_key roles k cs @ (if listed roles c \<and> control_key c = k then [c] else [])"
    by (simp add: same_key_def)
  ultimately show ?case
    using snoc by (auto simp: add_control_def summary_of_snoc jm.lookup_insert split: option.splits)
qed

lemma control_table_ok: "jmap_ok (control_table roles controls)"
proof -
  have "jmap_ok m \<Longrightarrow> jmap_ok (add_control roles c m)" for c and m :: "(string, browser_control) jmap"
    by (auto simp: add_control_def jm.ok_insert split: option.splits)
  then have "jmap_ok m \<Longrightarrow> jmap_ok (fold (add_control roles) controls m)" for m
    by (induction controls arbitrary: m) auto
  then show ?thesis by (simp add: control_table_def jmap_ok_def)
qed

lemma same_key_Cons:
  "same_key roles k controls = c # cs \<Longrightarrow>
     c \<in> set controls \<and> listed roles c \<and> control_key c = k"
  by (auto simp: same_key_def filter_eq_Cons_iff)

lemma table_entry:
  assumes "b \<in> set (map snd (control_table roles controls))"
  shows "\<exists>c \<in> set controls. listed roles c \<and> bc_role b = cc_role c
    \<and> bc_name b = js_trim (cc_accessibleName c)
    \<and> bc_duplicate_count b = min 200 (length (same_key roles (control_key c) controls))
    \<and> bc_secure b = list_ex cc_secure (same_key roles (control_key c) controls)
    \<and> bc_editable b = list_all cc_editable (same_key roles (control_key c) controls)"
proof -
  from assms obtain k where "(k, b) \<in> set (control_table roles controls)" by auto
  then have "summary_of (same_key roles k controls) = Some b"
    using jm.entries_lookup [OF control_table_ok] control_table_get by metis
  then obtain c cs where cs: "same_key roles k controls = c # cs"
    by (auto simp: summary_of_def split: list.splits)
  with \<open>summary_of _ = Some b\<close> same_key_Cons [OF cs] show ?thesis
    by (intro bexI [of _ c]) (auto simp: summary_of_def)
qed

lemma resolve_target_ok:
  assumes "resolve_target action w target controls = ResolveOk control n"
  shows "control \<in> set controls \<and> cc_visible control \<and> cc_role control = bt_role target
    \<and> namesMatch (bt_name target) (cc_accessibleName control) \<and> \<not> cc_secure control
    \<and> (w \<longrightarrow> cc_editable control) \<and> checkPreconditions action control = None
    \<and> (bt_nth target = None \<longrightarrow> matchingControls target controls = [control])
    \<and> n = length (matchingControls target controls)"
proof -
  let ?m = "matchingControls target controls"
  from assms have get: "nth_opt ?m (or_else (bt_nth target) 0) = Some control"
    and rest: "\<not> cc_secure control" "w \<longrightarrow> cc_editable control" "checkPreconditions action control = None"
      "n = length ?m" "bt_nth target = None \<longrightarrow> length ?m \<le> 1"
    by (auto simp: resolve_target_def Let_def split: if_splits option.splits)
  from nth_opt_Some_mem [OF get] have "control \<in> set ?m" .
  moreover have "?m = [control]" if "bt_nth target = None"
    using that rest(5) get by (cases ?m) (auto simp: or_else_def)
  ultimately show ?thesis using rest by (auto simp: matchingControls_def)
qed

section \<open>Properties\<close>

text \<open>
  C10: A request resolves only when the run is not paused, its authorization is valid and unexpired,
  the window is not private and the page's origin (or the navigation's) is one it allows; a write
  moreover is marked consequential, the user is present and the control is editable. The control
  is a visible one of the page with the target's role and name, never a secure one, the only such
  one unless the request says which, and it satisfies the action's precondition.
\<close>

theorem resolveRequest_sound:
  assumes "resolveRequest originOf request page now valid = ResolveOk control n"
  shows "\<not> pg_paused page \<and> valid (br_authorization request) \<and> now < br_expires_at request
    \<and> \<not> pg_privateWindow page
    \<and> (isBrowserWrite (br_action request) \<longrightarrow>
         br_consequential request \<and> pg_userPresent page \<and> cc_editable control)
    \<and> (case br_action request of
         Navigate url \<Rightarrow> originAllowed originOf (originOf url) (br_allowed_origins request)
       | _ \<Rightarrow> originAllowed originOf (pg_origin page) (br_allowed_origins request))
    \<and> (case action_target (br_action request) of
         None \<Rightarrow> True
       | Some target \<Rightarrow>
           control \<in> set (pg_controls page) \<and> cc_visible control \<and> cc_role control = bt_role target
           \<and> namesMatch (bt_name target) (cc_accessibleName control) \<and> \<not> cc_secure control
           \<and> checkPreconditions (br_action request) control = None
           \<and> (bt_nth target = None \<longrightarrow> matchingControls target (pg_controls page) = [control]))"
  using assms
  by (cases "br_action request")
    (auto simp: resolveRequest_def Let_def isBrowserWrite_def action_target_def
      split: if_splits dest: resolve_target_ok)

definition fx_save :: candidate_control where
  "fx_save = \<lparr>cc_role = Button, cc_accessibleName = ''Save *'', cc_value = None, cc_editable = True,
     cc_secure = False, cc_visible = True\<rparr>"

definition fx_page :: page_context where
  "fx_page = \<lparr>pg_origin = ''https://a.example'', pg_privateWindow = False, pg_userPresent = True,
     pg_paused = False, pg_controls = [fx_save]\<rparr>"

definition fx_request :: "browser_action \<Rightarrow> browser_request" where
  "fx_request a = \<lparr>br_request_id = ''r1'', br_run_id = ''run-1'', br_step_id = ''save'', br_action = a,
     br_authorization = ''token'', br_allowed_origins = [''https://a.example''],
     br_consequential = isBrowserWrite a, br_issued_at = 0, br_expires_at = 30000\<rparr>"

definition fx_press :: browser_action where
  "fx_press = ClickControl \<lparr>bt_role = Button, bt_name = ''save'', bt_nth = None\<rparr> ''SAVE''"

lemma fx_names: "normalizeName ''Save *'' = ''save''" "normalizeName ''save'' = ''save''"
    "normalizeName ''SAVE'' = ''save''"
  by code_simp+

theorem resolveRequest_sound_witness:
  "matchingControls \<lparr>bt_role = Button, bt_name = ''save'', bt_nth = None\<rparr> (pg_controls fx_page) = [fx_save]"
proof -
  have "resolveRequest (\<lambda>u. u) (fx_request fx_press) fx_page 0 (\<lambda>_. True) = ResolveOk fx_save 1"
    by (simp add: resolveRequest_def Let_def fx_request_def fx_press_def fx_page_def fx_save_def
        isBrowserWrite_def action_target_def originAllowed_def resolve_target_def matchingControls_def
        namesMatch_def fx_names checkPreconditions_def or_else_def)
  from resolveRequest_sound [OF this] show ?thesis
    by (simp add: fx_request_def fx_press_def action_target_def)
qed


end
