(* ===== verification/Browser_Plan.thy ===== *)
theory Browser_Plan
  imports Browser_Resolve
begin

text \<open>
  Turning an approved diff into browser steps, \<open>packages/browser-actuator/src/plan.ts\<close>: the refusals,
  the steps of each change, the save and its confirming reads, the summary and the revert plan.
  A preview with characters outside Latin-1 is the constructor \<open>PSet\<close> of its parts.
\<close>

record planned_change =
  pl_record :: string
  pl_field_label :: string
  pl_from :: string
  pl_to :: string
  pl_role :: "target_role option"
  pl_nth :: "nat option"

record plan_input =
  pi_changes :: "planned_change list"
  pi_save_control :: "string option"

datatype preview = PText string | PSet string string string

record plan_step =
  ps_id :: string
  ps_action :: browser_action
  ps_preview :: preview
  ps_change_index :: "nat option"
  ps_write :: bool

datatype plan_refusal = NoChanges | TooManyChanges | MissingFieldLabel | NoChangeNeeded | DuplicateTarget

datatype plan_result = PlanOk "plan_step list" | PlanRefused plan_refusal string

definition MAX_PLAN_CHANGES :: nat where "MAX_PLAN_CHANGES = 50"

definition role_of :: "planned_change \<Rightarrow> target_role" where
  "role_of c = or_else (pl_role c) Textbox"

definition targetOf :: "planned_change \<Rightarrow> browser_target" where
  "targetOf c = \<lparr>bt_role = role_of c, bt_name = pl_field_label c, bt_nth = pl_nth c\<rparr>"

definition plan_key :: "planned_change \<Rightarrow> string" where
  "plan_key c = role_name (role_of c) @ ''|'' @ js_lower (js_trim (pl_field_label c)) @ ''|''
     @ (case pl_nth c of None \<Rightarrow> [] | Some n \<Rightarrow> dec n)"

fun check_changes :: "string list \<Rightarrow> (nat \<times> planned_change) list \<Rightarrow> (plan_refusal \<times> string) option" where
  "check_changes seen [] = None"
| "check_changes seen ((index, c) # rest) =
     (if js_trim (pl_field_label c) = []
      then Some (MissingFieldLabel, ''change '' @ dec index @ '' on '' @ pl_record c @ '' has no field label'')
      else if pl_from c = pl_to c
      then Some (NoChangeNeeded, pl_field_label c @ '' on '' @ pl_record c @ '' already reads '' @ quoted (pl_to c))
      else if plan_key c \<in> set seen
      then Some (DuplicateTarget, ''two changes address '' @ pl_field_label c @ '' on '' @ pl_record c)
      else check_changes (seen @ [plan_key c]) rest)"

definition step_name :: "nat \<Rightarrow> string \<Rightarrow> string" where
  "step_name index what = ''c'' @ dec index @ ''-'' @ what"

definition where_text :: "planned_change \<Rightarrow> string" where
  "where_text c = quoted (pl_field_label c) @ '' on '' @ pl_record c"

definition focus_step :: "nat \<Rightarrow> planned_change \<Rightarrow> plan_step" where
  "focus_step index c = \<lparr>ps_id = step_name index ''focus'', ps_action = FocusField (targetOf c),
     ps_preview = PText (''Show '' @ where_text c), ps_change_index = Some index, ps_write = False\<rparr>"

definition before_step :: "nat \<Rightarrow> planned_change \<Rightarrow> plan_step" where
  "before_step index c = \<lparr>ps_id = step_name index ''before'', ps_action = ReadField (targetOf c),
     ps_preview = PText (''Read '' @ where_text c @ '' before changing it''),
     ps_change_index = Some index, ps_write = False\<rparr>"

definition select_step :: "nat \<Rightarrow> planned_change \<Rightarrow> plan_step" where
  "select_step index c = \<lparr>ps_id = step_name index ''set'', ps_action = SelectOption (targetOf c) (pl_to c),
     ps_preview = PText (''Choose '' @ quoted (pl_to c) @ '' for '' @ where_text c @ '' (was ''
       @ quoted (pl_from c) @ '')''),
     ps_change_index = Some index, ps_write = True\<rparr>"

definition set_step :: "nat \<Rightarrow> planned_change \<Rightarrow> plan_step" where
  "set_step index c = \<lparr>ps_id = step_name index ''set'',
     ps_action = SetValue (targetOf c) (pl_to c) (Some (pl_from c)),
     ps_preview = PSet (where_text c) (pl_from c) (pl_to c),
     ps_change_index = Some index, ps_write = True\<rparr>"

definition verify_step :: "nat \<Rightarrow> planned_change \<Rightarrow> plan_step" where
  "verify_step index c = \<lparr>ps_id = step_name index ''verify'', ps_action = ReadField (targetOf c),
     ps_preview = PText (''Read '' @ where_text c @ '' back''),
     ps_change_index = Some index, ps_write = False\<rparr>"

definition change_steps :: "nat \<times> planned_change \<Rightarrow> plan_step list" where
  "change_steps ic = (case ic of (index, c) \<Rightarrow>
     focus_step index c
     # (if bt_role (targetOf c) = Combobox then [before_step index c, select_step index c]
        else [set_step index c])
     @ [verify_step index c])"

definition save_step :: "string \<Rightarrow> plan_step" where
  "save_step name = \<lparr>ps_id = ''save'',
     ps_action = ClickControl \<lparr>bt_role = Button, bt_name = name, bt_nth = None\<rparr> name,
     ps_preview = PText (''Click '' @ quoted name), ps_change_index = None, ps_write = True\<rparr>"

definition confirm_step :: "nat \<times> planned_change \<Rightarrow> plan_step" where
  "confirm_step ic = (case ic of (index, c) \<Rightarrow>
     \<lparr>ps_id = step_name index ''confirm'', ps_action = ReadField (targetOf c),
      ps_preview = PText (''Confirm '' @ where_text c @ '' still reads '' @ quoted (pl_to c)),
      ps_change_index = Some index, ps_write = False\<rparr>)"

definition save_wanted :: "string option \<Rightarrow> string option" where
  "save_wanted s = (case s of None \<Rightarrow> None | Some name \<Rightarrow> if js_trim name = [] then None else Some name)"

definition plan_steps :: "plan_input \<Rightarrow> plan_step list" where
  "plan_steps input =
     concat (map change_steps (entries_of (pi_changes input)))
     @ (case save_wanted (pi_save_control input) of
         None \<Rightarrow> []
       | Some name \<Rightarrow> save_step name # map confirm_step (entries_of (pi_changes input)))"

definition planBrowserWrites :: "plan_input \<Rightarrow> plan_result" where
  "planBrowserWrites input =
     (let changes = pi_changes input in
      if changes = [] then PlanRefused NoChanges ''the diff proposed no changes''
      else if length changes > MAX_PLAN_CHANGES
      then PlanRefused TooManyChanges (dec (length changes) @ '' changes exceeds the ''
             @ dec MAX_PLAN_CHANGES @ '' a single approval covers'')
      else (case check_changes [] (entries_of changes) of
          Some (reason, detail) \<Rightarrow> PlanRefused reason detail
        | None \<Rightarrow> PlanOk (plan_steps input)))"

record plan_summary =
  sm_writes :: nat
  sm_reads :: nat
  sm_lines :: "preview list"

definition summarizePlan :: "plan_step list \<Rightarrow> plan_summary" where
  "summarizePlan steps = \<lparr>sm_writes = length (filter ps_write steps),
     sm_reads = length (filter (\<lambda>s. \<not> ps_write s) steps), sm_lines = map ps_preview steps\<rparr>"

record applied_change =
  ac_change :: planned_change
  ac_observed_before :: "string option"
  ac_wrote :: string

definition planRevert :: "applied_change list \<Rightarrow> plan_result" where
  "planRevert applied =
     (let restorable = List.map_filter (\<lambda>a. case ac_observed_before a of
            None \<Rightarrow> None
          | Some before \<Rightarrow> if before \<noteq> ac_wrote a then Some (a, before) else None) applied
      in if restorable = [] then PlanRefused NoChanges ''nothing was applied that could be put back''
         else planBrowserWrites
           \<lparr>pi_changes = map (\<lambda>(a, before). ac_change a\<lparr>pl_from := ac_wrote a, pl_to := before\<rparr>)
              (rev restorable), pi_save_control = None\<rparr>)"

section \<open>Component lemmas\<close>

lemmas plan_step_defs = focus_step_def before_step_def select_step_def set_step_def verify_step_def
  save_step_def confirm_step_def

lemma check_changes_None_iff:
  "check_changes seen ics = None \<longleftrightarrow>
     (\<forall>(i, c) \<in> set ics. js_trim (pl_field_label c) \<noteq> [] \<and> pl_from c \<noteq> pl_to c)
     \<and> distinct (map (\<lambda>(i, c). plan_key c) ics)
     \<and> set seen \<inter> set (map (\<lambda>(i, c). plan_key c) ics) = {}"
  by (induction seen ics rule: check_changes.induct) (auto split: prod.splits)

lemma all_entries_of: "(\<forall>(i, x) \<in> set (entries_of xs). P x) \<longleftrightarrow> (\<forall>x \<in> set xs. P x)"
  by (metis (no_types, lifting) case_prod_unfold image_iff snd_set_entries_of)

lemma map_entries_of: "map (\<lambda>(i, x). f x) (entries_of xs) = map f xs"
  by (metis (no_types, lifting) case_prod_unfold map_eq_conv map_map comp_def snd_entries_of)

lemma plan_ok_iff:
  "planBrowserWrites input = PlanOk steps \<longleftrightarrow>
     pi_changes input \<noteq> [] \<and> length (pi_changes input) \<le> 50
     \<and> (\<forall>c \<in> set (pi_changes input). js_trim (pl_field_label c) \<noteq> [] \<and> pl_from c \<noteq> pl_to c)
     \<and> distinct (map plan_key (pi_changes input)) \<and> steps = plan_steps input"
  using check_changes_None_iff [of "[]" "entries_of (pi_changes input)"]
  by (auto simp: planBrowserWrites_def Let_def MAX_PLAN_CHANGES_def all_entries_of map_entries_of
      split: option.splits)

lemma change_steps_writes:
  "filter ps_write (change_steps ic) =
     [if role_of (snd ic) = Combobox then select_step (fst ic) (snd ic) else set_step (fst ic) (snd ic)]"
  by (cases ic) (simp add: change_steps_def plan_step_defs targetOf_def)

lemma change_steps_flags: "s \<in> set (change_steps ic) \<Longrightarrow> ps_write s = isBrowserWrite (ps_action s)"
  by (cases ic) (auto simp: change_steps_def plan_step_defs isBrowserWrite_def split: if_splits)

text \<open>Step ids are distinct: an id holds its index between two characters no numeral holds.\<close>

lemma step_name_inject: "step_name i a = step_name j b \<longleftrightarrow> i = j \<and> a = b"
proof -
  have "CHR ''-'' \<notin> set (dec n)" for n by (rule dec_no_char) (simp add: is_digit_def)
  then show ?thesis by (simp add: step_name_def sep_append_inject)
qed

lemma step_name_not_save: "step_name i a \<noteq> ''save''"
  by (simp add: step_name_def)

lemma change_steps_ids:
  "map ps_id (change_steps (i, c)) = (if role_of c = Combobox
     then [step_name i ''focus'', step_name i ''before'', step_name i ''set'', step_name i ''verify'']
     else [step_name i ''focus'', step_name i ''set'', step_name i ''verify''])"
  by (simp add: change_steps_def plan_step_defs targetOf_def)

lemma change_ids_form:
  "n \<in> set (map ps_id (concat (map change_steps ics))) \<Longrightarrow>
     \<exists>i \<in> fst ` set ics. \<exists>w \<in> {''focus'', ''before'', ''set'', ''verify''}. n = step_name i w"
proof (induction ics)
  case (Cons ic ics)
  then show ?case by (cases ic) (auto simp: change_steps_ids split: if_splits)
qed simp

lemma distinct_change_ids:
  "distinct (map fst ics) \<Longrightarrow> distinct (map ps_id (concat (map change_steps ics)))"
proof (induction ics)
  case (Cons ic ics)
  obtain i c where ic: "ic = (i, c)" by (cases ic)
  have "n \<notin> set (map ps_id (concat (map change_steps ics)))" if "n \<in> set (map ps_id (change_steps ic))" for n
  proof
    assume "n \<in> set (map ps_id (concat (map change_steps ics)))"
    from change_ids_form [OF this] obtain j w where j: "j \<in> fst ` set ics" "n = step_name j w" by blast
    from that change_ids_form [of n "[ic]"] obtain v where "n = step_name i v" by (auto simp: ic)
    with j Cons.prems show False by (simp add: step_name_inject ic)
  qed
  then have "set (map ps_id (change_steps ic)) \<inter> set (map ps_id (concat (map change_steps ics))) = {}" by blast
  moreover have "distinct (map ps_id (change_steps ic))"
    by (simp add: ic change_steps_ids step_name_inject)
  ultimately show ?case using Cons by (simp add: map_concat)
qed simp

lemma confirm_ids: "map ps_id (map confirm_step ics) = map (\<lambda>i. step_name i ''confirm'') (map fst ics)"
  by (auto simp: confirm_step_def)

lemma distinct_confirm_ids:
  "distinct (map fst ics) \<Longrightarrow> distinct (map ps_id (map confirm_step ics))"
  unfolding confirm_ids by (simp add: distinct_map inj_on_def step_name_inject)

lemma confirm_ids_form:
  "n \<in> set (map ps_id (map confirm_step ics)) \<Longrightarrow> \<exists>i. n = step_name i ''confirm''"
  by (auto simp: confirm_step_def split: prod.splits)

lemma distinct_entries_index: "distinct (map fst (entries_of xs))"
  by (simp add: entries_of_def)

lemma distinct_plan_ids: "distinct (map ps_id (plan_steps input))"
proof -
  let ?ics = "entries_of (pi_changes input)"
  have "set (map ps_id (concat (map change_steps ?ics))) \<inter> set (map ps_id (map confirm_step ?ics)) = {}"
    using change_ids_form [of _ ?ics] confirm_ids_form [of _ ?ics]
    by (fastforce simp: step_name_inject simp del: map_map set_map)
  moreover have "''save'' \<notin> set (map ps_id (concat (map change_steps ?ics)))"
    using change_ids_form [of "''save''" ?ics] step_name_not_save by metis
  moreover have "''save'' \<notin> set (map ps_id (map confirm_step ?ics))"
    using confirm_ids_form [of "''save''" ?ics] step_name_not_save by metis
  ultimately show ?thesis
    using distinct_change_ids [OF distinct_entries_index] distinct_confirm_ids [OF distinct_entries_index]
    by (auto simp: plan_steps_def save_step_def simp del: map_map set_map split: option.splits)
qed

lemma plan_writes:
  "filter ps_write (plan_steps input) =
     map (\<lambda>(i, c). if role_of c = Combobox then select_step i c else set_step i c) (entries_of (pi_changes input))
     @ (case save_wanted (pi_save_control input) of None \<Rightarrow> [] | Some name \<Rightarrow> [save_step name])"
proof -
  have "filter ps_write (map confirm_step ics) = []" for ics
    by (auto simp: confirm_step_def filter_empty_conv)
  moreover have "filter ps_write (concat (map change_steps ics))
      = map (\<lambda>(i, c). if role_of c = Combobox then select_step i c else set_step i c) ics" for ics
    by (induction ics) (simp_all add: change_steps_writes split: prod.splits)
  ultimately show ?thesis by (simp add: plan_steps_def save_step_def split: option.splits)
qed

definition write_action :: "planned_change \<Rightarrow> browser_action" where
  "write_action c = (if role_of c = Combobox then SelectOption (targetOf c) (pl_to c)
     else SetValue (targetOf c) (pl_to c) (Some (pl_from c)))"

definition save_actions :: "string option \<Rightarrow> browser_action list" where
  "save_actions s = (case save_wanted s of None \<Rightarrow> []
     | Some name \<Rightarrow> [ClickControl \<lparr>bt_role = Button, bt_name = name, bt_nth = None\<rparr> name])"

lemma plan_write_actions:
  "map ps_action (filter ps_write (plan_steps input)) =
     map write_action (pi_changes input) @ save_actions (pi_save_control input)"
proof -
  have "map ps_action (map (\<lambda>(i, c). if role_of c = Combobox then select_step i c else set_step i c) ics)
      = map (\<lambda>(i, c). write_action c) ics" for ics
    by (simp add: plan_step_defs write_action_def split_beta)
  then show ?thesis
    by (simp add: plan_writes map_entries_of save_actions_def save_step_def del: map_map split: option.splits)
qed

lemma plan_step_flags: "s \<in> set (plan_steps input) \<Longrightarrow> ps_write s = isBrowserWrite (ps_action s)"
  by (auto simp: plan_steps_def change_steps_flags, auto simp: save_step_def confirm_step_def
      isBrowserWrite_def split: option.splits)

section \<open>Properties\<close>

text \<open>
  C14: A plan is made exactly when there are one to fifty changes, each with a label and a different
  value, no two with the same key; every other diff is refused.
\<close>

theorem planBrowserWrites_accepts_exactly:
  "(\<exists>steps. planBrowserWrites input = PlanOk steps) \<longleftrightarrow>
     pi_changes input \<noteq> [] \<and> length (pi_changes input) \<le> 50
     \<and> list_all (\<lambda>c. js_trim (pl_field_label c) \<noteq> [] \<and> pl_from c \<noteq> pl_to c) (pi_changes input)
     \<and> distinct (map plan_key (pi_changes input))"
  by (auto simp: plan_ok_iff list_all_iff)

text \<open>
  C15: The writes of a plan are, in order, one per approved change - choosing the new value of a
  picklist, or setting a field that must still hold the old value - and then the save when one is
  wanted; steps are marked as writes exactly when their verb writes, and step ids are distinct.
\<close>

theorem plan_writes_exactly_the_diff:
  assumes "planBrowserWrites input = PlanOk steps"
  shows "map ps_action (filter ps_write steps) =
      map write_action (pi_changes input) @ save_actions (pi_save_control input)
    \<and> list_all (\<lambda>s. ps_write s = isBrowserWrite (ps_action s)) steps
    \<and> distinct (map ps_id steps)"
  using assms distinct_plan_ids [of input]
  by (simp add: plan_ok_iff plan_write_actions list_all_iff plan_step_flags)

definition fx_change :: planned_change where
  "fx_change = \<lparr>pl_record = ''Acme'', pl_field_label = ''Close date'', pl_from = ''1'', pl_to = ''2'',
     pl_role = None, pl_nth = None\<rparr>"

definition fx_plan_input :: plan_input where
  "fx_plan_input = \<lparr>pi_changes = [fx_change, fx_change\<lparr>pl_field_label := ''Close date *''\<rparr>],
     pi_save_control = Some ''Save''\<rparr>"

lemma fx_plan_ok: "planBrowserWrites fx_plan_input = PlanOk (plan_steps fx_plan_input)"
proof -
  have "js_trim ''Close date'' = ''Close date''" "js_trim ''Close date *'' = ''Close date *''"
    "js_lower ''Close date'' = ''close date''" "js_lower ''Close date *'' = ''close date *''"
    by code_simp+
  then show ?thesis
    by (simp add: plan_ok_iff fx_plan_input_def fx_change_def plan_key_def role_of_def or_else_def
        role_name_def)
qed

theorem plan_writes_exactly_the_diff_witness:
  "distinct (map ps_id (plan_steps fx_plan_input))"
  using plan_writes_exactly_the_diff [OF fx_plan_ok] by blast

text \<open>
  C40: The duplicate check does not see through label decoration: a plan may hold two changes that
  address the same control, because its key only trims and lowercases the label where the
  resolver also strips a trailing colon or star; both changes' targets match the same controls.
\<close>

theorem duplicate_check_misses_decorated_label:
  "\<exists>input c d. (\<exists>steps. planBrowserWrites input = PlanOk steps) \<and> pi_changes input = [c, d]
     \<and> pl_to c \<noteq> pl_from d
     \<and> (\<forall>controls. matchingControls (targetOf c) controls = matchingControls (targetOf d) controls)"
proof (intro exI conjI allI)
  let ?d = "fx_change\<lparr>pl_field_label := ''Close date *''\<rparr>"
  show "planBrowserWrites fx_plan_input = PlanOk (plan_steps fx_plan_input)" by (rule fx_plan_ok)
  show "pi_changes fx_plan_input = [fx_change, ?d]" by (simp add: fx_plan_input_def)
  show "pl_to fx_change \<noteq> pl_from ?d" by (simp add: fx_change_def)
  have "normalizeName ''Close date'' = normalizeName ''Close date *''" by code_simp
  then show "matchingControls (targetOf fx_change) controls = matchingControls (targetOf ?d) controls" for controls
    by (simp add: matchingControls_def targetOf_def fx_change_def namesMatch_def role_of_def)
qed

text \<open>
  C31: A revert undoes exactly what was observed: its writes restore, in reverse order, the value
  each field held before, from the value that was written, for the changes whose previous value
  was read and differs. It never presses a save control, whatever the applied plan pressed.
\<close>

theorem planRevert_restores_observed:
  assumes "planRevert applied = PlanOk steps"
  shows "map ps_action (filter ps_write steps) = rev (List.map_filter (\<lambda>a. case ac_observed_before a of
      None \<Rightarrow> None
    | Some before \<Rightarrow> if before = ac_wrote a then None
        else Some (write_action (ac_change a\<lparr>pl_from := ac_wrote a, pl_to := before\<rparr>))) applied)"
proof -
  let ?r = "List.map_filter (\<lambda>a. case ac_observed_before a of
      None \<Rightarrow> None | Some before \<Rightarrow> if before \<noteq> ac_wrote a then Some (a, before) else None) applied"
  have map_r: "map (\<lambda>(a, before). write_action (ac_change a\<lparr>pl_from := ac_wrote a, pl_to := before\<rparr>)) ?r
      = List.map_filter (\<lambda>a. case ac_observed_before a of
          None \<Rightarrow> None
        | Some before \<Rightarrow> if before = ac_wrote a then None
            else Some (write_action (ac_change a\<lparr>pl_from := ac_wrote a, pl_to := before\<rparr>))) applied"
    by (induction applied) (auto simp: map_filter_simps split: option.splits)
  have "steps = plan_steps \<lparr>pi_changes = map (\<lambda>(a, before). ac_change a\<lparr>pl_from := ac_wrote a, pl_to := before\<rparr>)
      (rev ?r), pi_save_control = None\<rparr>"
    using assms by (auto simp: planRevert_def Let_def plan_ok_iff split: if_splits)
  then show ?thesis
    unfolding map_r [symmetric]
    by (simp add: plan_write_actions save_actions_def save_wanted_def rev_map comp_def split_beta)
qed

definition fx_applied :: "applied_change list" where
  "fx_applied = [\<lparr>ac_change = fx_change, ac_observed_before = Some ''0'', ac_wrote = ''2''\<rparr>]"

lemma fx_revert_ok: "\<exists>steps. planRevert fx_applied = PlanOk steps"
proof -
  have "js_trim ''Close date'' \<noteq> []" by code_simp
  then show ?thesis
    by (simp add: planRevert_def fx_applied_def map_filter_simps plan_ok_iff fx_change_def)
qed

theorem planRevert_restores_observed_witness:
  "\<exists>steps. planRevert fx_applied = PlanOk steps \<and> map ps_action (filter ps_write steps)
     = [SetValue (targetOf fx_change) ''0'' (Some ''2'')]"
proof -
  obtain steps where ok: "planRevert fx_applied = PlanOk steps" using fx_revert_ok by blast
  have "role_of fx_change = Textbox" by (simp add: role_of_def fx_change_def or_else_def)
  then have "write_action (fx_change\<lparr>pl_from := ''2'', pl_to := ''0''\<rparr>)
      = SetValue (targetOf fx_change) ''0'' (Some ''2'')"
    by (simp add: write_action_def targetOf_def role_of_def)
  with planRevert_restores_observed [OF ok] ok show ?thesis
    by (simp add: fx_applied_def map_filter_simps)
qed

end
