(* ===== verification/Browser_Execute.thy ===== *)
theory Browser_Execute
  imports Browser_Plan
begin

text \<open>
  Running an approved plan: the on-device gate (\<open>packages/browser-actuator/src/authorize.ts\<close>), the
  check that a write landed (\<open>verify.ts\<close>) and the executor (\<open>execute.ts\<close>). The dependencies the
  executor is given (dispatch, minting, request ids, clock) act on a world of any type; a dispatch
  that throws is an \<open>Inl\<close>. What the browser answers is untrusted: it is either something the
  schema cannot read or a result the schema may still reject.
\<close>

section \<open>authorize.ts\<close>

datatype issue_refusal = WrongSource | ShadowRunNeverWrites | PolicyForbidsBrowserWrites
  | ApprovalMissing | IssueUserAbsent | AuthorizationReused | AuthorizationTooWeak
  | ExpiryWindowTooLong | NoAllowedOrigins

definition issue_refusal_name :: "issue_refusal \<Rightarrow> string" where
  "issue_refusal_name r = (case r of
      WrongSource \<Rightarrow> ''wrong_source'' | ShadowRunNeverWrites \<Rightarrow> ''shadow_run_never_writes''
    | PolicyForbidsBrowserWrites \<Rightarrow> ''policy_forbids_browser_writes''
    | ApprovalMissing \<Rightarrow> ''approval_missing'' | IssueUserAbsent \<Rightarrow> ''user_absent''
    | AuthorizationReused \<Rightarrow> ''authorization_reused'' | AuthorizationTooWeak \<Rightarrow> ''authorization_too_weak''
    | ExpiryWindowTooLong \<Rightarrow> ''expiry_window_too_long'' | NoAllowedOrigins \<Rightarrow> ''no_allowed_origins'')"

record issue_input =
  ii_routedSource :: string
  ii_action :: browser_action
  ii_mode :: run_mode
  ii_allowSupervisedBrowserWrites :: bool
  ii_approvalGranted :: bool
  ii_userPresent :: bool
  ii_allowedOrigins :: "string list"
  ii_authorization :: string
  ii_spentAuthorizations :: "string list"
  ii_issuedAt :: int
  ii_expiresAt :: int

definition MAX_AUTHORIZATION_WINDOW_MS :: int where "MAX_AUTHORIZATION_WINDOW_MS = 120000"
definition MIN_AUTHORIZATION_LENGTH :: nat where "MIN_AUTHORIZATION_LENGTH = 32"

definition authorizeIssue :: "issue_input \<Rightarrow> issue_refusal option" where
  "authorizeIssue i =
     (if ii_routedSource i \<noteq> ''browser_extension'' then Some WrongSource
      else if ii_allowedOrigins i = [] then Some NoAllowedOrigins
      else if length (ii_authorization i) < MIN_AUTHORIZATION_LENGTH then Some AuthorizationTooWeak
      else if ii_authorization i \<in> set (ii_spentAuthorizations i) then Some AuthorizationReused
      else if ii_expiresAt i - ii_issuedAt i > MAX_AUTHORIZATION_WINDOW_MS then Some ExpiryWindowTooLong
      else if isBrowserWrite (ii_action i) then
        (if ii_mode i = RunShadow then Some ShadowRunNeverWrites
         else if \<not> ii_allowSupervisedBrowserWrites i then Some PolicyForbidsBrowserWrites
         else if \<not> ii_approvalGranted i then Some ApprovalMissing
         else if \<not> ii_userPresent i then Some IssueUserAbsent
         else None)
      else None)"

section \<open>verify.ts\<close>

datatype unverified_reason = ValueMismatch | NoObservation | RequiresIndependentRead | NotApplied | NotAWrite

definition unverified_name :: "unverified_reason \<Rightarrow> string" where
  "unverified_name r = (case r of
      ValueMismatch \<Rightarrow> ''value_mismatch'' | NoObservation \<Rightarrow> ''no_observation''
    | RequiresIndependentRead \<Rightarrow> ''requires_independent_read'' | NotApplied \<Rightarrow> ''not_applied''
    | NotAWrite \<Rightarrow> ''not_a_write'')"

text \<open>\<open>None\<close> is \<open>verified: true\<close>.\<close>

definition verifyWrite :: "browser_action \<Rightarrow> browser_result \<Rightarrow> unverified_reason option" where
  "verifyWrite action result =
     (if \<not> isBrowserWrite action then Some NotAWrite
      else if rs_outcome result \<noteq> Applied then Some NotApplied
      else (case rs_observed result of
          None \<Rightarrow> Some NoObservation
        | Some seen \<Rightarrow>
            (case action of
              ClickControl _ confirm_name \<Rightarrow>
                (if namesMatch confirm_name (bo_resolved_name seen)
                 then Some RequiresIndependentRead else Some ValueMismatch)
            | SetValue _ v _ \<Rightarrow> (if valuesMatch v (bo_value_after seen) then None else Some ValueMismatch)
            | SelectOption _ v \<Rightarrow> (if valuesMatch v (bo_value_after seen) then None else Some ValueMismatch)
            | _ \<Rightarrow> Some NotAWrite)))"

section \<open>execute.ts\<close>

definition REQUEST_WINDOW_MS :: int where
  "REQUEST_WINDOW_MS = min 30000 MAX_AUTHORIZATION_WINDOW_MS"

record execute_context =
  ec_runId :: string
  ec_routedSource :: string
  ec_mode :: run_mode
  ec_allowSupervisedBrowserWrites :: bool
  ec_approvalGranted :: bool
  ec_userPresent :: bool
  ec_allowedOrigins :: "string list"

datatype raw_answer = Garbage string | Typed browser_result

record 'w execute_deps =
  dp_dispatch :: "browser_request \<Rightarrow> 'w \<Rightarrow> (string + raw_answer) \<times> 'w"
  dp_mintAuthorization :: "'w \<Rightarrow> string \<times> 'w"
  dp_newRequestId :: "'w \<Rightarrow> string \<times> 'w"
  dp_now :: "'w \<Rightarrow> int \<times> 'w"

record result_parser =
  rp_zod :: browser_zod
  rp_message :: "browser_result \<Rightarrow> string"

definition parse_result :: "result_parser \<Rightarrow> raw_answer \<Rightarrow> string + browser_result" where
  "parse_result rp raw = (case raw of
      Garbage m \<Rightarrow> Inl m
    | Typed r \<Rightarrow> if result_schema (rp_zod rp) r then Inr r else Inl (rp_message rp r))"

datatype step_state = StApplied | StObserved | StRefused | StFailed | StNotIssued | StUnverified | StSkipped

record step_outcome =
  so_step_id :: string
  so_status :: step_state
  so_write :: bool
  so_change_index :: "nat option"
  so_refusal_reason :: "action_refusal option"
  so_issue_refusal :: "issue_refusal option"
  so_observed :: "browser_observation option"
  so_protocol_error :: "string option"

record execute_outcome =
  eo_steps :: "step_outcome list"
  eo_halted_at :: "string option"
  eo_halted_because :: "string option"
  eo_writes_applied :: nat
  eo_all_writes_verified :: bool

definition requestFor :: "plan_step \<Rightarrow> execute_context \<Rightarrow> string \<Rightarrow> string \<Rightarrow> int \<Rightarrow> browser_request" where
  "requestFor step ctx request_id authorization now =
     \<lparr>br_request_id = request_id, br_run_id = ec_runId ctx, br_step_id = ps_id step,
      br_action = ps_action step, br_authorization = authorization,
      br_allowed_origins = ec_allowedOrigins ctx, br_consequential = isBrowserWrite (ps_action step),
      br_issued_at = now, br_expires_at = now + REQUEST_WINDOW_MS\<rparr>"

definition issue_for :: "plan_step \<Rightarrow> execute_context \<Rightarrow> string \<Rightarrow> string list \<Rightarrow> int \<Rightarrow> issue_input" where
  "issue_for step ctx authorization spent now =
     \<lparr>ii_routedSource = ec_routedSource ctx, ii_action = ps_action step, ii_mode = ec_mode ctx,
      ii_allowSupervisedBrowserWrites = ec_allowSupervisedBrowserWrites ctx,
      ii_approvalGranted = ec_approvalGranted ctx, ii_userPresent = ec_userPresent ctx,
      ii_allowedOrigins = ec_allowedOrigins ctx, ii_authorization = authorization,
      ii_spentAuthorizations = spent, ii_issuedAt = now, ii_expiresAt = now + REQUEST_WINDOW_MS\<rparr>"

text \<open>What became of one step: every way the body of the loop ends.\<close>

datatype step_verdict =
    VNotIssued issue_refusal
  | VMalformed string
  | VThrown string
  | VRefused action_refusal "browser_observation option"
  | VFailed "string option" "browser_observation option"
  | VObserved "browser_observation option"
  | VApplied "browser_observation option"
  | VUnverified unverified_reason "browser_observation option"

definition judge_result :: "plan_step \<Rightarrow> browser_result \<Rightarrow> step_verdict" where
  "judge_result step result =
     (case rs_refusal_reason result of
       Some r \<Rightarrow> VRefused r (rs_observed result)
     | None \<Rightarrow>
         (if rs_outcome result = OutFailed then VFailed (rs_failure result) (rs_observed result)
          else if \<not> ps_write step then VObserved (rs_observed result)
          else (case verifyWrite (ps_action step) result of
              None \<Rightarrow> VApplied (rs_observed result)
            | Some reason \<Rightarrow>
                (if reason = RequiresIndependentRead then VApplied (rs_observed result)
                 else VUnverified reason (rs_observed result)))))"

definition attempt_step :: "result_parser \<Rightarrow> execute_context \<Rightarrow> 'w execute_deps \<Rightarrow> plan_step \<Rightarrow> string list \<Rightarrow> 'w
    \<Rightarrow> step_verdict \<times> string list \<times> 'w" where
  "attempt_step rp ctx deps step spent w =
     (let (now, w1) = dp_now deps w;
          (authorization, w2) = dp_mintAuthorization deps w1
      in case authorizeIssue (issue_for step ctx authorization spent now) of
          Some reason \<Rightarrow> (VNotIssued reason, spent, w2)
        | None \<Rightarrow>
            (let (request_id, w3) = dp_newRequestId deps w2;
                 spent' = authorization # spent
             in case dp_dispatch deps (requestFor step ctx request_id authorization now) w3 of
                 (Inl m, w4) \<Rightarrow> (VThrown m, spent', w4)
               | (Inr raw, w4) \<Rightarrow>
                   (case parse_result rp raw of
                     Inl m \<Rightarrow> (VMalformed m, spent', w4)
                   | Inr result \<Rightarrow> (judge_result step result, spent', w4))))"

definition outcome_of :: "plan_step \<Rightarrow> step_state \<Rightarrow> browser_observation option \<Rightarrow> step_outcome" where
  "outcome_of step status seen =
     \<lparr>so_step_id = ps_id step, so_status = status, so_write = ps_write step,
      so_change_index = ps_change_index step, so_refusal_reason = None, so_issue_refusal = None,
      so_observed = seen, so_protocol_error = None\<rparr>"

definition verdict_outcome :: "plan_step \<Rightarrow> step_verdict \<Rightarrow> step_outcome" where
  "verdict_outcome step v = (case v of
      VNotIssued r \<Rightarrow> outcome_of step StNotIssued None\<lparr>so_issue_refusal := Some r\<rparr>
    | VMalformed m \<Rightarrow> outcome_of step StFailed None\<lparr>so_protocol_error := Some m\<rparr>
    | VThrown m \<Rightarrow> outcome_of step StFailed None\<lparr>so_protocol_error := Some m\<rparr>
    | VRefused r seen \<Rightarrow> outcome_of step StRefused seen\<lparr>so_refusal_reason := Some r\<rparr>
    | VFailed m seen \<Rightarrow> outcome_of step StFailed seen\<lparr>so_protocol_error := m\<rparr>
    | VObserved seen \<Rightarrow> outcome_of step StObserved seen
    | VApplied seen \<Rightarrow> outcome_of step StApplied seen
    | VUnverified r seen \<Rightarrow> outcome_of step StUnverified seen)"

definition verdict_halts :: "step_verdict \<Rightarrow> string option" where
  "verdict_halts v = (case v of
      VNotIssued r \<Rightarrow> Some (''not sent: '' @ issue_refusal_name r)
    | VMalformed m \<Rightarrow> Some ''the browser's answer did not match the contract''
    | VThrown m \<Rightarrow> Some m
    | VRefused r seen \<Rightarrow> Some (''the browser refused: '' @ refusal_name r)
    | VFailed m seen \<Rightarrow> Some (or_else m ''the browser could not perform the action'')
    | VUnverified r seen \<Rightarrow> Some (''the change did not read back ('' @ unverified_name r @ '')'')
    | _ \<Rightarrow> None)"

definition verdict_writes :: "step_verdict \<Rightarrow> nat" where
  "verdict_writes v = (case v of VApplied _ \<Rightarrow> 1 | VUnverified _ _ \<Rightarrow> 1 | _ \<Rightarrow> 0)"

definition take_verdict :: "plan_step \<Rightarrow> step_verdict \<Rightarrow> execute_outcome \<Rightarrow> execute_outcome" where
  "take_verdict step v st =
     \<lparr>eo_steps = eo_steps st @ [verdict_outcome step v],
      eo_halted_at = map_option (\<lambda>_. ps_id step) (verdict_halts v),
      eo_halted_because = verdict_halts v,
      eo_writes_applied = eo_writes_applied st + verdict_writes v,
      eo_all_writes_verified = (eo_all_writes_verified st \<and> (verdict_halts v = None \<or> \<not> ps_write step))\<rparr>"

fun exec_loop :: "result_parser \<Rightarrow> execute_context \<Rightarrow> 'w execute_deps \<Rightarrow> plan_step list
    \<Rightarrow> execute_outcome \<Rightarrow> string list \<Rightarrow> 'w \<Rightarrow> execute_outcome \<times> 'w" where
  "exec_loop rp ctx deps [] st spent w = (st, w)"
| "exec_loop rp ctx deps (step # steps) st spent w =
     (if eo_halted_at st \<noteq> None
      then exec_loop rp ctx deps steps
             (st\<lparr>eo_steps := eo_steps st @ [outcome_of step StSkipped None]\<rparr>) spent w
      else (case attempt_step rp ctx deps step spent w of
          (v, spent', w') \<Rightarrow> exec_loop rp ctx deps steps (take_verdict step v st) spent' w'))"

definition exec_start :: execute_outcome where
  "exec_start = \<lparr>eo_steps = [], eo_halted_at = None, eo_halted_because = None, eo_writes_applied = 0,
     eo_all_writes_verified = True\<rparr>"

definition executeBrowserPlan :: "result_parser \<Rightarrow> plan_step list \<Rightarrow> execute_context \<Rightarrow> 'w execute_deps \<Rightarrow> 'w
    \<Rightarrow> execute_outcome \<times> 'w" where
  "executeBrowserPlan rp steps ctx deps w = exec_loop rp ctx deps steps exec_start [] w"

definition confirmed :: "string list \<Rightarrow> step_outcome \<Rightarrow> nat \<Rightarrow> bool" where
  "confirmed expected s index \<longleftrightarrow> so_status s = StObserved \<and> (case nth_opt expected index of
      None \<Rightarrow> False
    | Some want \<Rightarrow> (case so_observed s of
        None \<Rightarrow> False
      | Some seen \<Rightarrow> map_option js_trim (bo_value_after seen) = Some (js_trim want)))"

definition confirmedChanges :: "execute_outcome \<Rightarrow> string list \<Rightarrow> (nat \<times> bool) list" where
  "confirmedChanges outcome expected = List.map_filter (\<lambda>s.
     if suffix ''-confirm'' (so_step_id s)
     then map_option (\<lambda>index. (index, confirmed expected s index)) (so_change_index s) else None)
     (eo_steps outcome)"

section \<open>Component lemmas\<close>

lemma authorizeIssue_None_iff:
  "authorizeIssue i = None \<longleftrightarrow>
     ii_routedSource i = ''browser_extension'' \<and> ii_allowedOrigins i \<noteq> []
     \<and> 32 \<le> length (ii_authorization i) \<and> ii_authorization i \<notin> set (ii_spentAuthorizations i)
     \<and> ii_expiresAt i - ii_issuedAt i \<le> 120000
     \<and> (isBrowserWrite (ii_action i) \<longrightarrow> ii_mode i \<noteq> RunShadow \<and> ii_allowSupervisedBrowserWrites i
          \<and> ii_approvalGranted i \<and> ii_userPresent i)"
  by (auto simp: authorizeIssue_def MIN_AUTHORIZATION_LENGTH_def MAX_AUTHORIZATION_WINDOW_MS_def)

definition passes :: "step_verdict \<Rightarrow> bool" where
  "passes v \<longleftrightarrow> verdict_halts v = None"

lemma passes_status:
  "passes v \<longleftrightarrow> so_status (verdict_outcome step v) \<in> {StApplied, StObserved}"
  "so_status (verdict_outcome step v) \<noteq> StSkipped"
  by (cases v; simp add: passes_def verdict_halts_def verdict_outcome_def outcome_of_def)+

lemma so_fields [simp]:
  "so_step_id (verdict_outcome step v) = ps_id step" "so_write (verdict_outcome step v) = ps_write step"
  by (cases v; simp add: verdict_outcome_def outcome_of_def)+

definition skipped :: "plan_step \<Rightarrow> step_outcome" where
  "skipped step = outcome_of step StSkipped None"

lemma exec_loop_halted:
  "eo_halted_at st \<noteq> None \<Longrightarrow>
     exec_loop rp ctx deps steps st spent w = (st\<lparr>eo_steps := eo_steps st @ map skipped steps\<rparr>, w)"
  by (induction steps arbitrary: st) (simp_all add: skipped_def)

text \<open>The shape of every run: a passing prefix, then at most one halting step, then skipped ones.\<close>

definition run_shape :: "plan_step list \<Rightarrow> step_outcome list \<Rightarrow> string option \<Rightarrow> bool" where
  "run_shape steps outs halted \<longleftrightarrow>
     (\<exists>pre rest oks. steps = pre @ rest \<and> length oks = length pre
        \<and> list_all2 (\<lambda>s k. so_step_id k = ps_id s \<and> so_status k \<in> {StApplied, StObserved}) pre oks
        \<and> (case rest of
             [] \<Rightarrow> outs = oks \<and> halted = None
           | s # later \<Rightarrow> (\<exists>k. outs = oks @ k # map skipped later \<and> so_step_id k = ps_id s
               \<and> so_status k \<in> {StRefused, StFailed, StNotIssued, StUnverified}
               \<and> halted = Some (ps_id s))))"

lemma exec_loop_shape:
  assumes "eo_halted_at st = None"
  shows "\<exists>outs. eo_steps (fst (exec_loop rp ctx deps steps st spent w)) = eo_steps st @ outs
    \<and> run_shape steps outs (eo_halted_at (fst (exec_loop rp ctx deps steps st spent w)))"
  using assms
proof (induction steps arbitrary: st spent w)
  case Nil
  then show ?case by (simp add: run_shape_def)
next
  case (Cons s steps)
  obtain v spent' w' where tried: "attempt_step rp ctx deps s spent w = (v, spent', w')"
    by (metis prod_cases3)
  let ?st = "take_verdict s v st"
  show ?case
  proof (cases "passes v")
    case True
    then have "eo_halted_at ?st = None" by (simp add: take_verdict_def passes_def)
    from Cons.IH [OF this, of spent' w'] obtain outs where
      outs: "eo_steps (fst (exec_loop rp ctx deps steps ?st spent' w')) = eo_steps ?st @ outs"
      "run_shape steps outs (eo_halted_at (fst (exec_loop rp ctx deps steps ?st spent' w')))" by blast
    from outs(2) obtain pre rest oks where shape: "steps = pre @ rest" "length oks = length pre"
      "list_all2 (\<lambda>s k. so_step_id k = ps_id s \<and> so_status k \<in> {StApplied, StObserved}) pre oks"
      "(case rest of
             [] \<Rightarrow> outs = oks \<and> eo_halted_at (fst (exec_loop rp ctx deps steps ?st spent' w')) = None
           | s # later \<Rightarrow> (\<exists>k. outs = oks @ k # map skipped later \<and> so_step_id k = ps_id s
               \<and> so_status k \<in> {StRefused, StFailed, StNotIssued, StUnverified}
               \<and> eo_halted_at (fst (exec_loop rp ctx deps steps ?st spent' w')) = Some (ps_id s)))"
      unfolding run_shape_def by blast
    have "run_shape (s # steps) (verdict_outcome s v # outs)
        (eo_halted_at (fst (exec_loop rp ctx deps steps ?st spent' w')))"
      unfolding run_shape_def
      using shape True passes_status [where v = v and step = s]
      by (intro exI [of _ "s # pre"] exI [of _ rest] exI [of _ "verdict_outcome s v # oks"])
        (auto split: list.splits)
    with outs Cons.prems tried show ?thesis by (simp add: take_verdict_def)
  next
    case False
    then have halted: "eo_halted_at ?st = Some (ps_id s)" by (auto simp: take_verdict_def passes_def)
    have "so_status (verdict_outcome s v) \<in> {StRefused, StFailed, StNotIssued, StUnverified}"
      using False passes_status [where v = v and step = s] by (cases "so_status (verdict_outcome s v)") auto
    then have "run_shape (s # steps) (verdict_outcome s v # map skipped steps) (Some (ps_id s))"
      unfolding run_shape_def by (intro exI [of _ "[]"] exI [of _ "s # steps"]) simp
    moreover have "exec_loop rp ctx deps (s # steps) st spent w
        = (?st\<lparr>eo_steps := eo_steps ?st @ map skipped steps\<rparr>, w')"
      using Cons.prems tried halted by (simp add: exec_loop_halted)
    moreover have "eo_steps ?st = eo_steps st @ [verdict_outcome s v]" by (simp add: take_verdict_def)
    ultimately show ?thesis using halted by simp
  qed
qed

text \<open>Dependencies that also keep a log of what was dispatched.\<close>

definition logged :: "'w execute_deps \<Rightarrow> ('w \<times> browser_request list) execute_deps" where
  "logged deps = \<lparr>dp_dispatch = \<lambda>r (w, sent). (case dp_dispatch deps r w of (a, w') \<Rightarrow> (a, (w', sent @ [r]))),
     dp_mintAuthorization = \<lambda>(w, sent). (case dp_mintAuthorization deps w of (a, w') \<Rightarrow> (a, (w', sent))),
     dp_newRequestId = \<lambda>(w, sent). (case dp_newRequestId deps w of (a, w') \<Rightarrow> (a, (w', sent))),
     dp_now = \<lambda>(w, sent). (case dp_now deps w of (a, w') \<Rightarrow> (a, (w', sent)))\<rparr>"

definition request_permitted :: "execute_context \<Rightarrow> browser_request \<Rightarrow> bool" where
  "request_permitted ctx r \<longleftrightarrow>
     ec_routedSource ctx = ''browser_extension'' \<and> br_run_id r = ec_runId ctx
     \<and> br_allowed_origins r = ec_allowedOrigins ctx \<and> br_allowed_origins r \<noteq> []
     \<and> 32 \<le> length (br_authorization r) \<and> br_expires_at r = br_issued_at r + 30000
     \<and> br_consequential r = isBrowserWrite (br_action r)
     \<and> (isBrowserWrite (br_action r) \<longrightarrow> ec_mode ctx \<noteq> RunShadow
          \<and> ec_allowSupervisedBrowserWrites ctx \<and> ec_approvalGranted ctx \<and> ec_userPresent ctx)"

lemma attempt_step_logged:
  assumes "attempt_step rp ctx (logged deps) step spent (w, sent) = (v, spent', (w', sent'))"
  shows "(\<exists>r. sent' = sent @ [r] \<and> request_permitted ctx r \<and> br_step_id r = ps_id step
      \<and> br_action r = ps_action step \<and> br_authorization r \<notin> set spent
      \<and> spent' = br_authorization r # spent)
    \<or> (sent' = sent \<and> spent' = spent \<and> \<not> passes v)"
  using assms
  by (auto simp: attempt_step_def logged_def Let_def authorizeIssue_None_iff issue_for_def requestFor_def
      request_permitted_def passes_def verdict_halts_def REQUEST_WINDOW_MS_def
      MAX_AUTHORIZATION_WINDOW_MS_def split: prod.splits option.splits sum.splits)

lemma exec_loop_logged:
  assumes "eo_halted_at st = None"
  shows "\<exists>new k. snd (snd (exec_loop rp ctx (logged deps) steps st spent (w, sent))) = sent @ new
    \<and> list_all (request_permitted ctx) new \<and> distinct (map br_authorization new)
    \<and> set (map br_authorization new) \<inter> set spent = {}
    \<and> map br_step_id new = map ps_id (take k steps) \<and> map br_action new = map ps_action (take k steps)"
  using assms
proof (induction steps arbitrary: st spent w sent)
  case Nil
  then show ?case by simp
next
  case (Cons s steps)
  obtain v spent' w' sent' where tried: "attempt_step rp ctx (logged deps) s spent (w, sent) = (v, spent', (w', sent'))"
    by (metis surj_pair)
  let ?st = "take_verdict s v st"
  have unfold: "exec_loop rp ctx (logged deps) (s # steps) st spent (w, sent)
      = exec_loop rp ctx (logged deps) steps ?st spent' (w', sent')"
    using Cons.prems tried by simp
  show ?case
  proof (cases "passes v")
    case True
    then have "eo_halted_at ?st = None" by (simp add: take_verdict_def passes_def)
    from Cons.IH [OF this, of spent' w' sent'] obtain new k where
      new: "snd (snd (exec_loop rp ctx (logged deps) steps ?st spent' (w', sent'))) = sent' @ new"
      "list_all (request_permitted ctx) new" "distinct (map br_authorization new)"
      "set (map br_authorization new) \<inter> set spent' = {}"
      "map br_step_id new = map ps_id (take k steps)" "map br_action new = map ps_action (take k steps)"
      by blast
    from attempt_step_logged [OF tried] True obtain r where
      r: "sent' = sent @ [r]" "request_permitted ctx r" "br_step_id r = ps_id s" "br_action r = ps_action s"
      "br_authorization r \<notin> set spent" "spent' = br_authorization r # spent" by blast
    show ?thesis
      unfolding unfold
      by (intro exI [of _ "r # new"] exI [of _ "Suc k"]) (use new r in auto)
  next
    case False
    then have "eo_halted_at ?st \<noteq> None" by (auto simp: take_verdict_def passes_def)
    then have log_eq: "snd (snd (exec_loop rp ctx (logged deps) steps ?st spent' (w', sent'))) = sent'"
      by (simp add: exec_loop_halted)
    from attempt_step_logged [OF tried] show ?thesis
    proof
      assume "\<exists>r. sent' = sent @ [r] \<and> request_permitted ctx r \<and> br_step_id r = ps_id s
        \<and> br_action r = ps_action s \<and> br_authorization r \<notin> set spent \<and> spent' = br_authorization r # spent"
      then obtain r where "sent' = sent @ [r]" "request_permitted ctx r" "br_step_id r = ps_id s"
        "br_action r = ps_action s" "br_authorization r \<notin> set spent" by blast
      then show ?thesis unfolding unfold log_eq
        by (intro exI [of _ "[r]"] exI [of _ 1]) simp
    next
      assume "sent' = sent \<and> spent' = spent \<and> \<not> passes v"
      then show ?thesis unfolding unfold log_eq by (intro exI [of _ "[]"] exI [of _ 0]) simp
    qed
  qed
qed

section \<open>Properties\<close>

text \<open>
  C11: A run of a plan reports one outcome per step in order, and stops at the first step that does
  not do what it said: a prefix that was applied or observed, then at most one step that was
  refused, failed, not issued or unverified - the one the run says it halted at - and every step
  after it skipped.
\<close>

theorem executeBrowserPlan_halts_at_first_failure:
  "run_shape steps (eo_steps (fst (executeBrowserPlan rp steps ctx deps w)))
     (eo_halted_at (fst (executeBrowserPlan rp steps ctx deps w)))"
  using exec_loop_shape [of exec_start rp ctx deps steps "[]" w]
  by (auto simp: executeBrowserPlan_def exec_start_def)

text \<open>
  C12: What a run puts on the wire is exactly a prefix of the plan, each step once and in order; every
  request carries a token of its own of at least 32 characters that no other request of the run
  carries, lives thirty seconds, names the origins of the run and tells the truth about being a
  write; and a write is sent only when policy allows it, the plan was approved, the user is there
  and the run is not a shadow run.
\<close>

theorem dispatched_requests_permitted:
  assumes "snd (snd (executeBrowserPlan rp steps ctx (logged deps) (w, []))) = sent"
  shows "list_all (request_permitted ctx) sent \<and> distinct (map br_authorization sent)
    \<and> (\<exists>k. map br_step_id sent = map ps_id (take k steps) \<and> map br_action sent = map ps_action (take k steps))"
  using exec_loop_logged [of exec_start rp ctx deps steps "[]" w "[]"] assms
  by (auto simp: executeBrowserPlan_def exec_start_def)

definition fx_token :: string where
  "fx_token = replicate 32 CHR ''t''"

definition fx_deps :: "browser_result \<Rightarrow> nat execute_deps" where
  "fx_deps r = \<lparr>dp_dispatch = \<lambda>_ n. (Inr (Typed r), n), dp_mintAuthorization = \<lambda>n. (fx_token @ dec n, n + 1),
     dp_newRequestId = \<lambda>n. (''r'' @ dec n, n), dp_now = \<lambda>n. (0, n)\<rparr>"

definition fx_parser :: result_parser where
  "fx_parser = \<lparr>rp_zod = \<lparr>bz_uuid = \<lambda>_. True, bz_url = \<lambda>_. True\<rparr>, rp_message = \<lambda>_. ''bad''\<rparr>"

definition fx_exec_ctx :: execute_context where
  "fx_exec_ctx = \<lparr>ec_runId = ''run-1'', ec_routedSource = ''browser_extension'', ec_mode = RunSupervised,
     ec_allowSupervisedBrowserWrites = True, ec_approvalGranted = True, ec_userPresent = True,
     ec_allowedOrigins = [''https://a.example'']\<rparr>"

definition fx_answer :: "action_outcome \<Rightarrow> browser_result" where
  "fx_answer out = \<lparr>rs_request_id = ''r1'', rs_run_id = ''run-1'', rs_step_id = ''c0-set'', rs_outcome = out,
     rs_refusal_reason = None, rs_observed = None, rs_failure = None, rs_completed_at = 0\<rparr>"

lemma fx_run:
  "executeBrowserPlan fx_parser [set_step 0 fx_change] fx_exec_ctx (logged (fx_deps (fx_answer Observed))) (0, [])
     = (take_verdict (set_step 0 fx_change) (VUnverified NotApplied None) exec_start,
        (1, [requestFor (set_step 0 fx_change) fx_exec_ctx ''r1'' (fx_token @ ''0'') 0]))"
proof -
  have "dec 0 = ''0''" "dec 1 = ''1''" by code_simp+
  then show ?thesis
    by (simp add: executeBrowserPlan_def exec_start_def attempt_step_def logged_def fx_deps_def issue_for_def
        authorizeIssue_def fx_exec_ctx_def fx_token_def MIN_AUTHORIZATION_LENGTH_def REQUEST_WINDOW_MS_def
        MAX_AUTHORIZATION_WINDOW_MS_def set_step_def isBrowserWrite_def parse_result_def fx_parser_def
        fx_answer_def result_schema_def judge_result_def verifyWrite_def)
qed

theorem dispatched_requests_permitted_witness:
  "request_permitted fx_exec_ctx (requestFor (set_step 0 fx_change) fx_exec_ctx ''r1'' (fx_token @ ''0'') 0)"
proof -
  have "snd (snd (executeBrowserPlan fx_parser [set_step 0 fx_change] fx_exec_ctx
      (logged (fx_deps (fx_answer Observed))) (0, [])))
    = [requestFor (set_step 0 fx_change) fx_exec_ctx ''r1'' (fx_token @ ''0'') 0]"
    by (simp add: fx_run)
  from dispatched_requests_permitted [OF this] show ?thesis by simp
qed


definition fx_seen_two :: browser_observation where
  "fx_seen_two = \<lparr>bo_resolved_name = ''Close date'', bo_controls = None, bo_controls_truncated = None,
     bo_value_before = Some ''1'', bo_value_after = Some '' 2 '', bo_match_count = 1,
     bo_origin = ''https://a.example''\<rparr>"



end
