(* ===== verification/Browser_Transport.thy ===== *)
theory Browser_Transport
  imports Browser_Execute Run_Engine
begin

text \<open>
  The own-window transport, \<open>packages/browser-actuator/src/own-window.ts\<close>, and the parsing of the
  page's answer in \<open>inpage.ts\<close>. The host's three primitives, its clock and the URL parser are
  parameters; so is the page script, which the host evaluates for a request. What the page returns
  is \<open>NotText\<close>, or a text with what \<open>JSON.parse\<close> makes of it. The locale \<open>browser_transport\<close> states
  what the executor may rely on; the own window provides it.
\<close>

section \<open>inpage.ts: the page's answer\<close>

datatype page_answer = NotText | TextAnswer "jvalue option"

record envelope_seen =
  en_value_before :: "string option"
  en_value_after :: "string option"
  en_accessible_name :: "string option"
  en_match_count :: "nat option"
  en_controls :: "browser_control list option"
  en_controls_truncated :: "bool option"

record page_envelope =
  pe_request_id :: string
  pe_outcome :: action_outcome
  pe_refusal_reason :: "string option"
  pe_observed :: "envelope_seen option"
  pe_detail :: "string option"

definition isHostAction :: "browser_action \<Rightarrow> bool" where
  "isHostAction a = (case a of Navigate _ \<Rightarrow> True | _ \<Rightarrow> False)"

definition field_of :: "jvalue \<Rightarrow> string \<Rightarrow> jvalue" where
  "field_of v k = (case v of JObj fs \<Rightarrow> supplied fs k | _ \<Rightarrow> JUndefined)"

definition text_field :: "nat \<Rightarrow> jvalue \<Rightarrow> string \<Rightarrow> string option" where
  "text_field limit v k = (case field_of v k of JStr s \<Rightarrow> Some (take limit s) | _ \<Rightarrow> None)"

definition bool_field :: "jvalue \<Rightarrow> string \<Rightarrow> bool option" where
  "bool_field v k = (case field_of v k of JBool b \<Rightarrow> Some b | _ \<Rightarrow> None)"

definition js_trunc :: "rat \<Rightarrow> int" where
  "js_trunc q = (if 0 \<le> q then \<lfloor>q\<rfloor> else \<lceil>q\<rceil>)"

definition clamp :: "int \<Rightarrow> int \<Rightarrow> rat \<Rightarrow> nat" where
  "clamp lo hi q = nat (max lo (min hi (js_trunc q)))"

definition role_of_name :: "string \<Rightarrow> target_role option" where
  "role_of_name s = List.find (\<lambda>r. role_name r = s) [Textbox, Combobox, Checkbox, Button, Link, Cell, Heading]"

definition parse_control :: "jvalue \<Rightarrow> browser_control option" where
  "parse_control item =
     (case field_of item ''role'' of
       JStr rn \<Rightarrow> (case role_of_name rn of
           None \<Rightarrow> None
         | Some role \<Rightarrow> (case field_of item ''name'' of
             JStr raw \<Rightarrow>
               (let name = take 120 (js_trim raw) in
                if name = [] \<or> looksLikeSecret name then None
                else (case (bool_field item ''secure'', bool_field item ''editable'') of
                    (Some secure, Some editable) \<Rightarrow>
                      Some \<lparr>bc_role = role, bc_name = name, bc_secure = secure, bc_editable = editable,
                        bc_duplicate_count = (case field_of item ''duplicate_count'' of
                            JNum n \<Rightarrow> clamp 1 200 n | _ \<Rightarrow> 1)\<rparr>
                  | _ \<Rightarrow> None))
           | _ \<Rightarrow> None))
     | _ \<Rightarrow> None)"

definition parseControls :: "jvalue list \<Rightarrow> browser_control list" where
  "parseControls raw = List.map_filter parse_control (take 60 raw)"

definition outcome_of_name :: "jvalue \<Rightarrow> action_outcome option" where
  "outcome_of_name v = (case v of
      JStr s \<Rightarrow> (if s = ''applied'' then Some Applied else if s = ''observed'' then Some Observed
        else if s = ''refused'' then Some OutRefused else if s = ''failed'' then Some OutFailed else None)
    | _ \<Rightarrow> None)"

definition failed_envelope :: "string \<Rightarrow> string \<Rightarrow> page_envelope" where
  "failed_envelope rid detail = \<lparr>pe_request_id = rid, pe_outcome = OutFailed, pe_refusal_reason = None,
     pe_observed = None, pe_detail = Some detail\<rparr>"

definition parse_seen :: "jvalue \<Rightarrow> envelope_seen option" where
  "parse_seen v =
     (let seen = Some \<lparr>en_value_before = text_field 512 v ''value_before'',
          en_value_after = text_field 512 v ''value_after'',
          en_accessible_name = text_field 120 v ''accessible_name'',
          en_match_count = (case field_of v ''match_count'' of JNum n \<Rightarrow> Some (clamp 0 1000 n) | _ \<Rightarrow> None),
          en_controls = (case field_of v ''controls'' of JArr vs \<Rightarrow> Some (parseControls vs) | _ \<Rightarrow> None),
          en_controls_truncated = bool_field v ''controls_truncated''\<rparr>
      in case v of JObj _ \<Rightarrow> seen | JArr _ \<Rightarrow> seen | _ \<Rightarrow> None)"

definition parse_env :: "jvalue \<Rightarrow> string \<Rightarrow> page_envelope" where
  "parse_env env rid =
     (if field_of env ''request_id'' \<noteq> JStr rid then failed_envelope rid ''answer did not match the request''
      else (case outcome_of_name (field_of env ''outcome'') of
          None \<Rightarrow> failed_envelope rid ''unknown outcome from the page''
        | Some outcome \<Rightarrow>
            (let refusal = text_field (length (case field_of env ''refusal_reason'' of JStr s \<Rightarrow> s | _ \<Rightarrow> []))
                   env ''refusal_reason'' in
             if outcome = OutRefused \<and> refusal = None then failed_envelope rid ''refusal without a reason''
             else \<lparr>pe_request_id = rid, pe_outcome = outcome,
               pe_refusal_reason = (if outcome = OutRefused then refusal else None),
               pe_observed = parse_seen (field_of env ''observed''),
               pe_detail = text_field 200 env ''detail''\<rparr>)))"

definition parseAgentEnvelope :: "page_answer \<Rightarrow> string \<Rightarrow> page_envelope" where
  "parseAgentEnvelope raw expectedRequestId =
     (case raw of
       NotText \<Rightarrow> failed_envelope expectedRequestId ''no answer from the page''
     | TextAnswer None \<Rightarrow> failed_envelope expectedRequestId ''unparseable answer from the page''
     | TextAnswer (Some v) \<Rightarrow>
         (case v of
           JObj _ \<Rightarrow> parse_env v expectedRequestId
         | JArr _ \<Rightarrow> parse_env v expectedRequestId
         | _ \<Rightarrow> failed_envelope expectedRequestId ''malformed answer''))"

section \<open>own-window.ts\<close>

record 'w own_window_host =
  ow_currentOrigin :: "'w \<Rightarrow> (string + string option) \<times> 'w"
  ow_navigate :: "string \<Rightarrow> 'w \<Rightarrow> (string + unit) \<times> 'w"
  ow_evaluate :: "browser_request \<Rightarrow> 'w \<Rightarrow> (string + page_answer) \<times> 'w"
  ow_now :: "'w \<Rightarrow> int \<times> 'w"
  ow_url_origin :: "string \<Rightarrow> string option"
  ow_enum_message :: "string \<Rightarrow> string"

definition transport_error :: "string \<Rightarrow> string \<Rightarrow> string" where
  "transport_error why detail = why @ '': '' @ detail"

definition correlated :: "browser_request \<Rightarrow> int \<Rightarrow> action_outcome \<Rightarrow> browser_result" where
  "correlated r stamp outcome = \<lparr>rs_request_id = br_request_id r, rs_run_id = br_run_id r,
     rs_step_id = br_step_id r, rs_outcome = outcome, rs_refusal_reason = None, rs_observed = None,
     rs_failure = None, rs_completed_at = stamp\<rparr>"

definition observation_from :: "string \<Rightarrow> envelope_seen \<Rightarrow> browser_observation" where
  "observation_from origin seen =
     \<lparr>bo_resolved_name = or_else (en_accessible_name seen) [], bo_controls = en_controls seen,
      bo_controls_truncated = en_controls_truncated seen, bo_value_before = en_value_before seen,
      bo_value_after = en_value_after seen, bo_match_count = or_else (en_match_count seen) 1,
      bo_origin = origin\<rparr>"

definition refusal_of_name :: "string \<Rightarrow> action_refusal option" where
  "refusal_of_name s = List.find (\<lambda>r. refusal_name r = s)
     [SecureField, OriginNotAllowed, PrivateWindow, NoMatch, AmbiguousMatch, NotAuthorized,
      PreconditionFailed, ConfirmNameMismatch, TargetNotEditable, UserAbsent, PausedByUser]"

definition answer_from :: "('w, 'z) own_window_host_scheme \<Rightarrow> browser_request \<Rightarrow> string \<Rightarrow> int \<Rightarrow> page_envelope \<Rightarrow> raw_answer" where
  "answer_from host r origin stamp env =
     (let base = correlated r stamp (pe_outcome env)
            \<lparr>rs_observed := map_option (observation_from origin) (pe_observed env)\<rparr>
      in if truthy_str (pe_refusal_reason env)
         then (case refusal_of_name (the (pe_refusal_reason env)) of
             None \<Rightarrow> Garbage (ow_enum_message host (the (pe_refusal_reason env)))
           | Some refusal \<Rightarrow> Typed (base\<lparr>rs_refusal_reason := Some refusal\<rparr>))
         else Typed base)"

definition host_navigate :: "'w own_window_host \<Rightarrow> browser_request \<Rightarrow> string \<Rightarrow> 'w
    \<Rightarrow> (string + raw_answer) \<times> 'w" where
  "host_navigate host r url w =
     (case ow_url_origin host url of
       None \<Rightarrow> (Inl ''Invalid URL'', w)
     | Some target \<Rightarrow>
         (if target \<notin> set (br_allowed_origins r)
          then (Inl (transport_error ''origin_mismatch''
                 (''navigation target '' @ target @ '' is not in the allowed origins'')), w)
          else (case ow_navigate host url w of
              (Inl m, w1) \<Rightarrow> (Inl m, w1)
            | (Inr _, w1) \<Rightarrow>
                (case ow_currentOrigin host w1 of
                  (Inl m, w2) \<Rightarrow> (Inl m, w2)
                | (Inr landed, w2) \<Rightarrow>
                    (let (stamp, w3) = ow_now host w2 in
                     if landed \<noteq> Some target
                     then (Inr (Typed (correlated r stamp OutRefused
                            \<lparr>rs_refusal_reason := Some OriginNotAllowed\<rparr>)), w3)
                     else (Inr (Typed (correlated r stamp Observed)), w3))))))"

definition ownWindowDispatch :: "'w own_window_host \<Rightarrow> browser_request \<Rightarrow> 'w \<Rightarrow> (string + raw_answer) \<times> 'w" where
  "ownWindowDispatch host r w =
     (case ow_currentOrigin host w of
       (Inl m, w1) \<Rightarrow> (Inl m, w1)
     | (Inr None, w1) \<Rightarrow> (Inl (transport_error ''no_window'' ''the agent's browser window is not open''), w1)
     | (Inr (Some origin), w1) \<Rightarrow>
         (if origin \<notin> set (br_allowed_origins r)
          then (Inl (transport_error ''origin_mismatch''
                 (''window is on '' @ origin @ '', which this action does not allow'')), w1)
          else (case br_action r of
              Navigate url \<Rightarrow> host_navigate host r url w1
            | _ \<Rightarrow>
                (case ow_evaluate host r w1 of
                  (Inl m, w2) \<Rightarrow> (Inl (transport_error ''bridge_failed'' m), w2)
                | (Inr raw, w2) \<Rightarrow>
                    (let (stamp, w3) = ow_now host w2 in
                     (Inr (answer_from host r origin stamp (parseAgentEnvelope raw (br_request_id r))), w3))))))"

section \<open>What the executor relies on\<close>

definition origins_ok :: "string list \<Rightarrow> step_outcome list \<Rightarrow> bool" where
  "origins_ok allowed ks \<longleftrightarrow>
     (\<forall>k \<in> set ks. \<forall>b. so_observed k = Some b \<longrightarrow> bo_origin b \<in> set allowed)"

locale browser_transport =
  fixes dispatch :: "browser_request \<Rightarrow> 'w \<Rightarrow> (string + raw_answer) \<times> 'w"
  assumes answers_own_request: "dispatch r w = (Inr (Typed a), w') \<Longrightarrow>
      rs_request_id a = br_request_id r \<and> rs_run_id a = br_run_id r \<and> rs_step_id a = br_step_id r"
    and observes_allowed_origin: "dispatch r w = (Inr (Typed a), w') \<Longrightarrow> rs_observed a = Some b \<Longrightarrow>
      bo_origin b \<in> set (br_allowed_origins r)"
begin

lemma attempt_origin:
  assumes deps: "dp_dispatch deps = dispatch"
    and step: "attempt_step rp ctx deps step spent w = (v, spent', w')"
    and seen: "so_observed (verdict_outcome step v) = Some b"
  shows "bo_origin b \<in> set (ec_allowedOrigins ctx)"
proof -
  have judged: "rs_observed a = Some b" if "v = judge_result step a" for a
    using seen unfolding that
    by (auto simp: judge_result_def verdict_outcome_def outcome_of_def split: option.splits if_splits)
  from step seen obtain r a w1 w2 where "dispatch r w1 = (Inr (Typed a), w2)" "v = judge_result step a"
    "br_allowed_origins r = ec_allowedOrigins ctx"
    by (auto simp: attempt_step_def deps Let_def parse_result_def requestFor_def verdict_outcome_def
        outcome_of_def split: prod.splits option.splits sum.splits raw_answer.splits if_splits)
  with judged observes_allowed_origin show ?thesis by metis
qed

lemma loop_origins:
  assumes deps: "dp_dispatch deps = dispatch" and start: "origins_ok (ec_allowedOrigins ctx) (eo_steps st)"
  shows "origins_ok (ec_allowedOrigins ctx) (eo_steps (fst (exec_loop rp ctx deps steps st spent w)))"
  using start
proof (induction steps arbitrary: st spent w)
  case (Cons s steps)
  obtain v spent' w' where tried: "attempt_step rp ctx deps s spent w = (v, spent', w')"
    by (metis prod_cases3)
  have "origins_ok (ec_allowedOrigins ctx) (eo_steps (st\<lparr>eo_steps := eo_steps st @ [outcome_of s StSkipped None]\<rparr>))"
    using Cons.prems by (auto simp: outcome_of_def origins_ok_def)
  moreover have "origins_ok (ec_allowedOrigins ctx) (eo_steps (take_verdict s v st))"
    using Cons.prems attempt_origin [OF deps tried] by (auto simp: take_verdict_def origins_ok_def)
  ultimately show ?case using Cons.IH tried by simp
qed simp

end

text \<open>The own window provides that contract.\<close>

lemma answer_from_correlated:
  assumes "answer_from host r origin stamp env = Typed a"
  shows "rs_request_id a = br_request_id r \<and> rs_run_id a = br_run_id r \<and> rs_step_id a = br_step_id r
    \<and> (\<forall>b. rs_observed a = Some b \<longrightarrow> bo_origin b = origin)"
  using assms
  by (auto simp: answer_from_def correlated_def observation_from_def Let_def split: if_splits option.splits)

lemma host_navigate_correlated:
  assumes "host_navigate host r url w = (Inr (Typed a), w')"
  shows "rs_request_id a = br_request_id r \<and> rs_run_id a = br_run_id r \<and> rs_step_id a = br_step_id r
    \<and> rs_observed a = None"
  using assms
  by (auto simp: host_navigate_def correlated_def Let_def split: option.splits if_splits prod.splits sum.splits)

lemma own_window_answer:
  assumes "ownWindowDispatch host r w = (Inr (Typed a), w')"
  shows "rs_request_id a = br_request_id r \<and> rs_run_id a = br_run_id r \<and> rs_step_id a = br_step_id r
    \<and> (\<forall>b. rs_observed a = Some b \<longrightarrow> fst (ow_currentOrigin host w) = Inr (Some (bo_origin b))
        \<and> bo_origin b \<in> set (br_allowed_origins r))"
proof -
  from assms obtain origin w1 where origin: "ow_currentOrigin host w = (Inr (Some origin), w1)"
    "origin \<in> set (br_allowed_origins r)"
    by (auto simp: ownWindowDispatch_def split: prod.splits sum.splits option.splits if_splits)
  show ?thesis
  proof (cases "\<exists>url. br_action r = Navigate url")
    case True
    with assms origin host_navigate_correlated show ?thesis
      by (fastforce simp: ownWindowDispatch_def)
  next
    case False
    with assms origin obtain stamp env where "answer_from host r origin stamp env = Typed a"
      by (auto simp: ownWindowDispatch_def Let_def
          split: prod.splits sum.splits browser_action.splits)
    from answer_from_correlated [OF this] origin show ?thesis by simp
  qed
qed

interpretation own_window: browser_transport "ownWindowDispatch host" for host
  by unfold_locales (auto dest: own_window_answer)

section \<open>What the page can say\<close>

lemma clamp_bounds: "lo \<le> hi \<Longrightarrow> 0 \<le> lo \<Longrightarrow> nat lo \<le> clamp lo hi q \<and> clamp lo hi q \<le> nat hi"
  by (auto simp: clamp_def intro: nat_mono)

lemma parse_control_ok:
  assumes "parse_control item = Some c"
  shows "control_schema c \<and> bc_name c \<noteq> []"
  using assms clamp_bounds [of 1 200]
  by (auto simp: parse_control_def control_schema_def boundedNonSecret_def Let_def Suc_le_eq
      split: jvalue.splits option.splits if_splits)

lemma set_map_filter: "set (List.map_filter f xs) = {y. \<exists>x \<in> set xs. f x = Some y}"
  by (induction xs) (auto simp: map_filter_simps split: option.splits)

lemma parse_env_ok:
  "pe_request_id (parse_env v rid) = rid
   \<and> (pe_outcome (parse_env v rid) \<noteq> OutFailed \<longrightarrow> field_of v ''request_id'' = JStr rid)"
  by (simp add: parse_env_def failed_envelope_def Let_def split: option.splits)

section \<open>Properties\<close>


text \<open>
  The page's answer is data: an answer that is not an object echoing the request's id becomes
  a failure for that very request, nothing the page says changes the request, run or step a
  result is attributed to, and a control listing never carries a secret-shaped or over-long name.
\<close>

theorem page_answer_is_data:
  "pe_request_id (parseAgentEnvelope raw rid) = rid
   \<and> (pe_outcome (parseAgentEnvelope raw rid) = OutFailed
      \<or> (\<exists>v. raw = TextAnswer (Some v) \<and> field_of v ''request_id'' = JStr rid))
   \<and> list_all (\<lambda>c. bc_name c \<noteq> [] \<and> control_schema c) (parseControls vs)
   \<and> length (parseControls vs) \<le> 60"
proof -
  have "control_schema c \<and> bc_name c \<noteq> []" if "c \<in> set (parseControls vs)" for c
    using that parse_control_ok by (auto simp: parseControls_def set_map_filter)
  moreover have "length (parseControls vs) \<le> 60"
    by (auto simp: parseControls_def map_filter_def intro: order_trans [OF length_filter_le])
  ultimately show ?thesis
    using parse_env_ok [of _ rid]
    by (auto simp: parseAgentEnvelope_def failed_envelope_def list_all_iff
        split: page_answer.splits option.splits jvalue.splits)
qed

section \<open>A run in the own window\<close>

definition fx_host :: "nat own_window_host" where
  "fx_host = \<lparr>ow_currentOrigin = \<lambda>n. (Inr (Some ''https://a.example''), n), ow_navigate = \<lambda>_ n. (Inr (), n),
     ow_evaluate = \<lambda>r n. (Inr (TextAnswer (Some (JObj [(''request_id'', JStr (br_request_id r)),
       (''outcome'', JStr ''observed''), (''observed'', JObj [(''origin'', JStr ''https://evil.example'')])]))), n),
     ow_now = \<lambda>n. (0, n), ow_url_origin = \<lambda>u. Some u, ow_enum_message = \<lambda>s. s\<rparr>"

definition fx_window_deps :: "nat execute_deps" where
  "fx_window_deps = fx_deps (fx_answer Observed)\<lparr>dp_dispatch := ownWindowDispatch fx_host\<rparr>"

lemma fx_window_run:
  "so_observed (hd (eo_steps (fst (executeBrowserPlan fx_parser [verify_step 0 fx_change] fx_exec_ctx
     fx_window_deps 0)))) = Some \<lparr>bo_resolved_name = [], bo_controls = None, bo_controls_truncated = None,
       bo_value_before = None, bo_value_after = None, bo_match_count = 1, bo_origin = ''https://a.example''\<rparr>
   \<and> eo_steps (fst (executeBrowserPlan fx_parser [verify_step 0 fx_change] fx_exec_ctx fx_window_deps 0)) \<noteq> []"
proof -
  have "dec 0 = ''0''" by code_simp
  moreover have "\<not> looksLikeSecret []" by code_simp
  ultimately show ?thesis
    by (simp add: executeBrowserPlan_def exec_start_def attempt_step_def fx_window_deps_def fx_deps_def issue_for_def
        authorizeIssue_def fx_exec_ctx_def fx_token_def MIN_AUTHORIZATION_LENGTH_def REQUEST_WINDOW_MS_def
        MAX_AUTHORIZATION_WINDOW_MS_def verify_step_def isBrowserWrite_def requestFor_def
        ownWindowDispatch_def fx_host_def parseAgentEnvelope_def parse_env_def field_of_def supplied_def
        jget_def or_else_def outcome_of_name_def text_field_def bool_field_def parse_seen_def answer_from_def
        correlated_def observation_from_def parse_result_def fx_parser_def result_schema_def
        observation_schema_def boundedNonSecret_def https_url_def judge_result_def take_verdict_def
        verdict_outcome_def outcome_of_def step_name_def)
qed


end
