(* ===== verification/Spec2Isabelle.thy ===== *)
theory Spec2Isabelle
  imports Policy_Properties Domain_Policy Lifecycle Local_Runtime Workflow Browser_Transport
begin

text \<open>
  A verification library for the decision core of Maman: the code that decides whether a learned agent
  may act, executes its steps, and drives a browser on its behalf (TypeScript, under
  \<open>src/packages/\<close>).

  \<^bold>\<open>The program.\<close> A recorded routine is compiled to an agent specification (\<open>AgentSpec\<close>): ordered steps,
  each naming a catalog capability and one of three modes, read, propose a write, write. The
  specification passes a static validator; a policy engine classifies every step and answers allow,
  require approval or deny; domain packs add rules per business action; a lifecycle moves the agent
  from draft over shadow and supervised to active. A run executes the steps through adapters, either in
  the local runtime on the desktop or in the durable workflow: a proposal is shown as a diff, and a write
  happens only against the digest of an approved diff. Browser writes become a plan of
  small actions, each authorised and dispatched separately, resolved against the live page, and read
  back.

  \<^bold>\<open>The theories.\<close>
  \<^item> Prelude, Js_Lists and Js_Regex hold what the components share of the language: strings (trim, split,
    lower case, decimal numerals), insertion-ordered maps with their laws in the locale \<open>js_map\<close>, a stable sort with the
    locale \<open>comparator\<close>, the locales \<open>step_invariant\<close> and \<open>rel_invariant\<close> for what folds and step relations
    keep, and a backtracking matcher for the regular expressions the code uses.
  \<^item> Contracts and Browser_Contract hold the data of \<open>contracts/src\<close> (common.ts, agent-spec.ts, run.ts,
    browser-action.ts) as records and datatypes, and the schemas as predicates.
  \<^item> Capability_Catalog holds \<open>capability-catalog/src/metadata.ts\<close>: the capabilities, lookup by id,
    candidates for a pattern token.
  \<^item> Policy_Engine holds \<open>policy-engine/src\<close> risk.ts, org-policy.ts and evaluate.ts; Policy_Properties its
    theorems; Domain_Policy holds pack-policy.ts with what it uses of \<open>domain-packs/src\<close> (schema.ts,
    extract.ts): the packs' verdict is the strictest over all packs and rules.
  \<^item> Lifecycle holds lifecycle.ts, mesh-lifecycle.ts and shadow.ts of \<open>agent-runtime/src\<close>, as functions and as
    step relations over them.
  \<^item> Spec_Validator holds validator.ts and characterises the accepted specifications.
  \<^item> Diff_Digest holds the diff, its JSON text and \<open>diffSha256\<close> of adapters.ts, on 32-bit words.
  \<^item> Run_Engine holds run-engine.ts, runtime-capabilities.ts and agent-inputs.ts: resolving inputs,
    retries, executing one step.
  \<^item> Local_Runtime holds local-runtime.ts: registering, triggers, shadow runs, approved runs.
  \<^item> Workflow holds workflow.ts: signals, approval waits and activities in one state monad, with a small
    program logic.
  \<^item> Browser_Plan, Browser_Resolve, Browser_Execute and Browser_Transport hold \<open>browser-actuator/src\<close>: plan.ts,
    resolve.ts with types.ts, authorize.ts with verify.ts and execute.ts, and own-window.ts with the answer
    parser of inpage.ts. Browser_Execute relies on a dispatcher; Browser_Transport interprets the
    locale that states its contract on the own-window transport.
  \<^item> Fixtures holds the concrete specifications the witnesses evaluate; the properties below span components.

  \<^bold>\<open>How the code is written here.\<close> A class's state is a record that its methods return updated; a closure's or
  a collaborator's effect is a function on a world of any type. A raise is the left side of a sum and
  \<open>undefined\<close> or \<open>null\<close> is \<open>None\<close>. An insertion-ordered \<open>Map\<close> is an association list without repeated
  keys. Money and confidence are rationals, times are milliseconds as integers, and counters that the
  schema bounds below by zero are naturals where the code only compares and adds them. Text is 8-bit; user-facing
  messages are datatypes with the values they mention, or strings where the text is itself compared
  or shown by a property. Loops are structural recursions, the retry loop counts down its attempts, and
  no definition needs fuel. Fields whose names say so in a theory's introduction are ghost fields that
  record history: the writes dispatched, the signals delivered, the requests sent.

  \<^bold>\<open>What is a parameter.\<close> The schema library's formats and URL parsing (records \<open>zod\<close>, \<open>browser_zod\<close>),
  \<open>localeCompare\<close>, clocks and identifiers, the capability adapters, the activities and the signals of the durable
  engine, the browser window and its page. Properties hold for every choice of these; what they need of one
  is a hypothesis, and its witness uses a concrete instance.

  \<^bold>\<open>What the lemmas show.\<close> Policy: what each decision implies, that risk never de-escalates, that deny is
  monotone in the policy, that the packs only restrict. Lifecycle: which transitions need a person or
  a policy, over whole histories. Validation: exactly which specifications pass. Execution: no write in a shadow run, no write
  without the approved digest, order and number of writes. Browser: what is planned is exactly the
  diff, what is sent is a prefix of the plan and permitted by the gates, what counts as applied was read back. Some
  theorems state a divergence the code has from its own comments; their introductions say so.

  \<^bold>\<open>What is not modelled.\<close> Asynchronous interleaving inside one workflow is reduced to the signals each wait may
  deliver; concurrent use of one runtime object is not modelled. The diff's digest is treated as the code computes
  it; that two diffs of equal digest are equal is not claimed. The page script itself, the adapters, the
  pattern and return-on-investment engines, the database, the HTTP service and the user interfaces are
  outside; the router of capabilities, the worker's activities, the trigger scheduler and the desktop
  companion's state machine are the next candidates.
\<close>

section \<open>Properties that span components\<close>

text \<open>
  C23: A specification the validator accepts and the policy engine allows outright, under a policy
  with no unattended capabilities such as the default one, contains no write step at all: the
  engine's message "fully read-only" is true of it.
\<close>

theorem allowed_spec_never_writes:
  assumes valid: "validateAgentSpec z raw = Valid spec"
    and attended: "op_unattended_medium_capabilities policy = []"
    and allow: "pd_decision (evaluateSpec spec policy ctx) = Allow"
  shows "list_all (\<lambda>step. st_mode step \<noteq> Write) (sp_steps spec)"
proof -
  have "st_mode step \<noteq> Write" if step: "step \<in> set (sp_steps spec)" for step
  proof
    assume writes: "st_mode step = Write"
    from valid step obtain c where c: "getCapability (st_capability_id step) = Some c"
      and mode: "Write \<in> set (cap_supported_modes c)"
      using writes by (auto simp: validate_exact well_formed_spec_def step_capability_ok_def split: option.splits)
    from allow step have "pd_decision (evaluateStep spec step policy ctx) = Allow"
      by (auto simp: evaluateSpec_decision spec_step_reasons_Nil_iff evaluateStep_decision split: if_splits)
    from evaluateStep_allowed [OF this] c writes attended
    have "effectiveStepRisk step spec = Low" "cap_risk_level c \<le> effectiveStepRisk step spec" by auto
    then have "cap_risk_level c = Low" by (cases "cap_risk_level c") (auto simp: less_eq_risk_level_def ORDER_def)
    with catalog_writes_not_low [OF c mode] show False by auto
  qed
  then show ?thesis by (simp add: list_all_iff)
qed

theorem allowed_spec_never_writes_witness:
  "list_all (\<lambda>step. st_mode step \<noteq> Write) (sp_steps fx_watch)"
proof (rule allowed_spec_never_writes [OF fx_watch_valid])
  show "op_unattended_medium_capabilities DEFAULT_ORG_POLICY = []" by (simp add: DEFAULT_ORG_POLICY_def)
  have steps: "sp_steps fx_watch = [fx_read]" by (simp add: fx_watch_def)
  have risk: "effectiveStepRisk fx_read fx_watch = effectiveStepRisk fx_read (fx_spec [fx_read])"
    by (simp add: effectiveStepRisk_def fx_watch_def)
  have plain: "step_denials (fx_spec [fx_read]) fx_read DEFAULT_ORG_POLICY = []"
    "pd_decision (evaluateStep (fx_spec [fx_read]) fx_read DEFAULT_ORG_POLICY fx_ctx) = Allow"
    by (rule fx_allowed fx_decisions)+
  have same: "step_denials fx_watch fx_read DEFAULT_ORG_POLICY
      = step_denials (fx_spec [fx_read]) fx_read DEFAULT_ORG_POLICY"
    by (simp only: step_denials_def risk)
  have ok: "step_denials fx_watch fx_read DEFAULT_ORG_POLICY = []"
    "pd_decision (evaluateStep fx_watch fx_read DEFAULT_ORG_POLICY fx_ctx) = Allow"
    using plain by (simp_all only: same evaluateStep_decision risk)
  have "spec_budget_reasons fx_watch DEFAULT_ORG_POLICY = []"
    by (simp add: spec_budget_reasons_def fx_watch_def fx_spec_def DEFAULT_ORG_POLICY_def is_schedule_def)
  with ok risk steps show "pd_decision (evaluateSpec fx_watch DEFAULT_ORG_POLICY fx_ctx) = Allow"
    by (simp add: evaluateSpec_decision spec_step_reasons_Nil_iff)
qed

text \<open>
  C9: Whatever the browser answers, the writes a run of an approved plan sends are, in order, a prefix
  of the approved changes followed by the save: nothing outside the diff is ever written, nothing is
  written twice, and no change is skipped over to reach a later one.
\<close>

theorem executed_writes_are_a_prefix_of_the_diff:
  assumes plan: "planBrowserWrites input = PlanOk steps"
    and run: "snd (snd (executeBrowserPlan rp steps ctx (logged deps) (w, []))) = sent"
  shows "\<exists>k. filter isBrowserWrite (map br_action sent)
    = take k (map write_action (pi_changes input) @ save_actions (pi_save_control input))"
proof -
  have steps: "steps = plan_steps input" using plan by (simp add: plan_ok_iff)
  obtain n where n: "map br_action sent = map ps_action (take n steps)"
    using exec_loop_logged [of exec_start rp ctx deps steps "[]" w "[]"] run
    by (auto simp: executeBrowserPlan_def exec_start_def)
  have flags: "\<forall>s \<in> set (take n steps). ps_write s = isBrowserWrite (ps_action s)"
    using plan_step_flags in_set_takeD unfolding steps by metis
  have "filter isBrowserWrite (map br_action sent) = map ps_action (filter ps_write (take n steps))"
    using flags by (simp add: n filter_map comp_def cong: filter_cong)
  also have "\<dots> = take (length (filter ps_write (take n steps))) (map ps_action (filter ps_write steps))"
    by (metis append_eq_conv_conj append_take_drop_id filter_append map_append length_map)
  also have "map ps_action (filter ps_write steps)
      = map write_action (pi_changes input) @ save_actions (pi_save_control input)"
    by (simp add: steps plan_write_actions)
  finally show ?thesis by blast
qed

theorem executed_writes_are_a_prefix_of_the_diff_witness:
  "\<exists>k. filter isBrowserWrite (map br_action (snd (snd (executeBrowserPlan fx_parser (plan_steps fx_plan_input)
      fx_exec_ctx (logged (fx_deps (fx_answer Observed))) (0, [])))))
    = take k (map write_action (pi_changes fx_plan_input) @ save_actions (pi_save_control fx_plan_input))"
  by (rule executed_writes_are_a_prefix_of_the_diff [OF fx_plan_ok refl])

end
